theory Spec2Isabelle
  imports Main
begin

section \<open>Order edit and change-control workflow: a shallow embedding\<close>

text \<open>
  The theory embeds the order mutation engine of \<^verbatim>\<open>src/order/edit.ts\<close>,
  \<^verbatim>\<open>src/order/edit-participants.ts\<close>, \<^verbatim>\<open>src/order/create.ts\<close> and
  \<^verbatim>\<open>src/order/validate-order-org.ts\<close>.

  Primary keys (the \<^verbatim>\<open>Oid\<close> columns) are incrementing keys: edit.ts, lines 436-437,
  relies on "the fact that the keys increment". The source carries them as non-empty
  strings; the embedding keeps the number behind the key. Dates are numbers as well.
\<close>

type_synonym ident = nat
type_synonym timestamp = nat

subsection \<open>Participants and the participant authorization guard\<close>

text \<open>
  \<^verbatim>\<open>Pick<OrderParticipant, "userId" | "approvalIsRequired">\<close> is the record
  \<open>participant_pick\<close>; a stored \<^verbatim>\<open>OrderParticipant\<close> row extends it with its key
  and the order it belongs to.
\<close>

record participant_pick =
  userId :: ident
  approvalIsRequired :: bool

record order_participant = participant_pick +
  participantOid :: ident
  participantOrderId :: ident

text \<open>
  The inner loop of \<^verbatim>\<open>isAllowedToEditParticipants\<close> (edit-participants.ts, lines 123-131):
  it walks the proposed list for one current change controller \<open>c\<close>, carrying
  \<^verbatim>\<open>foundController\<close> and \<^verbatim>\<open>countModChangeControllers\<close>.
\<close>

fun scanProposed ::
  "'a participant_pick_scheme \<Rightarrow> 'b participant_pick_scheme list \<Rightarrow> bool \<times> nat \<Rightarrow> bool \<times> nat"
where
  "scanProposed c [] acc = acc"
| "scanProposed c (p # ps) (foundController, cnt) =
     (if userId p = userId c
      then scanProposed c ps
             (True, if approvalIsRequired p \<noteq> approvalIsRequired c then cnt + 1 else cnt)
      else scanProposed c ps (foundController, cnt))"

text \<open>
  The outer loop (lines 112-138), carrying \<^verbatim>\<open>isSelf\<close> and
  \<^verbatim>\<open>countModChangeControllers\<close>.
\<close>

fun walkCurrent ::
  "'a participant_pick_scheme list \<Rightarrow> 'b participant_pick_scheme list \<Rightarrow> ident \<Rightarrow> nat \<times> nat
     \<Rightarrow> nat \<times> nat"
where
  "walkCurrent [] participants thisUserId acc = acc"
| "walkCurrent (c # cs) participants thisUserId (isSelf, cnt) =
     (if approvalIsRequired c
      then (if userId c = thisUserId
            then walkCurrent cs participants thisUserId (isSelf + 1, cnt + 1)
            else (case scanProposed c participants (False, cnt) of
                    (foundController, cnt') \<Rightarrow>
                      walkCurrent cs participants thisUserId
                        (isSelf, if \<not> foundController then cnt' + 1 else cnt')))
      else walkCurrent cs participants thisUserId (isSelf, cnt))"

definition isAllowedToEditParticipants ::
  "'a participant_pick_scheme list \<Rightarrow> 'b participant_pick_scheme list \<Rightarrow> ident \<Rightarrow> bool"
where
  "isAllowedToEditParticipants currentParticipants participants thisUserId =
     (case walkCurrent currentParticipants participants thisUserId (0, 0) of
        (isSelf, countModChangeControllers) \<Rightarrow>
          if isSelf = 0 \<and> countModChangeControllers > 0 then False
          else if countModChangeControllers > 1 then False
          else True)"


subsection \<open>JavaScript values and objects\<close>

text \<open>
  Scalar field values of a payload; \<open>JKey\<close> is a key, a non-empty string in the
  source. \<open>isEmptyValue\<close> is lodash's \<^verbatim>\<open>isEmpty\<close> on a scalar: only a non-empty
  string is non-empty (numbers, booleans and null are "empty").
\<close>

datatype jv = JString string | JKey ident | JNumber int | JBoolean bool | JNull

definition isEmptyValue :: "jv \<Rightarrow> bool" where
  "isEmptyValue v = (case v of JString t \<Rightarrow> t = [] | JKey k \<Rightarrow> False | _ \<Rightarrow> True)"

definition truthy :: "jv \<Rightarrow> bool" where
  "truthy v = (case v of JString t \<Rightarrow> t \<noteq> [] | JKey k \<Rightarrow> True | JNumber n \<Rightarrow> n \<noteq> 0
                 | JBoolean b \<Rightarrow> b | JNull \<Rightarrow> False)"

text \<open>An object of scalar fields, in key order; \<open>spread a b\<close> is \<^verbatim>\<open>{...a, ...b}\<close>.\<close>

type_synonym fields = "(string \<times> jv) list"

definition spread :: "fields \<Rightarrow> fields \<Rightarrow> fields" where
  "spread a b =
     map (\<lambda>(k, v). (k, case map_of b k of Some w \<Rightarrow> w | None \<Rightarrow> v)) a
     @ filter (\<lambda>(k, v). map_of a k = None) b"

definition has :: "fields \<Rightarrow> string \<Rightarrow> bool" where
  "has obj k = (map_of obj k \<noteq> None)"

text \<open>
  An optional property whose value is an array or an object: missing (undefined), null,
  or set. Only a set property is truthy (an empty array is truthy in JavaScript).
\<close>

datatype 'a js = Absent | Null | Val 'a

definition truthyJs :: "'a js \<Rightarrow> bool" where
  "truthyJs x = (case x of Val _ \<Rightarrow> True | _ \<Rightarrow> False)"

definition present :: "'a js \<Rightarrow> bool" where
  "present x = (x \<noteq> Absent)"

datatype error =
    ForbiddenError string
  | ApolloError string
  | TypeError string
  | SyntaxError
  | DbError string
  | CreateOrderError error

subsection \<open>Entities\<close>

record order =
  order_id :: ident
  buyerId :: ident
  supplierId :: "ident option"
  orderStatusId :: ident
  isReadyForBooking :: bool
  columns :: fields

record user =
  user_id :: ident
  user_orgId :: ident
  user_email :: string

record order_line_item =
  lineItem_id :: ident
  lineItem_orderId :: ident
  lineItem_fields :: fields

record order_change_request =
  changeRequest_id :: ident
  cr_orderId :: ident
  cr_entityId :: ident
  cr_changeStatusId :: ident
  title :: "string \<times> nat"
  description :: string
  createdOn :: timestamp
  cr_note :: "string option"
  changeRequestNumber :: nat

record order_change_review =
  orderChangeRequestId :: ident
  review_entityId :: ident
  reviewDate :: "timestamp option"
  review_changeStatusId :: ident

record order_change_request_line_item =
  crli_orderChangeRequestId :: ident
  crli_fields :: fields

text \<open>The payload of a line-item edit (\<^verbatim>\<open>OrderLineItemsInput\<close>).\<close>

record edit_line_item =
  lineItemId :: ident
  edit_fields :: fields

record lineItemsInput =
  addLineItems :: "fields list js"
  editLineItems :: "edit_line_item list js"
  removeLineItems :: "ident list js"
  replaceLineItems :: "fields list js"

definition noLineItems :: lineItemsInput where
  "noLineItems = \<lparr> addLineItems = Absent, editLineItems = Absent, removeLineItems = Absent,
                    replaceLineItems = Absent \<rparr>"

text \<open>lodash \<^verbatim>\<open>isEmpty\<close> on the line-items object: it has no own key.\<close>

definition isEmptyLineItems :: "lineItemsInput \<Rightarrow> bool" where
  "isEmptyLineItems li =
     (\<not> present (addLineItems li) \<and> \<not> present (editLineItems li)
      \<and> \<not> present (removeLineItems li) \<and> \<not> present (replaceLineItems li))"

text \<open>
  \<^verbatim>\<open>shippingInformation\<close>: the key \<^verbatim>\<open>extraData\<close> apart from the others
  (\<^verbatim>\<open>const { extraData, ...shippingInfoSubExtra } = shippingInformation\<close>), so
  \<open>ship_fields\<close> is \<^verbatim>\<open>shippingInfoSubExtra\<close>.
\<close>

type_synonym extraDataInput = fields

record shippingInformationInput =
  ship_fields :: fields
  ship_extraData :: "extraDataInput list option"

record locationInput =
  location_orgId :: "ident option"
  location_fields :: fields

text \<open>
  \<^verbatim>\<open>EditOrderInput\<close>. \<open>inputOther\<close> holds the keys the source does not name (the
  organization ids among them); the change-request note is one of the keys of
  \<^verbatim>\<open>inputRest\<close>.
\<close>

record editOrderInput =
  in_userId :: ident
  in_orderId :: ident
  in_shipToLocation :: "locationInput option"
  in_shippingInformation :: "shippingInformationInput option"
  in_lineItems :: "lineItemsInput js"
  in_orderStatusId :: "ident option"
  in_orderChangeRequestNote :: "string option"
  inputOther :: fields

subsection \<open>Stores\<close>

text \<open>The relational order store.\<close>

record tables =
  orders :: "order list"
  orderLineItems :: "order_line_item list"
  orderParticipants :: "order_participant list"
  orderChangeRequests :: "order_change_request list"
  orderChangeReviews :: "order_change_review list"
  orderChangeRequestLineItems :: "order_change_request_line_item list"
  extraDataRows :: "(ident \<times> extraDataInput) list"
  milestoneRows :: "ident list"

text \<open>
  A query runner obtained from \<^verbatim>\<open>queryRunnerStartTransaction\<close>: whether its transaction
  is active, whether the connection was released, and the tables a rollback returns to.
\<close>

record query_runner =
  isTransactionActive :: bool
  isReleased :: bool
  snapshot :: tables

text \<open>The document store of bookings and shipments (read by the cancellation check).\<close>

record fulfillment_rollup =
  rollup_orderId :: ident
  bookingRequestId :: ident

record booking_request =
  bookingRequest_id :: ident
  bookingStatusId :: "ident option"

record pg_line_item =
  target_id :: ident
  li_orderId :: "ident option"
  li_shipmentStatusId :: "ident option"
  deleted_at :: "timestamp option"

record booking_confirmation =
  bc_id :: ident
  bc_statusId :: "ident option"
  bc_created_at :: timestamp
  bc_updated_at :: timestamp

record shipment =
  shipment_id :: ident
  shipment_created_at :: timestamp
  shipment_updated_at :: timestamp

record order_update =
  set_orderStatusId :: "ident option"
  set_isReadyForBooking :: "bool option"
  set_columns :: fields

text \<open>Calls to collaborators outside the relational store, in the order they were made.\<close>

datatype event =
    UpdateOrder ident ident order_update "extraDataInput list option"
  | ResetOrder ident
  | CompleteMilestone ident
  | ChangeRequestMessage ident ident "ident list" ident
  | EditPOMessageThread ident
  | CreatePOMessageThread ident ident
  | CreateOrGetLocation locationInput
  | NotifyOrderMissingLocation ident "ident list"
  | SendEmail string string
  | CreateOrganization fields
  | ConnectUserToOrg string ident
  | CreateOrgRelationship ident string ident
  | CreateExternalId ident jv
  | GenAndUpdatePONumber ident ident
  | OrderCreatedMessage ident ident "ident list"
  | NotifyOrderOrgsAutoCreation ident
  | NotifyOrderAssignment ident

record store =
  db :: tables
  runners :: "query_runner list"
  nextOid :: nat
  events :: "event list"
  fulfillmentRollups :: "fulfillment_rollup list"
  bookingRequests :: "booking_request list"
  lineItemLinks :: "pg_line_item list"
  bookingConfirmations :: "booking_confirmation list"
  shipments :: "shipment list"


subsection \<open>Collaborators\<close>

text \<open>
  The functions below are called by the code under \<^verbatim>\<open>src/\<close> but defined elsewhere in
  the repository. Those that only compute are fields of the environment \<open>env\<close>, so that
  every theorem holds for whatever they return; those that act on a store are modelled
  further down, each under a comment that says so.
\<close>

record preferences_po =
  enableChangeControl :: "bool option"
  excludeChangeControl :: "string list option"
  headerFieldsEditable :: "string \<Rightarrow> bool"
  createFieldsEditable :: "string \<Rightarrow> bool"

record preferences =
  purchaseOrder :: "preferences_po option"
  termsAndConditions :: "jv option"
  enableLocationAutoCreate :: bool
  locationAutoCreateContactList :: "ident list"

record buyer_preferences =
  bp_enableLocationAutoCreate :: bool
  bp_locationAutoCreateContactList :: "ident list"
  enableCompanyAutoCreate :: bool
  companyAutoCreateContactList :: "ident list"
  allowExternalCreation :: "bool option"

text \<open>
  \<open>preferencesString\<close> is the outcome of \<^verbatim>\<open>JSON.parse\<close> on the column: \<open>Absent\<close> when
  the text does not parse, \<open>Null\<close> for the text \<^verbatim>\<open>null\<close>.
\<close>

record company =
  company_id :: ident
  company_orgId :: ident
  preferencesString :: "buyer_preferences js"

record participants_rights =
  participantId :: ident
  rights_orgId :: ident
  isAllowedToAcceptChangeRequest :: bool

text \<open>
  Results of the line-item utilities as \<^verbatim>\<open>handleErrors\<close> inspects them: the class of the
  result and its \<^verbatim>\<open>raw\<close> property, which is an array of rows (each row given by its
  column names), an object with or without a \<^verbatim>\<open>columns\<close> property, or undefined.
\<close>

datatype raw = RawArray "string list list" | RawObject "string list option" | RawUndefined

datatype response = InsertResult raw | UpdateResult raw | OtherResult

datatype lineItemCall =
    ReplaceLineItemsInOrder "fields list" ident "ident option" ident
  | AddLineItemsToOrder "fields list" ident "ident option" ident
  | EditLineItemsInOrder "edit_line_item list" ident ident
  | RemoveLineItemsFromOrder "ident list" ident

datatype table_name =
  OrderTable | OrderParticipantTable | OrderChangeRequestTable | OrderChangeReviewTable
  | OrderChangeRequestLineItemTable

record env =
  ctx_userId :: ident
  ctx_orgId :: ident
  isIntegration :: bool
  isAdminOrStaff :: bool
  today :: timestamp
  now :: timestamp
  findUser :: "ident \<Rightarrow> user option"
  findCompany :: "ident \<Rightarrow> company option"
  getStatusId :: "string \<Rightarrow> string \<Rightarrow> ident"
  getChangeStatusId :: "string \<Rightarrow> ident"
  lookupByValue :: "string \<Rightarrow> ident option"
  getPreferences :: "ident \<Rightarrow> ident \<Rightarrow> ident \<Rightarrow> preferences option"
  editableWithoutConfig :: bool
  isEditOrderKey :: "string \<Rightarrow> bool"
  isVisible :: "order \<Rightarrow> bool"
  isOrderEditable :: "order \<Rightarrow> user option \<Rightarrow> fulfillment_rollup list \<Rightarrow> bool \<times> string"
  isUserInAssociatedCompany :: "order option \<Rightarrow> user option \<Rightarrow> bool"
  orderReadyForBookingErrors :: "order \<Rightarrow> order_line_item list \<Rightarrow> string list"
  getOrderMilestoneByName :: "string \<Rightarrow> order \<Rightarrow> ident option"
  readyForBooking :: "order \<Rightarrow> order_line_item list \<Rightarrow> bool"
  generateChangeRequestDescription :: "lineItemsInput \<Rightarrow> fields \<Rightarrow> order \<Rightarrow> string"
  generateOrderChangeRequestLineItems ::
    "lineItemsInput \<Rightarrow> fields \<Rightarrow> order \<Rightarrow> ident \<Rightarrow> order_change_request_line_item list"
  lineItemUtility :: "lineItemCall \<Rightarrow> order_line_item list \<Rightarrow> order_line_item list \<times> response"
  locationIdFor :: "locationInput \<Rightarrow> ident"
  rejects :: "table_name \<Rightarrow> bool"
  orderParticipantsRights :: "participants_rights list"
  isBuyerRole :: "ident \<Rightarrow> bool"
  organizationIdFor :: "fields \<Rightarrow> ident option"

subsection \<open>Effects: a store and an error\<close>

text \<open>
  An \<^verbatim>\<open>async\<close> function is a function from the store to its outcome and the store it
  leaves: a thrown error does not undo what was written before it.
\<close>

type_synonym 'a io = "store \<Rightarrow> (error + 'a) \<times> store"

definition ret :: "'a \<Rightarrow> 'a io" where
  "ret x = (\<lambda>s. (Inr x, s))"

definition throw :: "error \<Rightarrow> 'a io" where
  "throw e = (\<lambda>s. (Inl e, s))"

definition bnd :: "'a io \<Rightarrow> ('a \<Rightarrow> 'b io) \<Rightarrow> 'b io" where
  "bnd m f = (\<lambda>s. case m s of (Inl e, s') \<Rightarrow> (Inl e, s') | (Inr x, s') \<Rightarrow> f x s')"

definition catch :: "'a io \<Rightarrow> (error \<Rightarrow> 'a io) \<Rightarrow> 'a io" where
  "catch m h = (\<lambda>s. case m s of (Inl e, s') \<Rightarrow> h e s' | (Inr x, s') \<Rightarrow> (Inr x, s'))"

definition whenM :: "bool \<Rightarrow> unit io \<Rightarrow> unit io" where
  "whenM b m = (if b then m else ret ())"

definition emit :: "event \<Rightarrow> unit io" where
  "emit e = (\<lambda>s. (Inr (), s\<lparr>events := events s @ [e]\<rparr>))"

definition modifyDb :: "(tables \<Rightarrow> tables) \<Rightarrow> unit io" where
  "modifyDb f = (\<lambda>s. (Inr (), s\<lparr>db := f (db s)\<rparr>))"

definition readStore :: "(store \<Rightarrow> 'a) \<Rightarrow> 'a io" where
  "readStore f = (\<lambda>s. (Inr (f s), s))"

text \<open>Running a list of actions in order, stopping at the first error (a \<^verbatim>\<open>for\<close> loop).\<close>

fun forEach :: "'a list \<Rightarrow> ('a \<Rightarrow> unit io) \<Rightarrow> unit io" where
  "forEach [] f = ret ()"
| "forEach (x # xs) f = bnd (f x) (\<lambda>_. forEach xs f)"

subsection \<open>Transactions\<close>

text \<open>
  \<^verbatim>\<open>queryRunnerStartTransaction\<close> hands out a fresh query runner with an open
  transaction. Statements issued through the runner are written to the tables at once
  and undone by a rollback, which returns the tables to the runner's snapshot; nothing
  else writes to the tables while a transaction of the embedded functions is open.
\<close>

definition queryRunnerStartTransaction :: "nat io" where
  "queryRunnerStartTransaction =
     (\<lambda>s. (Inr (length (runners s)),
            s\<lparr>runners := runners s @
                 [\<lparr>isTransactionActive = True, isReleased = False, snapshot = db s\<rparr>]\<rparr>))"

definition commitTransaction :: "nat \<Rightarrow> unit io" where
  "commitTransaction qr =
     (\<lambda>s. (Inr (), s\<lparr>runners := (runners s)[qr := (runners s ! qr)\<lparr>isTransactionActive := False\<rparr>]\<rparr>))"

definition rollbackTransaction :: "nat \<Rightarrow> unit io" where
  "rollbackTransaction qr =
     (\<lambda>s. (Inr (), s\<lparr>db := snapshot (runners s ! qr),
                      runners := (runners s)[qr := (runners s ! qr)\<lparr>isTransactionActive := False\<rparr>]\<rparr>))"

definition release :: "nat \<Rightarrow> unit io" where
  "release qr =
     (\<lambda>s. (Inr (), s\<lparr>runners := (runners s)[qr := (runners s ! qr)\<lparr>isReleased := True\<rparr>]\<rparr>))"

subsection \<open>Reading and updating the order\<close>

text \<open>
  \<^verbatim>\<open>dataLoaders.orderLoader.clear(orderId).load(orderId)\<close>: the row as stored now. The
  callers read a property of the result at once, so a missing row is a TypeError.
\<close>

definition findOrder :: "store \<Rightarrow> ident \<Rightarrow> order option" where
  "findOrder s orderId = find (\<lambda>row. order_id row = orderId) (orders (db s))"

definition loadOrder :: "ident \<Rightarrow> order io" where
  "loadOrder orderId =
     (\<lambda>s. case findOrder s orderId of
             None \<Rightarrow> (Inl (TypeError ''order''), s)
           | Some order \<Rightarrow> (Inr order, s))"

definition applyUpdate :: "order_update \<Rightarrow> order \<Rightarrow> order" where
  "applyUpdate u order =
     order\<lparr> orderStatusId :=
              (case set_orderStatusId u of None \<Rightarrow> orderStatusId order | Some st \<Rightarrow> st),
            isReadyForBooking :=
              (case set_isReadyForBooking u of None \<Rightarrow> isReadyForBooking order | Some b \<Rightarrow> b),
            columns := spread (columns order) (set_columns u) \<rparr>"

definition updateRow :: "ident \<Rightarrow> (order \<Rightarrow> order) \<Rightarrow> tables \<Rightarrow> tables" where
  "updateRow orderId f t =
     t\<lparr>orders := map (\<lambda>row. if order_id row = orderId then f row else row) (orders t)\<rparr>"

text \<open>
  Modelled from the spec: \<^verbatim>\<open>updateOrder(orderId, orgId, fields, extraData?)\<close> of
  \<^verbatim>\<open>util/order\<close> is not under \<^verbatim>\<open>src/\<close>; the spec (section 6) says it "persists direct
  field mutations". The model writes the fields to the order's row, stores the extra
  data given with them, and records the call.
\<close>

definition updateOrder ::
  "ident \<Rightarrow> ident \<Rightarrow> order_update \<Rightarrow> extraDataInput list option \<Rightarrow> unit io" where
  "updateOrder orderId orgId u extra =
     bnd (modifyDb (\<lambda>t. (updateRow orderId (applyUpdate u) t)
                          \<lparr>extraDataRows := extraDataRows t @
                             map (\<lambda>x. (orderId, x)) (case extra of None \<Rightarrow> [] | Some xs \<Rightarrow> xs)\<rparr>))
       (\<lambda>_. emit (UpdateOrder orderId orgId u extra))"

text \<open>
  Modelled from the spec: \<^verbatim>\<open>resetOrder(order)\<close> of \<^verbatim>\<open>util/order\<close> is not under
  \<^verbatim>\<open>src/\<close>; the spec (section 6) says it "reverts booking-readiness and dependent
  state". The model clears the flag of the order's row and records the call; the
  dependent state lives in stores the embedding does not write.
\<close>

definition resetOrder :: "order \<Rightarrow> unit io" where
  "resetOrder order =
     bnd (modifyDb (updateRow (order_id order) (\<lambda>row. row\<lparr>isReadyForBooking := False\<rparr>)))
       (\<lambda>_. emit (ResetOrder (order_id order)))"

text \<open>
  Modelled from the spec: \<^verbatim>\<open>checkReadyForBookingResolver\<close> is not under \<^verbatim>\<open>src/\<close>. The
  spec (section 4.2, step 9) has it "recompute ready for booking derived state", the
  glossary calls ready for booking the "derived order flag indicating all preconditions
  for booking are satisfied", and section 4.4 says that "an order under active change
  control cannot be considered booking-ready until resolved". The comment at its call
  (edit.ts, lines 376-377) says: "see if the order's ready for booking status has
  changed. If it has, the function updates the DB." So an order with a change request
  in Proposed status is found not ready; the other preconditions are the parameter
  \<open>readyForBooking\<close> of the environment.
\<close>

definition underChangeControl :: "env \<Rightarrow> store \<Rightarrow> ident \<Rightarrow> bool" where
  "underChangeControl env s orderId =
     list_ex (\<lambda>r. cr_orderId r = orderId
                  \<and> cr_changeStatusId r = getChangeStatusId env ''Proposed'')
       (orderChangeRequests (db s))"

definition checkReadyForBookingResolver :: "env \<Rightarrow> ident \<Rightarrow> unit io" where
  "checkReadyForBookingResolver env orderId =
     (\<lambda>s. case findOrder s orderId of
             None \<Rightarrow> (Inr (), s)
           | Some order \<Rightarrow>
               (let ready = (readyForBooking env order
                               (filter (\<lambda>l. lineItem_orderId l = orderId)
                                  (orderLineItems (db s)))
                             \<and> \<not> underChangeControl env s orderId)
                in if ready \<noteq> isReadyForBooking order
                   then modifyDb (updateRow orderId (\<lambda>row. row\<lparr>isReadyForBooking := ready\<rparr>)) s
                   else (Inr (), s)))"

subsection \<open>The cancellation eligibility check\<close>

text \<open>
  SQL's \<^verbatim>\<open>a != b\<close> as a \<^verbatim>\<open>WHERE\<close> condition: it selects a row only when both sides
  are non-null and differ.
\<close>

definition sqlNotEqual :: "'a option \<Rightarrow> 'a option \<Rightarrow> bool" where
  "sqlNotEqual a b = (case (a, b) of (Some x, Some y) \<Rightarrow> x \<noteq> y | _ \<Rightarrow> False)"

text \<open>
  \<^verbatim>\<open>dataLoaders.bookingRequestLoader.loadMany\<close>: the booking requests with the given
  keys (the rollup view joins existing booking requests).
\<close>

definition loadMany :: "booking_request list \<Rightarrow> ident list \<Rightarrow> booking_request list" where
  "loadMany rows ids =
     concat (map (\<lambda>i. case find (\<lambda>br. bookingRequest_id br = i) rows of
                          None \<Rightarrow> [] | Some br \<Rightarrow> [br]) ids)"

text \<open>The booking-confirmation query of edit.ts, lines 702-716.\<close>

definition activeBookingConfirmations ::
  "store \<Rightarrow> ident \<Rightarrow> ident \<Rightarrow> booking_confirmation list" where
  "activeBookingConfirmations s orderId bookingCancelStatusId =
     filter (\<lambda>bc.
        list_ex (\<lambda>li. target_id li = bc_id bc \<and> li_orderId li = Some orderId
                     \<and> deleted_at li = None) (lineItemLinks s)
        \<and> (sqlNotEqual (bc_statusId bc) (Some bookingCancelStatusId) \<or> bc_statusId bc = None)
        \<and> bc_created_at bc \<noteq> bc_updated_at bc)
       (bookingConfirmations s)"

text \<open>The shipment query of edit.ts, lines 726-740: the status is read from the link.\<close>

definition activeShipments :: "store \<Rightarrow> ident \<Rightarrow> ident option \<Rightarrow> shipment list" where
  "activeShipments s orderId shipmentCanceledStatusId =
     filter (\<lambda>sh.
        list_ex (\<lambda>li. target_id li = shipment_id sh \<and> li_orderId li = Some orderId
                     \<and> (sqlNotEqual (li_shipmentStatusId li) shipmentCanceledStatusId
                          \<or> li_shipmentStatusId li = None)
                     \<and> deleted_at li = None) (lineItemLinks s)
        \<and> shipment_created_at sh \<noteq> shipment_updated_at sh)
       (shipments s)"

definition canOrderBeCancelled :: "env \<Rightarrow> store \<Rightarrow> ident \<Rightarrow> error + bool" where
  "canOrderBeCancelled env s orderId =
     (let bookingRequestIds =
            map bookingRequestId (filter (\<lambda>f. rollup_orderId f = orderId) (fulfillmentRollups s));
          loaded = loadMany (bookingRequests s) bookingRequestIds
      in case lookupByValue env ''BookingStatus,Canceled'' of
           None \<Rightarrow> Inl (TypeError ''id'')
         | Some bookingCancelStatusId \<Rightarrow>
             if list_ex (\<lambda>br. bookingStatusId br \<noteq> Some bookingCancelStatusId) loaded
             then Inr False
             else if activeBookingConfirmations s orderId bookingCancelStatusId \<noteq> []
             then Inr False
             else if activeShipments s orderId (lookupByValue env ''ShipmentStatus,Canceled'') \<noteq> []
             then Inr False
             else Inr True)"


subsection \<open>Validation of an edit\<close>

text \<open>
  Destructuring \<^verbatim>\<open>const { addLineItems, ... } = lineItems\<close> throws on null and on
  undefined; lodash's \<^verbatim>\<open>isEmpty\<close> holds of both.
\<close>

definition destructure :: "lineItemsInput js \<Rightarrow> lineItemsInput io" where
  "destructure lineItems =
     (case lineItems of Val li \<Rightarrow> ret li | _ \<Rightarrow> throw (TypeError ''addLineItems''))"

definition isEmptyJs :: "lineItemsInput js \<Rightarrow> bool" where
  "isEmptyJs lineItems = (case lineItems of Val li \<Rightarrow> isEmptyLineItems li | _ \<Rightarrow> True)"

text \<open>The default of \<^verbatim>\<open>const { lineItems = {}, ... }\<close>: it replaces undefined only.\<close>

definition lineItemsOrDefault :: "lineItemsInput js \<Rightarrow> lineItemsInput js" where
  "lineItemsOrDefault lineItems = (case lineItems of Absent \<Rightarrow> Val noLineItems | x \<Rightarrow> x)"

text \<open>
  \<^verbatim>\<open>checkLineItems\<close> (edit.ts, lines 604-630). After the two checks the source reads the
  order's line items to clear their cache entries, which writes nothing.
\<close>

definition checkLineItems :: "ident \<Rightarrow> lineItemsInput js \<Rightarrow> unit io" where
  "checkLineItems orderId lineItems =
     bnd (destructure lineItems) (\<lambda>li.
       if truthyJs (replaceLineItems li)
          \<and> (truthyJs (addLineItems li) \<or> truthyJs (editLineItems li)
               \<or> truthyJs (removeLineItems li))
       then throw (ForbiddenError ''You cannot replace and add/edit/remove line items.'')
       else (case (editLineItems li, removeLineItems li) of
               (Val edits, Val removes) \<Rightarrow>
                 if list_ex (\<lambda>editItem. lineItemId editItem \<in> set removes) edits
                 then throw (ForbiddenError ''You cannot edit and remove the same line item.'')
                 else ret ()
             | _ \<Rightarrow> ret ()))"

text \<open>
  The keys of \<^verbatim>\<open>editFields = {...shippingInformation, ...inputSubShip}\<close>, each with
  whether lodash's \<^verbatim>\<open>isEmpty\<close> fails on its value. The shipping keys come first; among
  the named keys of the input the order is the client's, and the embedding fixes one
  (it decides only which field a permission error names).
\<close>

definition inputRest :: "editOrderInput \<Rightarrow> fields" where
  "inputRest input =
     (case in_orderChangeRequestNote input of
        None \<Rightarrow> [] | Some n \<Rightarrow> [(''orderChangeRequestNote'', JString n)])
     @ inputOther input"

definition editFieldKeys :: "editOrderInput \<Rightarrow> shippingInformationInput \<Rightarrow> (string \<times> bool) list" where
  "editFieldKeys input shipping =
     map (\<lambda>(k, v). (k, \<not> isEmptyValue (case map_of (inputOther input) k of
                                          Some w \<Rightarrow> w | None \<Rightarrow> v)))
         (ship_fields shipping)
     @ (case ship_extraData shipping of None \<Rightarrow> [] | Some xs \<Rightarrow> [(''extraData'', xs \<noteq> [])])
     @ (case in_lineItems input of
          Absent \<Rightarrow> [] | Null \<Rightarrow> [(''lineItems'', False)]
        | Val li \<Rightarrow> [(''lineItems'', \<not> isEmptyLineItems li)])
     @ (case in_orderStatusId input of None \<Rightarrow> [] | Some st \<Rightarrow> [(''orderStatusId'', True)])
     @ (case in_orderChangeRequestNote input of
          None \<Rightarrow> [] | Some n \<Rightarrow> [(''orderChangeRequestNote'', n \<noteq> [])])
     @ map (\<lambda>(k, v). (k, \<not> isEmptyValue v))
         (filter (\<lambda>(k, v). map_of (ship_fields shipping) k = None) (inputOther input))"

text \<open>\<^verbatim>\<open>checkFieldsEditable\<close> (edit.ts, lines 573-602).\<close>

definition checkFieldsEditable ::
  "env \<Rightarrow> ident \<Rightarrow> ident \<Rightarrow> ident \<Rightarrow> (string \<times> bool) list \<Rightarrow> preferences_po option io" where
  "checkFieldsEditable env uid orgId buyerOrgId editFields =
     (let poPrefs = (case getPreferences env uid orgId buyerOrgId of
                       None \<Rightarrow> None | Some preferences \<Rightarrow> purchaseOrder preferences);
          editable = (\<lambda>k. case poPrefs of
                             None \<Rightarrow> editableWithoutConfig env
                           | Some p \<Rightarrow> headerFieldsEditable p k)
      in case find (\<lambda>(k, nonEmpty). nonEmpty \<and> isEditOrderKey env k \<and> \<not> editable k) editFields of
           Some (k, _) \<Rightarrow>
             throw (ForbiddenError (''User does not have permission to edit field '' @ k))
         | None \<Rightarrow> ret poPrefs)"

subsection \<open>Status changes\<close>

fun joinWith :: "string \<Rightarrow> string list \<Rightarrow> string" where
  "joinWith sep [] = []"
| "joinWith sep [x] = x"
| "joinWith sep (x # y # ys) = x @ sep @ joinWith sep (y # ys)"

definition completeNamedMilestone :: "env \<Rightarrow> string \<Rightarrow> order \<Rightarrow> unit io" where
  "completeNamedMilestone env name order =
     (case getOrderMilestoneByName env name order of
        None \<Rightarrow> ret ()
      | Some milestone \<Rightarrow> emit (CompleteMilestone milestone))"

text \<open>
  \<^verbatim>\<open>editOrderStatus\<close> (edit.ts, lines 109-181); \<open>orgId\<close> is the \<^verbatim>\<open>orgId\<close> of the
  context it is called with.
\<close>

definition editOrderStatus :: "env \<Rightarrow> ident \<Rightarrow> ident \<Rightarrow> ident \<Rightarrow> order io" where
  "editOrderStatus env orgId orderId newStatusId =
     bnd (loadOrder orderId) (\<lambda>order.
     let canceledStatusId = getStatusId env ''Canceled'' ''OrderStatus'';
         rejectedStatusId = getStatusId env ''Rejected'' ''OrderStatus'';
         acceptedStatusId = getStatusId env ''Accepted'' ''OrderStatus''
     in
     bnd (if newStatusId = canceledStatusId
          then (\<lambda>s. case canOrderBeCancelled env s orderId of
                       Inl e \<Rightarrow> (Inl e, s)
                     | Inr availableToCancel \<Rightarrow>
                         if \<not> availableToCancel
                         then (Inl (ForbiddenError
                            ''Cannot cancel a Purchase Order that has a booked request, booked confirmation or shipment.''), s)
                         else (Inr (), s))
          else ret ()) (\<lambda>_.
     bnd (whenM (newStatusId = canceledStatusId \<or> newStatusId = rejectedStatusId)
            (resetOrder order)) (\<lambda>_.
     bnd (if newStatusId = acceptedStatusId \<and> orderStatusId order \<noteq> acceptedStatusId
          then bnd (readStore (\<lambda>s. orderReadyForBookingErrors env order
                      (filter (\<lambda>l. lineItem_orderId l = orderId) (orderLineItems (db s)))))
                 (\<lambda>readyForBookingErrors.
                    if readyForBookingErrors \<noteq> []
                    then throw (ForbiddenError (joinWith '', '' readyForBookingErrors))
                    else bnd (completeNamedMilestone env ''PO Accepted'' order) (\<lambda>_.
                         bnd (completeNamedMilestone env ''Ready for Booking'' order) (\<lambda>_.
                         ret (Some True))))
          else ret None) (\<lambda>updateBookingReady.
     bnd (updateOrder orderId orgId
            \<lparr>set_orderStatusId = Some newStatusId, set_isReadyForBooking = updateBookingReady,
             set_columns = []\<rparr> None) (\<lambda>_.
     loadOrder orderId)))))"

subsection \<open>Direct line-item updates\<close>

text \<open>\<^verbatim>\<open>handleErrors\<close> (edit.ts, lines 69-107). Clearing a cache entry writes nothing.\<close>

definition errorObjectType :: "raw \<Rightarrow> error + string" where
  "errorObjectType r =
     (case r of
        RawObject (Some cols) \<Rightarrow>
          Inr (if ''OrderOid'' \<in> set cols then ''line item''
               else if ''Note'' \<in> set cols then ''note'' else ''object'')
      | _ \<Rightarrow> Inl (TypeError ''columns''))"

definition isNonEmptyArray :: "raw \<Rightarrow> bool" where
  "isNonEmptyArray r = (case r of RawArray (row # rows) \<Rightarrow> True | _ \<Rightarrow> False)"

definition handleResponse :: "response \<Rightarrow> unit io" where
  "handleResponse response =
     (case response of
        InsertResult r \<Rightarrow>
          if \<not> isNonEmptyArray r
          then (case errorObjectType r of
                  Inl e \<Rightarrow> throw e
                | Inr entity \<Rightarrow>
                    throw (ForbiddenError
                      (''Failed to create '' @ entity @ '' and relate it to order.'')))
          else ret ()
      | UpdateResult r \<Rightarrow>
          if \<not> isNonEmptyArray r
          then (case errorObjectType r of
                  Inl e \<Rightarrow> throw e
                | Inr entity \<Rightarrow> throw (ForbiddenError (''Failed to update '' @ entity @ ''.'')))
          else ret ()
      | OtherResult \<Rightarrow> ret ())"

definition handleErrors :: "response list \<Rightarrow> unit io" where
  "handleErrors responses = forEach responses handleResponse"

text \<open>
  Modelled from the spec: the line-item utilities of \<^verbatim>\<open>util/order-line-items\<close> are not
  under \<^verbatim>\<open>src/\<close>. Each call maps the stored line items to the new ones and yields a
  persistence result (the parameter \<open>lineItemUtility\<close>).
\<close>

fun runLineItemCalls :: "env \<Rightarrow> lineItemCall list \<Rightarrow> response list io" where
  "runLineItemCalls env [] = ret []"
| "runLineItemCalls env (c # cs) =
     bnd (\<lambda>s. case lineItemUtility env c (orderLineItems (db s)) of
                 (items, response) \<Rightarrow> (Inr response, s\<lparr>db := (db s)\<lparr>orderLineItems := items\<rparr>\<rparr>))
       (\<lambda>response. bnd (runLineItemCalls env cs) (\<lambda>responses. ret (response # responses)))"

definition orgIdOf :: "user option \<Rightarrow> ident io" where
  "orgIdOf u = (case u of None \<Rightarrow> throw (TypeError ''orgId'') | Some x \<Rightarrow> ret (user_orgId x))"

text \<open>\<^verbatim>\<open>updateLineItems\<close> (edit.ts, lines 527-570).\<close>

definition updateLineItems :: "env \<Rightarrow> order \<Rightarrow> user option \<Rightarrow> lineItemsInput js \<Rightarrow> unit io" where
  "updateLineItems env order u lineItems =
     bnd (destructure lineItems) (\<lambda>li.
     bnd (case replaceLineItems li of
            Val items \<Rightarrow>
              bnd (orgIdOf u) (\<lambda>org.
                ret [ReplaceLineItemsInOrder items (order_id order) (supplierId order) org])
          | _ \<Rightarrow>
              bnd (case addLineItems li of
                     Val items \<Rightarrow>
                       bnd (orgIdOf u) (\<lambda>org.
                         ret [AddLineItemsToOrder items (order_id order) (supplierId order) org])
                   | _ \<Rightarrow> ret []) (\<lambda>adds.
              bnd (case editLineItems li of
                     Val items \<Rightarrow>
                       bnd (orgIdOf u) (\<lambda>org.
                         ret [EditLineItemsInOrder items (order_id order) org])
                   | _ \<Rightarrow> ret []) (\<lambda>edits.
              ret (adds @ edits @
                   (case removeLineItems li of
                      Val ids \<Rightarrow> [RemoveLineItemsFromOrder ids (order_id order)]
                    | _ \<Rightarrow> []))))) (\<lambda>queries.
     bnd (runLineItemCalls env queries) handleErrors))"


subsection \<open>Change control\<close>

text \<open>
  The query of edit.ts, lines 434-439: among the order's change requests, the one with
  the greatest key.
\<close>

definition lastChangeRequest :: "order_change_request list \<Rightarrow> ident \<Rightarrow> order_change_request option" where
  "lastChangeRequest rows orderId =
     (case filter (\<lambda>r. cr_orderId r = orderId) rows of
        [] \<Rightarrow> None
      | r # rs \<Rightarrow>
          Some (fold (\<lambda>x best. if changeRequest_id best < changeRequest_id x then x else best)
                  rs r))"

text \<open>
  The insert of edit.ts, lines 444-470. The statement either inserts the row under a
  fresh key or, when the database turns it down, returns no row, which the source
  makes an error.
\<close>

definition insertChangeRequest :: "env \<Rightarrow> order_change_request \<Rightarrow> ident io" where
  "insertChangeRequest env row =
     (\<lambda>s. if rejects env OrderChangeRequestTable
           then (Inl (ForbiddenError ''Failed to create order change request''), s)
           else (Inr (nextOid s),
                 s\<lparr>db := (db s)\<lparr>orderChangeRequests :=
                            orderChangeRequests (db s) @ [row\<lparr>changeRequest_id := nextOid s\<rparr>]\<rparr>,
                   nextOid := Suc (nextOid s)\<rparr>))"

text \<open>An insert whose result the source does not inspect: it fails only by throwing.\<close>

definition insertUnchecked :: "env \<Rightarrow> table_name \<Rightarrow> (tables \<Rightarrow> tables) \<Rightarrow> unit io" where
  "insertUnchecked env table f =
     (if rejects env table then throw (DbError ''insert'') else modifyDb f)"

definition participantsOf :: "store \<Rightarrow> ident \<Rightarrow> order_participant list" where
  "participantsOf s orderId =
     filter (\<lambda>p. participantOrderId p = orderId) (orderParticipants (db s))"

text \<open>The review rows of edit.ts, lines 496-506.\<close>

definition reviewRow ::
  "env \<Rightarrow> ident \<Rightarrow> ident \<Rightarrow> order_participant \<Rightarrow> order_change_review" where
  "reviewRow env changeRequestId authorId p =
     \<lparr> orderChangeRequestId = changeRequestId,
       review_entityId = userId p,
       reviewDate = (if userId p = authorId then Some (now env) else None),
       review_changeStatusId =
         (if userId p = authorId then getChangeStatusId env ''Approved''
          else getChangeStatusId env ''Proposed'') \<rparr>"

text \<open>
  \<^verbatim>\<open>invokeChangeControl\<close> (edit.ts, lines 413-525). The description and the line-item
  deltas come from \<^verbatim>\<open>util/change-request\<close> (parameters of the environment); the message
  to the other participants is recorded as an event.
\<close>

definition invokeChangeControl ::
  "env \<Rightarrow> order \<Rightarrow> user option \<Rightarrow> ident \<Rightarrow> lineItemsInput js \<Rightarrow> fields \<Rightarrow> string option
     \<Rightarrow> extraDataInput list option \<Rightarrow> unit io" where
  "invokeChangeControl env order u orgId lineItems shippingInformation orderChangeRequestNote
       extraData =
     bnd (updateOrder (order_id order) orgId
            \<lparr>set_orderStatusId = None, set_isReadyForBooking = Some False, set_columns = []\<rparr>
            extraData) (\<lambda>_.
     bnd (destructure lineItems) (\<lambda>li.
     bnd (readStore (\<lambda>s. lastChangeRequest (orderChangeRequests (db s)) (order_id order)))
       (\<lambda>lastRequest.
     let number = (case lastRequest of
                     Some r \<Rightarrow> changeRequestNumber r + 1
                   | None \<Rightarrow> 1);
         proposedChangeStatusId = getChangeStatusId env ''Proposed''
     in
     (case u of
        None \<Rightarrow> throw (TypeError ''id'')
      | Some author \<Rightarrow>
     bnd (insertChangeRequest env
            \<lparr> changeRequest_id = 0,
              cr_orderId = order_id order,
              cr_entityId = user_id author,
              cr_changeStatusId = proposedChangeStatusId,
              title = (''Change Request #'', number),
              description = generateChangeRequestDescription env li shippingInformation order,
              createdOn = today env,
              cr_note = orderChangeRequestNote,
              changeRequestNumber = number \<rparr>) (\<lambda>changeRequestId.
     bnd (readStore (\<lambda>s. List.map_filter (findUser env)
                           (map userId (participantsOf s (order_id order)))))
       (\<lambda>orderParticipantUsers.
     let rest = filter (\<lambda>p. user_id p \<noteq> user_id author) orderParticipantUsers in
     bnd (emit (ChangeRequestMessage changeRequestId (user_id author) (map user_id rest) orgId))
       (\<lambda>_.
     bnd (readStore (\<lambda>s. filter approvalIsRequired (participantsOf s (order_id order))))
       (\<lambda>approvers.
     bnd (insertUnchecked env OrderChangeReviewTable
            (\<lambda>t. t\<lparr>orderChangeReviews := orderChangeReviews t
                       @ map (reviewRow env changeRequestId (user_id author)) approvers\<rparr>))
       (\<lambda>_.
     insertUnchecked env OrderChangeRequestLineItemTable
       (\<lambda>t. t\<lparr>orderChangeRequestLineItems := orderChangeRequestLineItems t
                  @ generateOrderChangeRequestLineItems env li shippingInformation order
                      changeRequestId\<rparr>))))))))))"

subsection \<open>The order mutation router\<close>

text \<open>
  \<^verbatim>\<open>JSON.parse(buyer?.preferencesString)\<close> (edit.ts, line 201; create.ts, line 130):
  without a buyer the argument is undefined, which does not parse.
\<close>

definition parsePreferences :: "company option \<Rightarrow> buyer_preferences option io" where
  "parsePreferences buyer =
     (case buyer of
        None \<Rightarrow> throw SyntaxError
      | Some b \<Rightarrow> (case preferencesString b of
                     Absent \<Rightarrow> throw SyntaxError
                   | Null \<Rightarrow> ret None
                   | Val p \<Rightarrow> ret (Some p)))"

definition shippingOrDefault :: "shippingInformationInput option \<Rightarrow> shippingInformationInput" where
  "shippingOrDefault x =
     (case x of None \<Rightarrow> \<lparr>ship_fields = [], ship_extraData = None\<rparr> | Some sh \<Rightarrow> sh)"

definition hasDestination :: "shippingInformationInput \<Rightarrow> bool" where
  "hasDestination sh =
     (case map_of (ship_fields sh) ''destinationId'' of None \<Rightarrow> False | Some v \<Rightarrow> truthy v)"

definition setField :: "string \<Rightarrow> jv \<Rightarrow> fields \<Rightarrow> fields" where
  "setField k v obj = spread obj [(k, v)]"

text \<open>Lines 199-224: loading, visibility and editability.\<close>

definition editOrderAuthorize ::
  "env \<Rightarrow> editOrderInput \<Rightarrow> (order \<times> buyer_preferences option \<times> user option) io" where
  "editOrderAuthorize env input =
     bnd (loadOrder (in_orderId input)) (\<lambda>order.
     bnd (parsePreferences (findCompany env (buyerId order))) (\<lambda>buyerPreferences.
     let u = findUser env (in_userId input) in
     if \<not> isVisible env order
     then throw (ForbiddenError ''User does not have permission to edit this order.'')
     else bnd (readStore (\<lambda>s. isOrderEditable env order u
                  (filter (\<lambda>f. rollup_orderId f = in_orderId input) (fulfillmentRollups s))))
            (\<lambda>(isEditable, message).
               if \<not> isEditable then throw (ForbiddenError message)
               else ret (order, buyerPreferences, u))))"

definition locationAutoCreate :: "buyer_preferences option \<Rightarrow> bool" where
  "locationAutoCreate buyerPreferences =
     (case buyerPreferences of None \<Rightarrow> False | Some p \<Rightarrow> bp_enableLocationAutoCreate p)"

text \<open>
  Lines 231-248. \<^verbatim>\<open>createOrGetLocation\<close> of \<^verbatim>\<open>util/location\<close> is recorded as an event;
  the key of the location it returns is the parameter \<open>locationIdFor\<close>.
\<close>

definition handleUnknownLocation ::
  "env \<Rightarrow> order \<Rightarrow> buyer_preferences option \<Rightarrow> locationInput option
     \<Rightarrow> shippingInformationInput \<Rightarrow> shippingInformationInput io" where
  "handleUnknownLocation env order buyerPreferences shipToLocation shippingInformation =
     (if \<not> hasDestination shippingInformation \<and> isIntegration env
         \<and> locationAutoCreate buyerPreferences
      then (case shipToLocation of
              None \<Rightarrow> ret shippingInformation
            | Some loc \<Rightarrow>
                (let loc' = loc\<lparr>location_orgId := Some (buyerId order)\<rparr> in
                 bnd (emit (CreateOrGetLocation loc')) (\<lambda>_.
                 ret (shippingInformation\<lparr>ship_fields :=
                        setField ''destinationId'' (JKey (locationIdFor env loc'))
                          (ship_fields shippingInformation)\<rparr>))))
      else ret shippingInformation)"

text \<open>
  \<^verbatim>\<open>editAndResetOrder\<close> (edit.ts, lines 633-672); \<open>orgId\<close> is the \<^verbatim>\<open>orgId\<close> of the
  context it is given. Its \<^verbatim>\<open>inputRest\<close> still holds \<^verbatim>\<open>orderStatusId\<close>.
\<close>

definition editAndResetOrder ::
  "env \<Rightarrow> user option \<Rightarrow> order \<Rightarrow> shippingInformationInput \<Rightarrow> editOrderInput \<Rightarrow> ident
     \<Rightarrow> order io" where
  "editAndResetOrder env u order shippingInformation input orgId =
     (let lineItems = lineItemsOrDefault (in_lineItems input) in
      bnd (checkLineItems (order_id order) lineItems) (\<lambda>_.
      bnd (case in_orderStatusId input of
             Some newStatusId \<Rightarrow>
               if newStatusId \<noteq> orderStatusId order
               then editOrderStatus env orgId (order_id order) newStatusId
               else ret order
           | None \<Rightarrow> ret order) (\<lambda>order1.
      bnd (resetOrder order1) (\<lambda>_.
      bnd (updateOrder (order_id order1) orgId
             \<lparr>set_orderStatusId = in_orderStatusId input, set_isReadyForBooking = None,
              set_columns = spread (inputRest input) (ship_fields shippingInformation)\<rparr>
             (ship_extraData shippingInformation)) (\<lambda>_.
      bnd (loadOrder (order_id order)) (\<lambda>order2.
      bnd (updateLineItems env order2 u lineItems) (\<lambda>_.
      bnd (checkReadyForBookingResolver env (order_id order)) (\<lambda>_.
      loadOrder (order_id order)))))))))"

text \<open>Lines 250-273: the integration branch.\<close>

definition editOrderIntegration ::
  "env \<Rightarrow> editOrderInput \<Rightarrow> order \<Rightarrow> buyer_preferences option \<Rightarrow> user option
     \<Rightarrow> shippingInformationInput \<Rightarrow> order io" where
  "editOrderIntegration env input order buyerPreferences u shippingInformation =
     bnd (editAndResetOrder env u order shippingInformation input (buyerId order))
       (\<lambda>updatedOrder.
     bnd (whenM (\<not> hasDestination shippingInformation \<and> isIntegration env
                 \<and> locationAutoCreate buyerPreferences)
            (emit (NotifyOrderMissingLocation (order_id updatedOrder)
                     (case buyerPreferences of
                        None \<Rightarrow> [] | Some p \<Rightarrow> bp_locationAutoCreateContactList p)))) (\<lambda>_.
     ret updatedOrder))"

text \<open>
  Lines 275-300: field permissions, line-item validation and the status sub-operation.
  It yields the preferences and the order the decision is taken on.
\<close>

definition editOrderPrepare ::
  "env \<Rightarrow> editOrderInput \<Rightarrow> order \<Rightarrow> shippingInformationInput
     \<Rightarrow> (preferences_po option \<times> order) io" where
  "editOrderPrepare env input order shippingInformation =
     bnd (checkFieldsEditable env (in_userId input) (ctx_orgId env) (buyerId order)
            (editFieldKeys input shippingInformation)) (\<lambda>poPrefs.
     bnd (checkLineItems (in_orderId input) (lineItemsOrDefault (in_lineItems input))) (\<lambda>_.
     bnd (case in_orderStatusId input of
            Some newStatusId \<Rightarrow>
              if newStatusId \<noteq> orderStatusId order
              then editOrderStatus env (ctx_orgId env) (in_orderId input) newStatusId
              else ret order
          | None \<Rightarrow> ret order) (\<lambda>order1.
     ret (poPrefs, order1))))"

text \<open>Lines 302-326: the field classifier and the decision.\<close>

definition excludedFromChangeCtl :: "preferences_po option \<Rightarrow> string list" where
  "excludedFromChangeCtl poPrefs =
     (case (case poPrefs of None \<Rightarrow> None | Some p \<Rightarrow> excludeChangeControl p) of
        Some keys \<Rightarrow> keys
      | None \<Rightarrow> [''cargoReadyDate'', ''hotFlag'', ''specialInstructions''])"

definition shippingNoChangeCtl :: "preferences_po option \<Rightarrow> fields \<Rightarrow> fields" where
  "shippingNoChangeCtl poPrefs shippingInfoSubExtra =
     filter (\<lambda>(skey, v). skey \<in> set (excludedFromChangeCtl poPrefs)) shippingInfoSubExtra"

definition shippingInfoChangeReq :: "preferences_po option \<Rightarrow> fields \<Rightarrow> fields" where
  "shippingInfoChangeReq poPrefs shippingInfoSubExtra =
     filter (\<lambda>(skey, v). skey \<notin> set (excludedFromChangeCtl poPrefs)) shippingInfoSubExtra"

definition hasChangeControl ::
  "env \<Rightarrow> preferences_po option \<Rightarrow> order \<Rightarrow> fields \<Rightarrow> lineItemsInput js \<Rightarrow> bool" where
  "hasChangeControl env poPrefs order shippingInfoSubExtra lineItems =
     ((case poPrefs of None \<Rightarrow> False | Some p \<Rightarrow> enableChangeControl p = Some True)
      \<and> (orderStatusId order = getStatusId env ''Received'' ''OrderStatus''
           \<or> orderStatusId order = getStatusId env ''Accepted'' ''OrderStatus'')
      \<and> (shippingInfoChangeReq poPrefs shippingInfoSubExtra \<noteq> [] \<or> \<not> isEmptyJs lineItems))"

definition hasOnlyChangeControl ::
  "env \<Rightarrow> preferences_po option \<Rightarrow> order \<Rightarrow> fields \<Rightarrow> lineItemsInput js \<Rightarrow> bool" where
  "hasOnlyChangeControl env poPrefs order shippingInfoSubExtra lineItems =
     (hasChangeControl env poPrefs order shippingInfoSubExtra lineItems
      \<and> shippingNoChangeCtl poPrefs shippingInfoSubExtra = [])"

definition associatedCompanyIdKeys :: "string list" where
  "associatedCompanyIdKeys =
     [''agentId'', ''brokerId'', ''consigneeId'', ''forwarderId'', ''supplierId'', ''truckerId'']"

text \<open>Lines 337-374: the fork between the direct path and change control.\<close>

definition editOrderFork ::
  "env \<Rightarrow> editOrderInput \<Rightarrow> shippingInformationInput \<Rightarrow> user option
     \<Rightarrow> preferences_po option \<Rightarrow> order \<Rightarrow> unit io" where
  "editOrderFork env input shippingInformation u poPrefs order =
     (let orderId = in_orderId input;
          orgId = ctx_orgId env;
          lineItems = lineItemsOrDefault (in_lineItems input);
          shippingInfoSubExtra = ship_fields shippingInformation;
          extraData = ship_extraData shippingInformation
      in
      if \<not> hasChangeControl env poPrefs order shippingInfoSubExtra lineItems
      then bnd (updateOrder orderId orgId
                  \<lparr>set_orderStatusId = None, set_isReadyForBooking = None,
                   set_columns = spread (inputRest input) shippingInfoSubExtra\<rparr>
                  extraData) (\<lambda>_.
           bnd (loadOrder orderId) (\<lambda>order2.
           updateLineItems env order2 u lineItems))
      else bnd (invokeChangeControl env order u orgId lineItems shippingInfoSubExtra
                  (in_orderChangeRequestNote input) extraData) (\<lambda>_.
           whenM (\<not> hasOnlyChangeControl env poPrefs order shippingInfoSubExtra lineItems)
             (updateOrder orderId orgId
                \<lparr>set_orderStatusId = None, set_isReadyForBooking = None,
                 set_columns = spread (inputRest input)
                                 (shippingNoChangeCtl poPrefs shippingInfoSubExtra)\<rparr>
                extraData)))"

text \<open>
  Lines 376-399: the ready-for-booking housekeeping, the re-read of the order and the
  participant notification.
\<close>

definition editOrderHousekeeping ::
  "env \<Rightarrow> editOrderInput \<Rightarrow> shippingInformationInput \<Rightarrow> order \<Rightarrow> order io" where
  "editOrderHousekeeping env input shippingInformation order =
     bnd (checkReadyForBookingResolver env (order_id order)) (\<lambda>_.
     bnd (loadOrder (in_orderId input)) (\<lambda>updatedOrder.
     bnd (whenM (list_ex (\<lambda>k. has (spread (ship_fields shippingInformation)
                                     (inputOther input)) k)
                    associatedCompanyIdKeys)
            (emit (EditPOMessageThread (in_orderId input)))) (\<lambda>_.
     ret updatedOrder)))"

text \<open>Lines 337-399.\<close>

definition editOrderRoute ::
  "env \<Rightarrow> editOrderInput \<Rightarrow> shippingInformationInput \<Rightarrow> user option
     \<Rightarrow> preferences_po option \<times> order \<Rightarrow> order io" where
  "editOrderRoute env input shippingInformation u prepared =
     (case prepared of (poPrefs, order) \<Rightarrow>
        bnd (editOrderFork env input shippingInformation u poPrefs order) (\<lambda>_.
        editOrderHousekeeping env input shippingInformation order))"

text \<open>\<^verbatim>\<open>editOrder\<close> (edit.ts, lines 183-400).\<close>

definition editOrder :: "env \<Rightarrow> editOrderInput \<Rightarrow> order io" where
  "editOrder env input =
     bnd (editOrderAuthorize env input) (\<lambda>(order, buyerPreferences, u).
     bnd (handleUnknownLocation env order buyerPreferences (in_shipToLocation input)
            (shippingOrDefault (in_shippingInformation input))) (\<lambda>shippingInformation.
     if isIntegration env
     then editOrderIntegration env input order buyerPreferences u shippingInformation
     else bnd (editOrderPrepare env input order shippingInformation)
            (editOrderRoute env input shippingInformation u)))"


subsection \<open>Editing the participants of an order\<close>

text \<open>
  An insert into the participant table whose result the source inspects: when the
  database turns the statement down, or there is no row to insert, no row comes back
  and the source throws \<open>failure\<close>. The rows get fresh keys.
\<close>

definition insertParticipants ::
  "env \<Rightarrow> error \<Rightarrow> ident \<Rightarrow> 'a participant_pick_scheme list \<Rightarrow> ident list io" where
  "insertParticipants env failure orderId ps =
     (\<lambda>s. if rejects env OrderParticipantTable \<or> ps = []
           then (Inl failure, s)
           else (let ids = [nextOid s ..< nextOid s + length ps];
                     rows = map (\<lambda>(p, i). \<lparr> userId = userId p,
                                           approvalIsRequired = approvalIsRequired p,
                                           participantOid = i,
                                           participantOrderId = orderId \<rparr>) (zip ps ids)
                 in (Inr ids,
                     s\<lparr>db := (db s)\<lparr>orderParticipants := orderParticipants (db s) @ rows\<rparr>,
                       nextOid := nextOid s + length ps\<rparr>)))"

definition deleteParticipants :: "ident \<Rightarrow> unit io" where
  "deleteParticipants orderId =
     modifyDb (\<lambda>t. t\<lparr>orderParticipants :=
                       filter (\<lambda>p. participantOrderId p \<noteq> orderId) (orderParticipants t)\<rparr>)"

text \<open>
  The guard as its caller runs it: \<^verbatim>\<open>thisUser\<close> may be undefined, and then the first
  required approver met makes \<^verbatim>\<open>thisUser.id\<close> a TypeError.
\<close>

definition guardParticipants ::
  "order_participant list \<Rightarrow> participant_pick list \<Rightarrow> user option \<Rightarrow> bool io" where
  "guardParticipants currentParticipants participants thisUser =
     (case thisUser of
        Some u \<Rightarrow> ret (isAllowedToEditParticipants currentParticipants participants (user_id u))
      | None \<Rightarrow> if list_ex approvalIsRequired currentParticipants
                then throw (TypeError ''id'') else ret True)"

text \<open>\<^verbatim>\<open>editOrderParticipants\<close> (edit-participants.ts, lines 14-98).\<close>

definition editOrderParticipants ::
  "env \<Rightarrow> ident \<Rightarrow> participant_pick list \<Rightarrow> order_participant list io" where
  "editOrderParticipants env orderId participants =
     bnd (readStore (\<lambda>s. findOrder s orderId)) (\<lambda>order.
     let thisUser = findUser env (ctx_userId env) in
     if \<not> isUserInAssociatedCompany env order thisUser \<and> \<not> isIntegration env
     then throw (ForbiddenError ''Unauthorized participant user'')
     else
     bnd (forEach participants (\<lambda>p.
            if \<not> isUserInAssociatedCompany env order (findUser env (userId p))
               \<and> \<not> isIntegration env
            then throw (ForbiddenError ''Unauthorized participant'') else ret ())) (\<lambda>_.
     bnd (readStore (\<lambda>s. participantsOf s orderId)) (\<lambda>currentParticipants.
     bnd (if \<not> isAdminOrStaff env \<and> \<not> isIntegration env
          then guardParticipants currentParticipants participants thisUser
          else ret True) (\<lambda>allowed.
     if \<not> allowed then throw (ApolloError ''Unauthorized change controller modification'')
     else
     bnd (deleteParticipants orderId) (\<lambda>_.
     if length participants < 1
     then bnd (emit (EditPOMessageThread orderId)) (\<lambda>_. ret [])
     else
     bnd queryRunnerStartTransaction (\<lambda>qr.
     bnd (insertParticipants env (ApolloError ''Failed to create participants'') orderId
            participants) (\<lambda>participantIds.
     bnd (commitTransaction qr) (\<lambda>_.
     bnd (release qr) (\<lambda>_.
     bnd (emit (EditPOMessageThread orderId)) (\<lambda>_.
     readStore (\<lambda>s. filter (\<lambda>p. participantOid p \<in> set participantIds)
                       (orderParticipants (db s)))))))))))))"

subsection \<open>Creating an order\<close>

text \<open>
  The default approver of one company (create.ts, lines 51-65). Without a participant
  allowed to accept change requests, the source sorts the array in place and takes the
  company's first participant; the sorted array is what the later steps see.
\<close>

definition pickDefaultApprover ::
  "participants_rights list \<Rightarrow> ident option \<Rightarrow> ident option \<times> participants_rights list" where
  "pickDefaultApprover participants companyId =
     (case find (\<lambda>p. Some (rights_orgId p) = companyId \<and> isAllowedToAcceptChangeRequest p)
             participants of
        Some p \<Rightarrow> (Some (participantId p), participants)
      | None \<Rightarrow>
          (let sorted = sort_key participantId participants
           in (map_option participantId (find (\<lambda>p. Some (rights_orgId p) = companyId) sorted),
               sorted)))"

text \<open>
  \<^verbatim>\<open>createOrderParticipants\<close> (create.ts, lines 39-96). \<open>defaultApprovers\<close> is the
  \<^verbatim>\<open>Set\<close> of the two picks, an undefined pick included. The statements run on the
  caller's query runner when it gives one.
\<close>

definition createOrderParticipants ::
  "env \<Rightarrow> ident \<Rightarrow> ident option \<Rightarrow> ident option list \<Rightarrow> ident \<Rightarrow> unit io" where
  "createOrderParticipants env buyerOrgId supplierOrgId otherCompanyIds orderId =
     (let wanted = filter (\<lambda>c. c \<noteq> None) ([Some buyerOrgId, supplierOrgId] @ otherCompanyIds);
          participants = filter (\<lambda>p. Some (rights_orgId p) \<in> set wanted)
                           (orderParticipantsRights env)
      in case pickDefaultApprover participants (Some buyerOrgId) of
           (buyerPick, participants1) \<Rightarrow>
      case pickDefaultApprover participants1 supplierOrgId of
           (supplierPick, participants2) \<Rightarrow>
      let defaultApprovers = remdups [buyerPick, supplierPick] in
      if length defaultApprovers = 0
      then throw (ApolloError ''No default participants for order.'')
      else bnd (insertParticipants env (ApolloError ''Failed to create order participants.'')
                  orderId
                  (map (\<lambda>p. \<lparr> userId = participantId p,
                               approvalIsRequired =
                                 (if Some (participantId p) \<in> set defaultApprovers
                                  then True else False) \<rparr>) participants2))
             (\<lambda>_. ret ()))"

text \<open>\<^verbatim>\<open>CreateOrderInput\<close>; \<open>co_fields\<close> holds the keys the source does not name.\<close>

record createOrderInput =
  co_userId :: ident
  co_participantId :: ident
  co_buyerId :: ident
  co_supplierId :: "ident option"
  co_forwarderId :: "ident option"
  co_consigneeId :: "ident option"
  co_agentId :: "ident option"
  co_brokerId :: "ident option"
  co_truckerId :: "ident option"
  co_supplier :: "fields option"
  co_forwarder :: "fields option"
  co_consignee :: "fields option"
  co_agent :: "fields option"
  co_broker :: "fields option"
  co_trucker :: "fields option"
  co_purchaseOrderNumber :: "string option"
  co_shippingInformation :: shippingInformationInput
  co_extraData :: "extraDataInput list option"
  co_lineItems :: "fields list option"
  co_shipToLocation :: "locationInput option"
  co_fields :: fields

text \<open>\<^verbatim>\<open>validateOrderOrg\<close> (validate-order-org.ts, lines 39-180).\<close>

record orgEntity =
  entity_orgId :: "ident option"
  orgData :: "fields option"
  role :: string
  required :: bool

definition orgEntities :: "createOrderInput \<Rightarrow> orgEntity list" where
  "orgEntities input =
     [ \<lparr>entity_orgId = co_supplierId input, orgData = co_supplier input,
        role = ''supplier'', required = True\<rparr>,
       \<lparr>entity_orgId = co_forwarderId input, orgData = co_forwarder input,
        role = ''forwarder'', required = True\<rparr>,
       \<lparr>entity_orgId = co_consigneeId input, orgData = co_consignee input,
        role = ''consignee'', required = True\<rparr>,
       \<lparr>entity_orgId = co_agentId input, orgData = co_agent input,
        role = ''agent'', required = False\<rparr>,
       \<lparr>entity_orgId = co_brokerId input, orgData = co_broker input,
        role = ''broker'', required = False\<rparr>,
       \<lparr>entity_orgId = co_truckerId input, orgData = co_trucker input,
        role = ''trucker'', required = False\<rparr> ]"

definition emailOf :: "env \<Rightarrow> ident \<Rightarrow> string io" where
  "emailOf env uid =
     (case findUser env uid of None \<Rightarrow> throw (TypeError ''email'') | Some u \<Rightarrow> ret (user_email u))"

text \<open>
  One round of the loop over the six organizations (lines 118-177), carrying the
  \<^verbatim>\<open>orderOrgs\<close> object. Organization creation, relationships, external ids and e-mail
  live outside the order store and are recorded as events.
\<close>

definition validateOneOrg ::
  "env \<Rightarrow> ident \<Rightarrow> ident list \<Rightarrow> user option \<Rightarrow> orgEntity \<Rightarrow> (string \<times> ident) list
     \<Rightarrow> (string \<times> ident) list io" where
  "validateOneOrg env buyerKey newAdminUsers firstAdminUser e orderOrgs =
     bnd (if entity_orgId e = None \<and> orgData e = None \<and> required e
          then bnd (forEach newAdminUsers (\<lambda>adminUserId.
                      bnd (emailOf env adminUserId) (\<lambda>email.
                      emit (SendEmail email ''New Company Exception'')))) (\<lambda>_.
               throw (ApolloError (''Both '' @ role e @ ''Id and '' @ role e @ '' can't be empty'')))
          else ret ()) (\<lambda>_.
     case (entity_orgId e, orgData e) of
       (None, Some d) \<Rightarrow>
         bnd (case firstAdminUser of
                None \<Rightarrow> throw (TypeError ''email'')
              | Some admin \<Rightarrow> emit (CreateOrganization (d @ [(''adminEmail'',
                                JString (user_email admin))]))) (\<lambda>_.
         case organizationIdFor env d of
           None \<Rightarrow> ret orderOrgs
         | Some org \<Rightarrow>
             bnd (forEach newAdminUsers (\<lambda>adminUserId.
                    bnd (emailOf env adminUserId) (\<lambda>email.
                    emit (ConnectUserToOrg email org)))) (\<lambda>_.
             bnd (emit (CreateOrgRelationship buyerKey (role e) org)) (\<lambda>_.
             bnd (case map_of d ''externalID'' of
                    Some x \<Rightarrow> whenM (truthy x) (emit (CreateExternalId org x))
                  | None \<Rightarrow> ret ()) (\<lambda>_.
             ret (filter (\<lambda>(k, v). k \<noteq> role e @ ''Id'') orderOrgs @ [(role e @ ''Id'', org)])))))
     | _ \<Rightarrow> ret orderOrgs)"

fun validateOrgs ::
  "env \<Rightarrow> ident \<Rightarrow> ident list \<Rightarrow> user option \<Rightarrow> orgEntity list \<Rightarrow> (string \<times> ident) list
     \<Rightarrow> (string \<times> ident) list io" where
  "validateOrgs env buyerKey newAdminUsers firstAdminUser [] orderOrgs = ret orderOrgs"
| "validateOrgs env buyerKey newAdminUsers firstAdminUser (e # es) orderOrgs =
     bnd (validateOneOrg env buyerKey newAdminUsers firstAdminUser e orderOrgs)
       (validateOrgs env buyerKey newAdminUsers firstAdminUser es)"

definition validateOrderOrg ::
  "env \<Rightarrow> createOrderInput \<Rightarrow> company \<Rightarrow> (string \<times> ident) list io" where
  "validateOrderOrg env input buyer =
     bnd (parsePreferences (Some buyer)) (\<lambda>buyerPreferences.
     case buyerPreferences of
       None \<Rightarrow> throw (TypeError ''companyAutoCreateContactList'')
     | Some p \<Rightarrow>
         (case companyAutoCreateContactList p of
            [] \<Rightarrow> throw (TypeError ''load'')
          | firstAdminUserId # _ \<Rightarrow>
              validateOrgs env (company_id buyer) (companyAutoCreateContactList p)
                (findUser env firstAdminUserId) (orgEntities input) []))"


text \<open>
  The keys of \<^verbatim>\<open>{...shippingInformation, ...fields}\<close> (create.ts, line 185); the order
  among the named keys of the input is the client's, and the embedding fixes one.
\<close>

definition createFieldKeys :: "createOrderInput \<Rightarrow> string list" where
  "createFieldKeys input =
     map fst (ship_fields (co_shippingInformation input))
     @ (case ship_extraData (co_shippingInformation input) of
          None \<Rightarrow> [] | Some x \<Rightarrow> [''extraData''])
     @ [''buyerId'']
     @ (case co_supplierId input of None \<Rightarrow> [] | Some x \<Rightarrow> [''supplierId''])
     @ (case co_forwarderId input of None \<Rightarrow> [] | Some x \<Rightarrow> [''forwarderId''])
     @ (case co_consigneeId input of None \<Rightarrow> [] | Some x \<Rightarrow> [''consigneeId''])
     @ (case co_agentId input of None \<Rightarrow> [] | Some x \<Rightarrow> [''agentId''])
     @ (case co_brokerId input of None \<Rightarrow> [] | Some x \<Rightarrow> [''brokerId''])
     @ (case co_truckerId input of None \<Rightarrow> [] | Some x \<Rightarrow> [''truckerId''])
     @ (case co_supplier input of None \<Rightarrow> [] | Some x \<Rightarrow> [''supplier''])
     @ (case co_forwarder input of None \<Rightarrow> [] | Some x \<Rightarrow> [''forwarder''])
     @ (case co_consignee input of None \<Rightarrow> [] | Some x \<Rightarrow> [''consignee''])
     @ (case co_agent input of None \<Rightarrow> [] | Some x \<Rightarrow> [''agent''])
     @ (case co_broker input of None \<Rightarrow> [] | Some x \<Rightarrow> [''broker''])
     @ (case co_trucker input of None \<Rightarrow> [] | Some x \<Rightarrow> [''trucker''])
     @ (case co_purchaseOrderNumber input of None \<Rightarrow> [] | Some x \<Rightarrow> [''purchaseOrderNumber''])
     @ map fst (filter (\<lambda>(k, v). map_of (ship_fields (co_shippingInformation input)) k = None)
                  (co_fields input))"

text \<open>Lines 185-196: \<^verbatim>\<open>poPrefs[key]\<close> is a TypeError when there are no preferences.\<close>

fun checkFieldsCreatable :: "env \<Rightarrow> preferences_po option \<Rightarrow> string list \<Rightarrow> unit io" where
  "checkFieldsCreatable env poPrefs [] = ret ()"
| "checkFieldsCreatable env poPrefs (k # ks) =
     (if isEditOrderKey env k
      then (case poPrefs of
              None \<Rightarrow> throw (TypeError k)
            | Some p \<Rightarrow>
                if \<not> createFieldsEditable p k \<and> \<not> isIntegration env
                then throw (ForbiddenError (''User does not have permission to create field '' @ k))
                else checkFieldsCreatable env poPrefs ks)
      else checkFieldsCreatable env poPrefs ks)"

definition keyField :: "string \<Rightarrow> ident option \<Rightarrow> fields" where
  "keyField k v = (case v of None \<Rightarrow> [] | Some x \<Rightarrow> [(k, JKey x)])"

text \<open>
  What \<^verbatim>\<open>createOrder\<close> has worked out when it opens its transaction (create.ts,
  lines 103-222).
\<close>

record prepared_order =
  po_orgId :: ident
  po_user :: "user option"
  po_participant :: "user option"
  po_preferences :: "preferences option"
  po_buyerPreferences :: "buyer_preferences option"
  po_purchaseOrderNumber :: "jv option"
  po_orderOrgs :: "(string \<times> ident) list"
  po_autoCreated :: bool
  po_shippingInformation :: shippingInformationInput
  po_termsAndConditions :: "jv option"

definition firstTruthy :: "jv option \<Rightarrow> jv option \<Rightarrow> jv option" where
  "firstTruthy a b = (case a of Some v \<Rightarrow> if truthy v then Some v else b | None \<Rightarrow> b)"

text \<open>Lines 103-222 of \<^verbatim>\<open>createOrder\<close>: everything before the transaction.\<close>

definition createOrderPrepare :: "env \<Rightarrow> createOrderInput \<Rightarrow> prepared_order io" where
  "createOrderPrepare env input =
     (let u = findUser env (co_userId input);
          buyer = findCompany env (co_buyerId input);
          participant = findUser env (co_participantId input)
      in
      bnd (parsePreferences buyer) (\<lambda>buyerPreferences.
      bnd (case buyer of
             None \<Rightarrow> throw SyntaxError
           | Some b \<Rightarrow>
               if isIntegration env then ret (company_orgId b)
               else if u = None
                       \<or> map_option user_orgId u \<noteq> Some (ctx_orgId env)
                       \<or> \<not> isBuyerRole env (ctx_orgId env)
                       \<or> ((case buyerPreferences of
                               None \<Rightarrow> False
                             | Some p \<Rightarrow> allowExternalCreation p = Some False)
                            \<and> company_orgId b \<noteq> ctx_orgId env)
               then throw (ForbiddenError
                      ''User does not have permission to create an order for this org.'')
               else if participant = None
               then throw (ForbiddenError ''Invalid participant provided'')
               else ret (ctx_orgId env)) (\<lambda>orgId.
      let prefs = getPreferences env (co_userId input) orgId (co_buyerId input);
          poPrefs = (case prefs of None \<Rightarrow> None | Some p \<Rightarrow> purchaseOrder p);
          shipping = co_shippingInformation input;
          purchaseOrderNumber =
            (case co_purchaseOrderNumber input of
               Some n \<Rightarrow> Some (JString n)
             | None \<Rightarrow> map_of (ship_fields shipping) ''purchaseOrderNumber'');
          isOrgAutoCreateEnabled =
            (isIntegration env
             \<and> (case buyerPreferences of
                   None \<Rightarrow> False
                 | Some p \<Rightarrow> enableCompanyAutoCreate p \<and> companyAutoCreateContactList p \<noteq> []))
      in
      bnd (if isOrgAutoCreateEnabled
           then (case buyer of
                   None \<Rightarrow> throw SyntaxError
                 | Some b \<Rightarrow> validateOrderOrg env input b)
           else ret []) (\<lambda>createdOrgs.
      bnd (checkFieldsCreatable env poPrefs (createFieldKeys input)) (\<lambda>_.
      let terms = firstTruthy (map_of (ship_fields shipping) ''termsAndConditions'')
                    (case prefs of None \<Rightarrow> None | Some p \<Rightarrow> termsAndConditions p)
      in
      bnd (if \<not> hasDestination shipping \<and> isIntegration env
              \<and> (case prefs of None \<Rightarrow> False | Some p \<Rightarrow> enableLocationAutoCreate p)
           then (case (co_shipToLocation input, buyer) of
                   (Some loc, Some b) \<Rightarrow>
                     (let loc' = loc\<lparr>location_orgId := Some (company_orgId b)\<rparr> in
                      bnd (emit (CreateOrGetLocation loc')) (\<lambda>_.
                      ret (shipping\<lparr>ship_fields :=
                             setField ''destinationId'' (JKey (locationIdFor env loc'))
                               (ship_fields shipping)\<rparr>)))
                 | _ \<Rightarrow> ret shipping)
           else ret shipping) (\<lambda>shipping'.
      ret \<lparr> po_orgId = orgId, po_user = u, po_participant = participant,
            po_preferences = prefs, po_buyerPreferences = buyerPreferences,
            po_purchaseOrderNumber = purchaseOrderNumber,
            po_orderOrgs = createdOrgs, po_autoCreated = isOrgAutoCreateEnabled,
            po_shippingInformation = shipping', po_termsAndConditions = terms \<rparr>))))))"

text \<open>
  The order insert of lines 227-253. The row's named columns are typed; the others are
  the spread of the organization ids, the shipping information and the generated
  values. An organization created on the way replaces the id of the input.
\<close>

definition orgIdOrCreated :: "prepared_order \<Rightarrow> string \<Rightarrow> ident option \<Rightarrow> ident option" where
  "orgIdOrCreated p k given =
     (case map_of (po_orderOrgs p) k of Some org \<Rightarrow> Some org | None \<Rightarrow> given)"

definition newOrderRow :: "env \<Rightarrow> createOrderInput \<Rightarrow> prepared_order \<Rightarrow> ident \<Rightarrow> order" where
  "newOrderRow env input p key =
     \<lparr> order_id = key,
       buyerId = co_buyerId input,
       supplierId = orgIdOrCreated p ''supplierId'' (co_supplierId input),
       orderStatusId = getStatusId env ''Issued'' ''OrderStatus'',
       isReadyForBooking = False,
       columns =
         spread
           (spread
              ([(''_transNumber'', JString []), (''orgId'', JKey (po_orgId p))]
               @ keyField ''forwarderId'' (orgIdOrCreated p ''forwarderId'' (co_forwarderId input))
               @ keyField ''consigneeId'' (orgIdOrCreated p ''consigneeId'' (co_consigneeId input))
               @ keyField ''agentId'' (orgIdOrCreated p ''agentId'' (co_agentId input))
               @ keyField ''brokerId'' (orgIdOrCreated p ''brokerId'' (co_brokerId input))
               @ keyField ''truckerId'' (orgIdOrCreated p ''truckerId'' (co_truckerId input)))
              (ship_fields (po_shippingInformation p)))
           ((case po_termsAndConditions p of None \<Rightarrow> [] | Some v \<Rightarrow> [(''termsAndConditions'', v)])
            @ [(''createdOn'', JNumber (int (now env))),
               (''lastUpdatedDate'', JNumber (int (now env)))]
            @ (case po_purchaseOrderNumber p of
                 None \<Rightarrow> [] | Some v \<Rightarrow> [(''purchaseOrderNumber'', v)])) \<rparr>"

definition insertOrder :: "env \<Rightarrow> createOrderInput \<Rightarrow> prepared_order \<Rightarrow> ident io" where
  "insertOrder env input p =
     (\<lambda>s. if rejects env OrderTable
           then (Inl (ApolloError ''Failed to create order''), s)
           else (Inr (nextOid s),
                 s\<lparr>db := (db s)\<lparr>orders := orders (db s) @ [newOrderRow env input p (nextOid s)]\<rparr>,
                   nextOid := Suc (nextOid s)\<rparr>))"

text \<open>
  The body of the \<^verbatim>\<open>try\<close> block (lines 226-271). \<^verbatim>\<open>createExtraData\<close> and
  \<^verbatim>\<open>createOrderMilestones\<close> are not under \<^verbatim>\<open>src/\<close>: they write their rows through
  the runner they are given.
\<close>

definition createOrderTry :: "env \<Rightarrow> createOrderInput \<Rightarrow> prepared_order \<Rightarrow> nat \<Rightarrow> ident io" where
  "createOrderTry env input p qr =
     bnd (insertOrder env input p) (\<lambda>orderId.
     bnd (createOrderParticipants env (po_orgId p) (co_supplierId input)
            [co_consigneeId input, co_forwarderId input] orderId) (\<lambda>_.
     bnd (case co_extraData input of
            Some (x # xs) \<Rightarrow>
              modifyDb (\<lambda>t. t\<lparr>extraDataRows := extraDataRows t
                                 @ map (\<lambda>d. (orderId, d)) (x # xs)\<rparr>)
          | _ \<Rightarrow> ret ()) (\<lambda>_.
     bnd (modifyDb (\<lambda>t. t\<lparr>milestoneRows := milestoneRows t @ [orderId]\<rparr>)) (\<lambda>_.
     bnd (commitTransaction qr) (\<lambda>_.
     bnd (release qr) (\<lambda>_.
     ret orderId))))))"

text \<open>Lines 223-278: the transaction with its \<^verbatim>\<open>catch\<close> block.\<close>

definition createOrderTransaction :: "env \<Rightarrow> createOrderInput \<Rightarrow> prepared_order \<Rightarrow> ident io" where
  "createOrderTransaction env input p =
     bnd queryRunnerStartTransaction (\<lambda>qr.
     catch (createOrderTry env input p qr) (\<lambda>e.
       bnd (\<lambda>s. if isTransactionActive (runners s ! qr)
                 then rollbackTransaction qr s else (Inr (), s)) (\<lambda>_.
       bnd (release qr) (\<lambda>_.
       throw (CreateOrderError e)))))"

text \<open>
  Lines 280-348: what follows the commit. The collaborators called here write to the
  messaging store or send notifications; the line-item insert goes through the
  line-item utility.
\<close>

definition createOrderFinish ::
  "env \<Rightarrow> createOrderInput \<Rightarrow> prepared_order \<Rightarrow> ident \<Rightarrow> order io" where
  "createOrderFinish env input p orderId =
     bnd (whenM (case po_purchaseOrderNumber p of None \<Rightarrow> True | Some v \<Rightarrow> \<not> truthy v)
            (emit (GenAndUpdatePONumber (po_orgId p) orderId))) (\<lambda>_.
     bnd (case co_lineItems input of
            Some items \<Rightarrow>
              bnd (runLineItemCalls env
                     [AddLineItemsToOrder items orderId (co_supplierId input) (po_orgId p)])
                (\<lambda>_. ret ())
          | None \<Rightarrow> ret ()) (\<lambda>_.
     bnd (emit (OrderCreatedMessage orderId (co_userId input) [co_participantId input])) (\<lambda>_.
     bnd (loadOrder orderId) (\<lambda>createdOrder.
     bnd (whenM (\<not> hasDestination (po_shippingInformation p) \<and> isIntegration env
                 \<and> (case po_preferences p of
                       None \<Rightarrow> False | Some x \<Rightarrow> enableLocationAutoCreate x))
            (emit (NotifyOrderMissingLocation orderId
                     (case po_preferences p of
                        None \<Rightarrow> [] | Some x \<Rightarrow> locationAutoCreateContactList x)))) (\<lambda>_.
     bnd (whenM (po_autoCreated p) (emit (NotifyOrderOrgsAutoCreation orderId))) (\<lambda>_.
     bnd (emit (NotifyOrderAssignment orderId)) (\<lambda>_.
     bnd (emit (CreatePOMessageThread (co_userId input) orderId)) (\<lambda>_.
     ret createdOrder))))))))"

text \<open>\<^verbatim>\<open>createOrder\<close> (create.ts, lines 98-349).\<close>

definition createOrder :: "env \<Rightarrow> createOrderInput \<Rightarrow> order io" where
  "createOrder env input =
     bnd (createOrderPrepare env input) (\<lambda>p.
     bnd (createOrderTransaction env input p) (\<lambda>orderId.
     createOrderFinish env input p orderId))"

section \<open>Notions used to state the properties\<close>

subsection \<open>What the guard counts\<close>

text \<open>
  The two counters of \<^verbatim>\<open>isAllowedToEditParticipants\<close> in closed form. \<open>selfAffected\<close>
  counts the current required approvers that are the acting user. A current required
  approver other than the acting user adds to \<open>controllerMutations\<close> one for every
  proposed entry of the same user whose flag differs, and one when no proposed entry
  is of that user; every self-affected entry adds one as well.
\<close>

definition selfAffected :: "'a participant_pick_scheme list \<Rightarrow> ident \<Rightarrow> nat" where
  "selfAffected currentParticipants thisUserId =
     length (filter (\<lambda>c. approvalIsRequired c \<and> userId c = thisUserId) currentParticipants)"

definition controllerChange ::
  "'a participant_pick_scheme \<Rightarrow> 'b participant_pick_scheme list \<Rightarrow> nat" where
  "controllerChange c participants =
     length (filter (\<lambda>p. userId p = userId c \<and> approvalIsRequired p \<noteq> approvalIsRequired c)
               participants)
     + (if userId c \<in> userId ` set participants then 0 else 1)"

definition controllerMutations ::
  "'a participant_pick_scheme list \<Rightarrow> 'b participant_pick_scheme list \<Rightarrow> ident \<Rightarrow> nat" where
  "controllerMutations currentParticipants participants thisUserId =
     selfAffected currentParticipants thisUserId
     + sum_list (map (\<lambda>c. controllerChange c participants)
         (filter (\<lambda>c. approvalIsRequired c \<and> userId c \<noteq> thisUserId) currentParticipants))"

text \<open>The edit in which the acting user changes only the own flag.\<close>

definition setOwnFlag ::
  "ident \<Rightarrow> bool \<Rightarrow> 'a participant_pick_scheme list \<Rightarrow> 'a participant_pick_scheme list" where
  "setOwnFlag thisUserId b currentParticipants =
     map (\<lambda>x. if userId x = thisUserId then x\<lparr>approvalIsRequired := b\<rparr> else x)
       currentParticipants"

subsection \<open>Records linked to an order\<close>

definition linkedBookingRequests :: "store \<Rightarrow> ident \<Rightarrow> booking_request list" where
  "linkedBookingRequests s orderId =
     loadMany (bookingRequests s)
       (map bookingRequestId (filter (\<lambda>f. rollup_orderId f = orderId) (fulfillmentRollups s)))"

text \<open>The links (line items that are not deleted) from the order to a record.\<close>

definition linksTo :: "store \<Rightarrow> ident \<Rightarrow> ident \<Rightarrow> pg_line_item list" where
  "linksTo s orderId key =
     filter (\<lambda>li. target_id li = key \<and> li_orderId li = Some orderId \<and> deleted_at li = None)
       (lineItemLinks s)"

definition touchedConfirmations :: "store \<Rightarrow> ident \<Rightarrow> booking_confirmation list" where
  "touchedConfirmations s orderId =
     filter (\<lambda>bc. linksTo s orderId (bc_id bc) \<noteq> [] \<and> bc_created_at bc \<noteq> bc_updated_at bc)
       (bookingConfirmations s)"

text \<open>The statuses on the links to the order's touched shipments.\<close>

definition touchedShipmentStatuses :: "store \<Rightarrow> ident \<Rightarrow> ident option list" where
  "touchedShipmentStatuses s orderId =
     concat (map (\<lambda>sh. map li_shipmentStatusId (linksTo s orderId (shipment_id sh)))
               (filter (\<lambda>sh. shipment_created_at sh \<noteq> shipment_updated_at sh) (shipments s)))"

text \<open>
  Cancellation eligibility in the words of the specification (section 4.6): a touched
  confirmation or shipment passes when it has no status or the canceled status.
\<close>

definition cancellableAsSpecified :: "store \<Rightarrow> ident \<Rightarrow> ident \<Rightarrow> ident \<Rightarrow> bool" where
  "cancellableAsSpecified s orderId bookingCanceled shipmentCanceled =
     (list_all (\<lambda>br. bookingStatusId br = Some bookingCanceled) (linkedBookingRequests s orderId)
      \<and> list_all (\<lambda>bc. bc_statusId bc = None \<or> bc_statusId bc = Some bookingCanceled)
          (touchedConfirmations s orderId)
      \<and> list_all (\<lambda>st. st = None \<or> st = Some shipmentCanceled)
          (touchedShipmentStatuses s orderId))"

text \<open>What the code requires: the canceled status itself.\<close>

definition cancellable :: "store \<Rightarrow> ident \<Rightarrow> ident \<Rightarrow> ident \<Rightarrow> bool" where
  "cancellable s orderId bookingCanceled shipmentCanceled =
     (list_all (\<lambda>br. bookingStatusId br = Some bookingCanceled) (linkedBookingRequests s orderId)
      \<and> list_all (\<lambda>bc. bc_statusId bc = Some bookingCanceled) (touchedConfirmations s orderId)
      \<and> list_all (\<lambda>st. st = Some shipmentCanceled) (touchedShipmentStatuses s orderId))"

subsection \<open>A running example\<close>

text \<open>
  One buyer organization (10) with change control enabled, three users, and one order
  (1) in Accepted status with two required approvers (users 1 and 2) and one further
  participant (user 3). The status keys are Received 1, Accepted 2, Canceled 3,
  Rejected 4, Issued 5; the change statuses are Proposed 1 and Approved 2.
\<close>

definition exampleUser :: "ident \<Rightarrow> user option" where
  "exampleUser i =
     (if i = 1 \<or> i = 2 \<or> i = 3
      then Some \<lparr>user_id = i, user_orgId = 10, user_email = ''user@example''\<rparr> else None)"

definition examplePreferences :: preferences where
  "examplePreferences =
     \<lparr> purchaseOrder = Some \<lparr> enableChangeControl = Some True, excludeChangeControl = None,
                               headerFieldsEditable = (\<lambda>k. True),
                               createFieldsEditable = (\<lambda>k. True) \<rparr>,
       termsAndConditions = None,
       enableLocationAutoCreate = False,
       locationAutoCreateContactList = [] \<rparr>"

definition exampleEnv :: env where
  "exampleEnv =
     \<lparr> ctx_userId = 1, ctx_orgId = 10, isIntegration = False, isAdminOrStaff = False,
       today = 100, now = 1000,
       findUser = exampleUser,
       findCompany = (\<lambda>i. if i = 10
                           then Some \<lparr>company_id = 10, company_orgId = 10, preferencesString = Null\<rparr>
                           else None),
       getStatusId = (\<lambda>name domain.
                        if name = ''Received'' then 1 else if name = ''Accepted'' then 2
                        else if name = ''Canceled'' then 3 else if name = ''Rejected'' then 4
                        else 5),
       getChangeStatusId = (\<lambda>name. if name = ''Proposed'' then 1 else 2),
       lookupByValue = (\<lambda>k. if k = ''BookingStatus,Canceled'' then Some 7
                            else if k = ''ShipmentStatus,Canceled'' then Some 8 else None),
       getPreferences = (\<lambda>uid orgId buyerOrgId. Some examplePreferences),
       editableWithoutConfig = False,
       isEditOrderKey = (\<lambda>k. True),
       isVisible = (\<lambda>order. True),
       isOrderEditable = (\<lambda>order u fulfillments. (True, [])),
       isUserInAssociatedCompany = (\<lambda>order u. True),
       orderReadyForBookingErrors = (\<lambda>order items. []),
       getOrderMilestoneByName = (\<lambda>name order. None),
       readyForBooking = (\<lambda>order items. True),
       generateChangeRequestDescription = (\<lambda>li shipping order. ''changes''),
       generateOrderChangeRequestLineItems = (\<lambda>li shipping order changeRequestId. []),
       lineItemUtility = (\<lambda>call items. (items, OtherResult)),
       locationIdFor = (\<lambda>loc. 50),
       rejects = (\<lambda>table. False),
       orderParticipantsRights =
         [\<lparr>participantId = 1, rights_orgId = 10, isAllowedToAcceptChangeRequest = True\<rparr>,
          \<lparr>participantId = 2, rights_orgId = 20, isAllowedToAcceptChangeRequest = False\<rparr>],
       isBuyerRole = (\<lambda>orgId. True),
       organizationIdFor = (\<lambda>d. None) \<rparr>"

definition exampleOrder :: order where
  "exampleOrder =
     \<lparr> order_id = 1, buyerId = 10, supplierId = Some 20, orderStatusId = 2,
       isReadyForBooking = True, columns = [(''destinationId'', JKey 40)] \<rparr>"

definition exampleParticipants :: "order_participant list" where
  "exampleParticipants =
     [\<lparr>userId = 1, approvalIsRequired = True, participantOid = 11, participantOrderId = 1\<rparr>,
      \<lparr>userId = 2, approvalIsRequired = True, participantOid = 12, participantOrderId = 1\<rparr>,
      \<lparr>userId = 3, approvalIsRequired = False, participantOid = 13, participantOrderId = 1\<rparr>]"

definition exampleTables :: tables where
  "exampleTables =
     \<lparr> orders = [exampleOrder], orderLineItems = [], orderParticipants = exampleParticipants,
       orderChangeRequests = [], orderChangeReviews = [], orderChangeRequestLineItems = [],
       extraDataRows = [], milestoneRows = [] \<rparr>"

definition exampleStore :: store where
  "exampleStore =
     \<lparr> db = exampleTables, runners = [], nextOid = 100, events = [],
       fulfillmentRollups = [], bookingRequests = [], lineItemLinks = [],
       bookingConfirmations = [], shipments = [] \<rparr>"

text \<open>
  Three variations of the example store for the cancellation check (the canceled booking
  status is 7): a linked booking confirmation never touched after creation; a linked
  confirmation touched after creation that has no status; a linked booking request
  that is not canceled.
\<close>

definition exampleLink :: pg_line_item where
  "exampleLink =
     \<lparr>target_id = 30, li_orderId = Some 1, li_shipmentStatusId = None, deleted_at = None\<rparr>"

definition untouchedConfirmationStore :: store where
  "untouchedConfirmationStore =
     exampleStore\<lparr> lineItemLinks := [exampleLink],
                    bookingConfirmations :=
                      [\<lparr>bc_id = 30, bc_statusId = Some 6, bc_created_at = 5, bc_updated_at = 5\<rparr>] \<rparr>"

definition touchedNoStatusStore :: store where
  "touchedNoStatusStore =
     exampleStore\<lparr> lineItemLinks := [exampleLink],
                    bookingConfirmations :=
                      [\<lparr>bc_id = 30, bc_statusId = None, bc_created_at = 5, bc_updated_at = 6\<rparr>] \<rparr>"

definition activeRequestStore :: store where
  "activeRequestStore =
     exampleStore\<lparr> fulfillmentRollups := [\<lparr>rollup_orderId = 1, bookingRequestId = 60\<rparr>],
                    bookingRequests := [\<lparr>bookingRequest_id = 60, bookingStatusId = Some 6\<rparr>] \<rparr>"

subsection \<open>Change requests of an order\<close>

definition numbersOf :: "store \<Rightarrow> ident \<Rightarrow> nat list" where
  "numbersOf s orderId =
     map changeRequestNumber
       (filter (\<lambda>r. cr_orderId r = orderId) (orderChangeRequests (db s)))"

text \<open>
  The change-request table as \<^verbatim>\<open>invokeChangeControl\<close> builds it: keys are unique and
  below the next key, and among the requests of one order a later key carries a greater
  number. It holds of a store without change requests, and \<^verbatim>\<open>invokeChangeControl\<close>
  keeps it.
\<close>

definition changeRequestsOrdered :: "store \<Rightarrow> bool" where
  "changeRequestsOrdered s =
     (distinct (map changeRequest_id (orderChangeRequests (db s)))
      \<and> list_all (\<lambda>r. changeRequest_id r < nextOid s) (orderChangeRequests (db s))
      \<and> list_all (\<lambda>r1. list_all (\<lambda>r2.
            cr_orderId r1 = cr_orderId r2 \<and> changeRequest_id r1 < changeRequest_id r2
              \<longrightarrow> changeRequestNumber r1 < changeRequestNumber r2)
            (orderChangeRequests (db s))) (orderChangeRequests (db s)))"

text \<open>The change request \<^verbatim>\<open>invokeChangeControl\<close> inserts, and what it leaves behind.\<close>

definition newChangeRequest ::
  "env \<Rightarrow> order \<Rightarrow> user \<Rightarrow> lineItemsInput \<Rightarrow> fields \<Rightarrow> string option \<Rightarrow> store
     \<Rightarrow> order_change_request" where
  "newChangeRequest env order author li shipping orderChangeRequestNote s =
     (let number = (case lastChangeRequest (orderChangeRequests (db s)) (order_id order) of
                      Some r \<Rightarrow> changeRequestNumber r + 1 | None \<Rightarrow> 1)
      in \<lparr> changeRequest_id = nextOid s,
           cr_orderId = order_id order,
           cr_entityId = user_id author,
           cr_changeStatusId = getChangeStatusId env ''Proposed'',
           title = (''Change Request #'', number),
           description = generateChangeRequestDescription env li shipping order,
           createdOn = today env,
           cr_note = orderChangeRequestNote,
           changeRequestNumber = number \<rparr>)"

definition notReadyUpdate :: order_update where
  "notReadyUpdate =
     \<lparr>set_orderStatusId = None, set_isReadyForBooking = Some False, set_columns = []\<rparr>"

definition afterChangeControl ::
  "env \<Rightarrow> order \<Rightarrow> user \<Rightarrow> ident \<Rightarrow> lineItemsInput \<Rightarrow> fields \<Rightarrow> string option
     \<Rightarrow> extraDataInput list option \<Rightarrow> store \<Rightarrow> store" where
  "afterChangeControl env order author orgId li shipping orderChangeRequestNote extra s =
     s\<lparr> db := (db s)
          \<lparr> orders := map (\<lambda>row. if order_id row = order_id order
                                  then row\<lparr>isReadyForBooking := False\<rparr> else row)
                        (orders (db s)),
            extraDataRows := extraDataRows (db s)
               @ map (\<lambda>x. (order_id order, x)) (case extra of None \<Rightarrow> [] | Some xs \<Rightarrow> xs),
            orderChangeRequests := orderChangeRequests (db s)
               @ [newChangeRequest env order author li shipping orderChangeRequestNote s],
            orderChangeReviews := orderChangeReviews (db s)
               @ map (reviewRow env (nextOid s) (user_id author))
                   (filter approvalIsRequired (participantsOf s (order_id order))),
            orderChangeRequestLineItems := orderChangeRequestLineItems (db s)
               @ generateOrderChangeRequestLineItems env li shipping order (nextOid s) \<rparr>,
        nextOid := Suc (nextOid s),
        events := events s
          @ [UpdateOrder (order_id order) orgId notReadyUpdate extra,
             ChangeRequestMessage (nextOid s) (user_id author)
               (map user_id (filter (\<lambda>p. user_id p \<noteq> user_id author)
                  (List.map_filter (findUser env)
                     (map userId (participantsOf s (order_id order))))))
               orgId] \<rparr>"

text \<open>
  In the example, user 1 proposes a new destination for order 1, twice: the stores
  after the first and after the second change request.
\<close>

definition exampleAuthor :: user where
  "exampleAuthor = \<lparr>user_id = 1, user_orgId = 10, user_email = ''user@example''\<rparr>"

definition firstRequestStore :: store where
  "firstRequestStore =
     afterChangeControl exampleEnv exampleOrder exampleAuthor 10 noLineItems
       [(''destinationId'', JKey 41)] None None exampleStore"

definition secondRequestStore :: store where
  "secondRequestStore =
     afterChangeControl exampleEnv exampleOrder exampleAuthor 10 noLineItems
       [(''destinationId'', JKey 42)] None None firstRequestStore"

text \<open>
  An administrator's environment in which the database turns down inserts into the
  participant table.
\<close>

definition rejectingEnv :: env where
  "rejectingEnv = exampleEnv\<lparr>isAdminOrStaff := True,
                              rejects := (\<lambda>table. table = OrderParticipantTable)\<rparr>"

subsection \<open>Frames\<close>

text \<open>An action keeps an observation \<open>g\<close> of the store when no run of it changes \<open>g\<close>.\<close>

definition keeps :: "(store \<Rightarrow> 'b) \<Rightarrow> 'a io \<Rightarrow> bool" where
  "keeps g m = (\<forall>s r s'. m s = (r, s') \<longrightarrow> g s' = g s)"

text \<open>
  What only change control and the participant and order inserts write: the change
  requests, their reviews and line items, the participants, the query runners and the
  key counter.
\<close>

definition controlled ::
  "store \<Rightarrow> order_change_request list \<times> order_change_review list
     \<times> order_change_request_line_item list \<times> order_participant list \<times> query_runner list \<times> nat"
where
  "controlled s =
     (orderChangeRequests (db s), orderChangeReviews (db s), orderChangeRequestLineItems (db s),
      orderParticipants (db s), runners s, nextOid s)"

text \<open>The store after \<^verbatim>\<open>checkReadyForBookingResolver\<close>.\<close>

definition recompute :: "env \<Rightarrow> ident \<Rightarrow> store \<Rightarrow> store" where
  "recompute env orderId s =
     (case findOrder s orderId of
        None \<Rightarrow> s
      | Some order \<Rightarrow>
          (let ready = (readyForBooking env order
                          (filter (\<lambda>l. lineItem_orderId l = orderId) (orderLineItems (db s)))
                        \<and> \<not> underChangeControl env s orderId)
           in if ready \<noteq> isReadyForBooking order
              then s\<lparr>db := updateRow orderId (\<lambda>row. row\<lparr>isReadyForBooking := ready\<rparr>) (db s)\<rparr>
              else s))"

text \<open>
  The three conditions of change control, at the fork: the purchase-order preferences
  enable it, the order is Received or Accepted, and the payload holds a shipping field
  outside the exclusion list or a line-item instruction.
\<close>

definition changeControlConditions ::
  "env \<Rightarrow> editOrderInput \<Rightarrow> preferences_po option \<Rightarrow> order \<Rightarrow> bool" where
  "changeControlConditions env input poPrefs order =
     ((case poPrefs of None \<Rightarrow> False | Some p \<Rightarrow> enableChangeControl p = Some True)
      \<and> (orderStatusId order = getStatusId env ''Received'' ''OrderStatus''
           \<or> orderStatusId order = getStatusId env ''Accepted'' ''OrderStatus'')
      \<and> (list_ex (\<lambda>(skey, v). skey \<notin> set (excludedFromChangeCtl poPrefs))
             (ship_fields (shippingOrDefault (in_shippingInformation input)))
           \<or> (case in_lineItems input of
                 Val li \<Rightarrow> present (addLineItems li) \<or> present (editLineItems li)
                           \<or> present (removeLineItems li) \<or> present (replaceLineItems li)
               | _ \<Rightarrow> False)))"

text \<open>Edits of the example order by user 1: a new destination; line items to add.\<close>

definition destinationEdit :: editOrderInput where
  "destinationEdit =
     \<lparr> in_userId = 1, in_orderId = 1, in_shipToLocation = None,
       in_shippingInformation =
         Some \<lparr>ship_fields = [(''destinationId'', JKey 41)], ship_extraData = None\<rparr>,
       in_lineItems = Absent, in_orderStatusId = None, in_orderChangeRequestNote = None,
       inputOther = [] \<rparr>"

text \<open>The example store with the order in Issued status (5).\<close>

definition issuedStore :: store where
  "issuedStore =
     exampleStore\<lparr>db := exampleTables\<lparr>orders := [exampleOrder\<lparr>orderStatusId := 5\<rparr>]\<rparr>\<rparr>"

text \<open>The store after a call of \<^verbatim>\<open>updateOrder\<close>.\<close>

definition directUpdate ::
  "ident \<Rightarrow> ident \<Rightarrow> order_update \<Rightarrow> extraDataInput list option \<Rightarrow> store \<Rightarrow> store" where
  "directUpdate orderId orgId u extra s =
     s\<lparr>db := (updateRow orderId (applyUpdate u) (db s))
               \<lparr>extraDataRows := extraDataRows (db s)
                  @ map (\<lambda>x. (orderId, x)) (case extra of None \<Rightarrow> [] | Some xs \<Rightarrow> xs)\<rparr>,
       events := events s @ [UpdateOrder orderId orgId u extra]\<rparr>"

text \<open>
  The direct edit of Path A: the update of the order's row with the rest of the input
  and all the shipping fields; the line-item calls that \<^verbatim>\<open>updateLineItems\<close> issues for a
  payload, for the order as re-read after the update; and the line items those calls
  leave. The acting user's organization is read only by a call that needs it, and such
  a call fails without a user.
\<close>

definition directFields :: "editOrderInput \<Rightarrow> shippingInformationInput \<Rightarrow> order_update" where
  "directFields input shipping =
     \<lparr>set_orderStatusId = None, set_isReadyForBooking = None,
      set_columns = spread (inputRest input) (ship_fields shipping)\<rparr>"

definition actingOrg :: "user option \<Rightarrow> ident" where
  "actingOrg u = (case u of Some x \<Rightarrow> user_orgId x | None \<Rightarrow> 0)"

definition lineItemQueries :: "order \<Rightarrow> ident \<Rightarrow> lineItemsInput \<Rightarrow> lineItemCall list" where
  "lineItemQueries order org li =
     (case replaceLineItems li of
        Val items \<Rightarrow> [ReplaceLineItemsInOrder items (order_id order) (supplierId order) org]
      | _ \<Rightarrow>
          (case addLineItems li of
             Val items \<Rightarrow> [AddLineItemsToOrder items (order_id order) (supplierId order) org]
           | _ \<Rightarrow> [])
          @ (case editLineItems li of
               Val items \<Rightarrow> [EditLineItemsInOrder items (order_id order) org]
             | _ \<Rightarrow> [])
          @ (case removeLineItems li of
               Val ids \<Rightarrow> [RemoveLineItemsFromOrder ids (order_id order)]
             | _ \<Rightarrow> []))"

definition lineItemsAfter ::
  "env \<Rightarrow> lineItemCall list \<Rightarrow> order_line_item list \<Rightarrow> order_line_item list" where
  "lineItemsAfter env calls items = fold (\<lambda>c xs. fst (lineItemUtility env c xs)) calls items"

text \<open>A payload without a line-item list issues no line-item call.\<close>

definition noLineItemLists :: "lineItemsInput js \<Rightarrow> bool" where
  "noLineItemLists lineItems =
     (case lineItems of
        Val li \<Rightarrow> \<not> truthyJs (replaceLineItems li) \<and> \<not> truthyJs (addLineItems li)
                  \<and> \<not> truthyJs (editLineItems li) \<and> \<not> truthyJs (removeLineItems li)
      | _ \<Rightarrow> False)"

text \<open>The direct update of Path C: the rest of the input and the excluded shipping fields.\<close>

definition uncontrolledUpdate ::
  "editOrderInput \<Rightarrow> preferences_po option \<Rightarrow> shippingInformationInput \<Rightarrow> order_update" where
  "uncontrolledUpdate input poPrefs shipping =
     \<lparr>set_orderStatusId = None, set_isReadyForBooking = None,
      set_columns = spread (inputRest input)
                      (shippingNoChangeCtl poPrefs (ship_fields shipping))\<rparr>"

definition participantUpdated :: "editOrderInput \<Rightarrow> shippingInformationInput \<Rightarrow> bool" where
  "participantUpdated input shipping =
     list_ex (\<lambda>k. has (spread (ship_fields shipping) (inputOther input)) k)
       associatedCompanyIdKeys"

text \<open>
  The store a change-request submission of \<^verbatim>\<open>editOrder\<close> ends in (Paths B and C):
  before the ready-for-booking recomputation, and at the end.
\<close>

definition submitted ::
  "env \<Rightarrow> editOrderInput \<Rightarrow> shippingInformationInput \<Rightarrow> user \<Rightarrow> preferences_po option
     \<Rightarrow> order \<Rightarrow> lineItemsInput \<Rightarrow> store \<Rightarrow> store" where
  "submitted env input shipping author poPrefs order li s =
     (let s1 = afterChangeControl env order author (ctx_orgId env) li (ship_fields shipping)
                 (in_orderChangeRequestNote input) (ship_extraData shipping) s
      in if shippingNoChangeCtl poPrefs (ship_fields shipping) = [] then s1
         else directUpdate (in_orderId input) (ctx_orgId env)
                (uncontrolledUpdate input poPrefs shipping) (ship_extraData shipping) s1)"

definition afterSubmission ::
  "env \<Rightarrow> editOrderInput \<Rightarrow> shippingInformationInput \<Rightarrow> user \<Rightarrow> preferences_po option
     \<Rightarrow> order \<Rightarrow> lineItemsInput \<Rightarrow> store \<Rightarrow> store" where
  "afterSubmission env input shipping author poPrefs order li s =
     (let s3 = recompute env (order_id order)
                 (submitted env input shipping author poPrefs order li s)
      in if participantUpdated input shipping
         then s3\<lparr>events := events s3 @ [EditPOMessageThread (in_orderId input)]\<rparr>
         else s3)"



text \<open>
  A line-item payload conflicts when it gives a replacement list together with an add,
  edit or remove list, or when a line item it edits is also in its remove list.
\<close>

definition lineItemsConflict :: "lineItemsInput \<Rightarrow> bool" where
  "lineItemsConflict li =
     ((truthyJs (replaceLineItems li)
         \<and> (truthyJs (addLineItems li) \<or> truthyJs (editLineItems li)
              \<or> truthyJs (removeLineItems li)))
      \<or> (case (editLineItems li, removeLineItems li) of
            (Val edits, Val removes) \<Rightarrow> list_ex (\<lambda>e. lineItemId e \<in> set removes) edits
          | _ \<Rightarrow> False))"

text \<open>
  The checks that \<^verbatim>\<open>editOrderParticipants\<close> makes before it writes (lines 30-61) pass:
  an integration passes all of them; otherwise the caller and every proposed
  participant belong to a company of the order, and the caller is admin or staff or
  the change-controller guard lets the proposal through.
\<close>

definition participantChecksPass :: "env \<Rightarrow> store \<Rightarrow> ident \<Rightarrow> participant_pick list \<Rightarrow> bool" where
  "participantChecksPass env s orderId ps =
     (isIntegration env
      \<or> (isUserInAssociatedCompany env (findOrder s orderId) (findUser env (ctx_userId env))
          \<and> list_all (\<lambda>p. isUserInAssociatedCompany env (findOrder s orderId)
                            (findUser env (userId p))) ps
          \<and> (isAdminOrStaff env
              \<or> (case findUser env (ctx_userId env) of
                    Some u \<Rightarrow> isAllowedToEditParticipants (participantsOf s orderId) ps (user_id u)
                  | None \<Rightarrow> \<not> list_ex approvalIsRequired (participantsOf s orderId)))))"

definition withoutParticipants :: "ident \<Rightarrow> store \<Rightarrow> store" where
  "withoutParticipants orderId s =
     s\<lparr>db := (db s)\<lparr>orderParticipants :=
                filter (\<lambda>p. participantOrderId p \<noteq> orderId) (orderParticipants (db s))\<rparr>,
       events := events s @ [EditPOMessageThread orderId]\<rparr>"

text \<open>
  An edit of the example order that edits line item 5 and removes it, and the example
  store with user 1 as the only required approver of order 1.
\<close>

definition conflictingItems :: lineItemsInput where
  "conflictingItems =
     noLineItems
       \<lparr>editLineItems := Val [\<lparr>lineItemId = 5, edit_fields = [(''quantity'', JNumber 2)]\<rparr>],
        removeLineItems := Val [5]\<rparr>"

definition conflictingEdit :: editOrderInput where
  "conflictingEdit =
     \<lparr> in_userId = 1, in_orderId = 1, in_shipToLocation = None,
       in_shippingInformation = None,
       in_lineItems = Val conflictingItems,
       in_orderStatusId = Some 1, in_orderChangeRequestNote = None,
       inputOther = [] \<rparr>"

definition soleApproverStore :: store where
  "soleApproverStore =
     exampleStore\<lparr>db := exampleTables\<lparr>orderParticipants :=
       [\<lparr>userId = 1, approvalIsRequired = True, participantOid = 11, participantOrderId = 1\<rparr>,
        \<lparr>userId = 3, approvalIsRequired = False, participantOid = 13, participantOrderId = 1\<rparr>]\<rparr>\<rparr>"

text \<open>A query runner is closed when its transaction has ended and it has been released.\<close>

definition runnerClosed :: "query_runner \<Rightarrow> bool" where
  "runnerClosed qr = (isReleased qr \<and> \<not> isTransactionActive qr)"

text \<open>What \<^verbatim>\<open>createOrder\<close> leaves alone once its transaction has ended.\<close>

definition created ::
  "store \<Rightarrow> order list \<times> order_participant list \<times> ident list \<times> query_runner list" where
  "created s = (orders (db s), orderParticipants (db s), milestoneRows (db s), runners s)"

text \<open>
  An order that user 1 creates for buyer 10 and supplier 20 with participant 2; the
  participant list of order 1 as it stands; and a database that turns down the insert
  of the review rows.
\<close>

definition exampleCreate :: createOrderInput where
  "exampleCreate =
     \<lparr> co_userId = 1, co_participantId = 2, co_buyerId = 10, co_supplierId = Some 20,
       co_forwarderId = None, co_consigneeId = None, co_agentId = None, co_brokerId = None,
       co_truckerId = None, co_supplier = None, co_forwarder = None, co_consignee = None,
       co_agent = None, co_broker = None, co_trucker = None,
       co_purchaseOrderNumber = Some ''PO-7'',
       co_shippingInformation = \<lparr>ship_fields = [], ship_extraData = None\<rparr>,
       co_extraData = None, co_lineItems = None, co_shipToLocation = None,
       co_fields = [] \<rparr>"

definition unchangedPicks :: "participant_pick list" where
  "unchangedPicks =
     [\<lparr>userId = 1, approvalIsRequired = True\<rparr>, \<lparr>userId = 2, approvalIsRequired = True\<rparr>,
      \<lparr>userId = 3, approvalIsRequired = False\<rparr>]"

definition reviewRejectingEnv :: env where
  "reviewRejectingEnv = exampleEnv\<lparr>rejects := (\<lambda>table. table = OrderChangeReviewTable)\<rparr>"

text \<open>What \<^verbatim>\<open>createOrder\<close> has worked out for \<open>exampleCreate\<close> when it opens its transaction.\<close>

definition examplePrepared :: prepared_order where
  "examplePrepared =
     \<lparr> po_orgId = 10, po_user = exampleUser 1, po_participant = exampleUser 2,
       po_preferences = Some examplePreferences, po_buyerPreferences = None,
       po_purchaseOrderNumber = Some (JString ''PO-7''), po_orderOrgs = [],
       po_autoCreated = False,
       po_shippingInformation = \<lparr>ship_fields = [], ship_extraData = None\<rparr>,
       po_termsAndConditions = None \<rparr>"

text \<open>The rows that an insert of the picks \<open>ps\<close> for an order stores, from the key \<open>k\<close> on.\<close>

definition newParticipantRows ::
  "ident \<Rightarrow> participant_pick list \<Rightarrow> nat \<Rightarrow> order_participant list" where
  "newParticipantRows orderId ps k =
     map (\<lambda>(p, i). \<lparr> userId = userId p, approvalIsRequired = approvalIsRequired p,
                     participantOid = i, participantOrderId = orderId \<rparr>)
       (zip ps [k ..< k + length ps])"

text \<open>
  A proposal that lists user 1 twice as required approver, and the participants of
  order 1 once it is stored (the keys are the next two of the example store).
\<close>

definition duplicatePicks :: "participant_pick list" where
  "duplicatePicks =
     [\<lparr>userId = 1, approvalIsRequired = True\<rparr>, \<lparr>userId = 1, approvalIsRequired = True\<rparr>]"

definition duplicateRows :: "order_participant list" where
  "duplicateRows =
     [\<lparr>userId = 1, approvalIsRequired = True, participantOid = 100, participantOrderId = 1\<rparr>,
      \<lparr>userId = 1, approvalIsRequired = True, participantOid = 101, participantOrderId = 1\<rparr>]"

section \<open>Properties\<close>

subsection \<open>Reasoning about effects\<close>

lemma bnd_Inr:
  "bnd m f s = (Inr y, s') \<longleftrightarrow> (\<exists>x s1. m s = (Inr x, s1) \<and> f x s1 = (Inr y, s'))"
  by (auto simp: bnd_def split: prod.splits sum.splits)

lemma bnd_Inl:
  "bnd m f s = (Inl e, s') \<longleftrightarrow>
     (m s = (Inl e, s') \<or> (\<exists>x s1. m s = (Inr x, s1) \<and> f x s1 = (Inl e, s')))"
  by (auto simp: bnd_def split: prod.splits sum.splits)

lemma bnd_cases:
  assumes "bnd m f s = (r, s')"
  obtains (fail) e where "m s = (Inl e, s')" "r = Inl e"
        | (ok) x s1 where "m s = (Inr x, s1)" "f x s1 = (r, s')"
  using assms by (auto simp: bnd_def split: prod.splits sum.splits)

lemma ret_eq [simp]: "ret x s = (r, s') \<longleftrightarrow> r = Inr x \<and> s' = s"
  by (auto simp: ret_def)

lemma throw_eq [simp]: "throw e s = (r, s') \<longleftrightarrow> r = Inl e \<and> s' = s"
  by (auto simp: throw_def)

lemma readStore_eq [simp]: "readStore f s = (r, s') \<longleftrightarrow> r = Inr (f s) \<and> s' = s"
  by (auto simp: readStore_def)

lemma emit_eq [simp]:
  "emit e s = (r, s') \<longleftrightarrow> r = Inr () \<and> s' = s\<lparr>events := events s @ [e]\<rparr>"
  by (auto simp: emit_def)

lemma modifyDb_eq [simp]:
  "modifyDb f s = (r, s') \<longleftrightarrow> r = Inr () \<and> s' = s\<lparr>db := f (db s)\<rparr>"
  by (auto simp: modifyDb_def)

lemma bnd_ret_left [simp]: "bnd (ret x) f = f x"
  by (simp add: bnd_def ret_def)

lemma bnd_throw_left [simp]: "bnd (throw e) f = throw e"
  by (simp add: bnd_def throw_def)

lemma whenM_simps [simp]: "whenM True m = m" "whenM False m = ret ()"
  by (simp_all add: whenM_def)

lemma forEach_check_error:
  "forEach xs (\<lambda>x. if c x then throw e else ret ()) s = (Inl e', s') \<Longrightarrow> e' = e"
  by (induction xs arbitrary: s) (auto simp: bnd_Inl split: if_splits)

lemma forEach_check_store:
  "forEach xs (\<lambda>x. if c x then throw e else ret ()) s = (r, s') \<Longrightarrow> s' = s"
  by (induction xs arbitrary: s r) (auto elim!: bnd_cases split: if_splits)

subsection \<open>The participant authorization guard\<close>

lemma scanProposed_eq:
  "scanProposed c ps (f, n) =
     (f \<or> userId c \<in> userId ` set ps,
      n + length (filter (\<lambda>p. userId p = userId c \<and> approvalIsRequired p \<noteq> approvalIsRequired c) ps))"
  by (induction ps arbitrary: f n) auto

lemma walkCurrent_eq:
  "walkCurrent cs ps u (s, n) = (s + selfAffected cs u, n + controllerMutations cs ps u)"
proof (induction cs arbitrary: s n)
  case Nil
  show ?case by (simp add: selfAffected_def controllerMutations_def)
next
  case (Cons c cs)
  show ?case
    by (simp add: Cons.IH scanProposed_eq)
       (simp add: selfAffected_def controllerMutations_def controllerChange_def)
qed

lemma guard_decision:
  "isAllowedToEditParticipants cs ps u =
     (\<not> ((controllerMutations cs ps u > 0 \<and> selfAffected cs u = 0)
         \<or> controllerMutations cs ps u > 1))"
  by (simp add: isAllowedToEditParticipants_def walkCurrent_eq)

lemma sum_list_ge_member:
  fixes f :: "'a \<Rightarrow> nat"
  shows "x \<in> set xs \<Longrightarrow> f x \<le> sum_list (map f xs)"
  by (induction xs) auto

lemma guard_rejects_removed_controller:
  assumes "c \<in> set cs" "approvalIsRequired c" "userId c \<noteq> u" "userId c \<notin> userId ` set ps"
  shows "\<not> isAllowedToEditParticipants cs ps u"
proof -
  have m: "c \<in> set (filter (\<lambda>c. approvalIsRequired c \<and> userId c \<noteq> u) cs)"
    using assms by simp
  have "controllerChange c ps \<ge> 1" using assms(4) by (simp add: controllerChange_def)
  with sum_list_ge_member[OF m, of "\<lambda>c. controllerChange c ps"]
  have "sum_list (map (\<lambda>c. controllerChange c ps)
         (filter (\<lambda>c. approvalIsRequired c \<and> userId c \<noteq> u) cs)) \<ge> 1"
    by linarith
  then show ?thesis
    unfolding guard_decision controllerMutations_def by linarith
qed

lemma unique_by_userId:
  assumes "distinct (map userId cs)" "c \<in> set cs" "x \<in> set cs" "userId x = userId c"
  shows "x = c"
  using assms by (induction cs) (auto simp: image_iff)

lemma selfAffected_distinct:
  assumes "distinct (map userId cs)" "c \<in> set cs" "approvalIsRequired c" "userId c = u"
  shows "selfAffected cs u = 1"
proof -
  have "filter (\<lambda>x. approvalIsRequired x \<and> userId x = u) cs = filter (\<lambda>x. x = c) cs"
    using unique_by_userId[OF assms(1,2)] assms(3,4) by (intro filter_cong) auto
  moreover have "distinct cs" using assms(1) by (simp add: distinct_map)
  then have "length (filter (\<lambda>x. x = c) cs) = 1"
    using assms(2) by (induction cs) (auto simp: filter_empty_conv)
  ultimately show ?thesis by (simp add: selfAffected_def)
qed

lemma controllerChange_self_edit:
  assumes "distinct (map userId cs)" "c \<in> set cs" "userId c \<noteq> u"
  shows "controllerChange c (setOwnFlag u b cs) = 0"
proof -
  let ?g = "\<lambda>x. if userId x = u then x\<lparr>approvalIsRequired := b\<rparr> else x"
  have "?g c \<in> set (map ?g cs)" using assms(2) by simp
  then have "userId (?g c) \<in> userId ` set (map ?g cs)" by (rule imageI)
  then have in_ps: "userId c \<in> userId ` set (map ?g cs)" using assms(3) by simp
  have "\<And>x. x \<in> set cs \<Longrightarrow>
          \<not> (userId (?g x) = userId c \<and> approvalIsRequired (?g x) \<noteq> approvalIsRequired c)"
  proof -
    fix x assume x: "x \<in> set cs"
    show "\<not> (userId (?g x) = userId c \<and> approvalIsRequired (?g x) \<noteq> approvalIsRequired c)"
    proof (cases "userId x = userId c")
      case True
      then have "x = c" using unique_by_userId[OF assms(1,2) x] by simp
      then show ?thesis using assms(3) by simp
    next
      case False
      then show ?thesis by auto
    qed
  qed
  then have "filter (\<lambda>p. userId p = userId c \<and> approvalIsRequired p \<noteq> approvalIsRequired c)
               (map ?g cs) = []"
    unfolding filter_empty_conv by (metis (no_types, lifting) imageE list.set_map)
  with in_ps show ?thesis by (simp add: controllerChange_def setOwnFlag_def)
qed

lemma guard_allows_self_edit:
  assumes "distinct (map userId cs)" "c \<in> set cs" "approvalIsRequired c" "userId c = u"
  shows "isAllowedToEditParticipants cs (setOwnFlag u b cs) u"
proof -
  have "\<And>x. x \<in> set (filter (\<lambda>c. approvalIsRequired c \<and> userId c \<noteq> u) cs)
          \<Longrightarrow> controllerChange x (setOwnFlag u b cs) = 0"
    using controllerChange_self_edit[OF assms(1)] by simp
  then have "sum_list (map (\<lambda>c. controllerChange c (setOwnFlag u b cs))
         (filter (\<lambda>c. approvalIsRequired c \<and> userId c \<noteq> u) cs)) = 0"
    unfolding sum_list_eq_0_iff by (metis (no_types, lifting) imageE list.set_map)
  then show ?thesis
    using selfAffected_distinct[OF assms]
    by (simp add: guard_decision controllerMutations_def)
qed

lemma editOrderParticipants_bypass:
  assumes "isAdminOrStaff env \<or> isIntegration env"
  shows "fst (editOrderParticipants env orderId ps s)
           \<noteq> Inl (ApolloError ''Unauthorized change controller modification'')"
proof
  assume a: "fst (editOrderParticipants env orderId ps s)
           = Inl (ApolloError ''Unauthorized change controller modification'')"
  obtain s' where r: "editOrderParticipants env orderId ps s
      = (Inl (ApolloError ''Unauthorized change controller modification''), s')"
    using a by (cases "editOrderParticipants env orderId ps s") auto
  show False
    using r assms
    unfolding editOrderParticipants_def Let_def
    by (auto simp: bnd_Inl bnd_Inr insertParticipants_def deleteParticipants_def Let_def
          queryRunnerStartTransaction_def commitTransaction_def release_def
          dest: forEach_check_error split: if_splits)
qed

text \<open>
  Claim C6, amended. \<^verbatim>\<open>isAllowedToEditParticipants\<close> returns false exactly when
  controller-mutations occurred and the acting user's self-affected count is zero, or
  when more than one controller-mutation occurred. When the participants of the order
  are one row per user, a required approver who changes only the own
  \<^verbatim>\<open>approvalIsRequired\<close> flag is allowed; an edit that removes a required approver
  other than the acting user is refused; and for an admin, staff or integration caller
  \<^verbatim>\<open>editOrderParticipants\<close> never raises the guard's error.
\<close>

theorem guard_decision_rule:
  "isAllowedToEditParticipants cs ps u =
      (\<not> ((controllerMutations cs ps u > 0 \<and> selfAffected cs u = 0)
          \<or> controllerMutations cs ps u > 1))
   \<and> (distinct (map userId cs') \<and> (\<exists>c \<in> set cs'. approvalIsRequired c \<and> userId c = u)
        \<longrightarrow> isAllowedToEditParticipants cs' (setOwnFlag u b cs') u)
   \<and> ((\<exists>c \<in> set cs. approvalIsRequired c \<and> userId c \<noteq> u \<and> userId c \<notin> userId ` set ps)
        \<longrightarrow> \<not> isAllowedToEditParticipants cs ps u)
   \<and> (isAdminOrStaff env \<or> isIntegration env
        \<longrightarrow> fst (editOrderParticipants env orderId proposed s)
              \<noteq> Inl (ApolloError ''Unauthorized change controller modification''))"
  using guard_decision[of cs ps u] guard_allows_self_edit[of cs' _ u b]
    guard_rejects_removed_controller[of _ cs u ps]
    editOrderParticipants_bypass[of env orderId proposed s]
  by blast

theorem guard_decision_rule_witness:
  "distinct (map userId exampleParticipants)
   \<and> (\<exists>c \<in> set exampleParticipants. approvalIsRequired c \<and> userId c = 1)
   \<and> isAllowedToEditParticipants exampleParticipants (setOwnFlag 1 False exampleParticipants) 1
   \<and> (\<exists>c \<in> set exampleParticipants. approvalIsRequired c \<and> userId c \<noteq> 1
        \<and> userId c \<notin> userId ` set [\<lparr>userId = 1, approvalIsRequired = True\<rparr>])
   \<and> \<not> isAllowedToEditParticipants exampleParticipants [\<lparr>userId = 1, approvalIsRequired = True\<rparr>] 1
   \<and> isAdminOrStaff (exampleEnv\<lparr>isAdminOrStaff := True\<rparr>)
   \<and> fst (editOrderParticipants (exampleEnv\<lparr>isAdminOrStaff := True\<rparr>) 1 [] exampleStore)
        \<noteq> Inl (ApolloError ''Unauthorized change controller modification'')"
proof -
  have h1: "distinct (map userId exampleParticipants)
            \<and> (\<exists>c \<in> set exampleParticipants. approvalIsRequired c \<and> userId c = 1)"
    by (simp add: exampleParticipants_def)
  have h2: "\<exists>c \<in> set exampleParticipants. approvalIsRequired c \<and> userId c \<noteq> 1
              \<and> userId c \<notin> userId ` set [\<lparr>userId = 1, approvalIsRequired = True\<rparr>]"
    by (simp add: exampleParticipants_def)
  have h3: "isAdminOrStaff (exampleEnv\<lparr>isAdminOrStaff := True\<rparr>)"
    by simp
  from h1 h2 h3
    guard_decision_rule[of exampleParticipants "[\<lparr>userId = 1, approvalIsRequired = True\<rparr>]" 1
      exampleParticipants False "exampleEnv\<lparr>isAdminOrStaff := True\<rparr>" 1 "[]" exampleStore]
  show ?thesis by blast
qed

subsection \<open>Cancellation eligibility\<close>

lemma list_ex_filter: "list_ex P xs \<longleftrightarrow> filter P xs \<noteq> []"
  by (induction xs) auto

lemma status_not_canceled:
  "(sqlNotEqual st (Some c) \<or> st = None) \<longleftrightarrow> st \<noteq> Some c"
  by (cases st) (auto simp: sqlNotEqual_def)

lemma activeBookingConfirmations_iff:
  "activeBookingConfirmations s orderId c \<noteq> []
     \<longleftrightarrow> \<not> list_all (\<lambda>bc. bc_statusId bc = Some c) (touchedConfirmations s orderId)"
  unfolding activeBookingConfirmations_def touchedConfirmations_def linksTo_def
  by (auto simp: list_all_iff filter_empty_conv list_ex_iff status_not_canceled)

lemma activeShipments_iff:
  "activeShipments s orderId (Some c) \<noteq> []
     \<longleftrightarrow> \<not> list_all (\<lambda>st. st = Some c) (touchedShipmentStatuses s orderId)"
  unfolding activeShipments_def touchedShipmentStatuses_def linksTo_def
  by (auto simp: list_all_iff filter_empty_conv list_ex_iff status_not_canceled)

lemma activeRequest_iff:
  "list_ex (\<lambda>br. bookingStatusId br \<noteq> Some c) (linkedBookingRequests s orderId)
     \<longleftrightarrow> \<not> list_all (\<lambda>br. bookingStatusId br = Some c) (linkedBookingRequests s orderId)"
  by (auto simp: list_all_iff list_ex_iff)

lemma canOrderBeCancelled_eq:
  assumes "lookupByValue env ''BookingStatus,Canceled'' = Some bookingCanceled"
      and "lookupByValue env ''ShipmentStatus,Canceled'' = Some shipmentCanceled"
  shows "canOrderBeCancelled env s orderId
           = Inr (cancellable s orderId bookingCanceled shipmentCanceled)"
  using assms activeRequest_iff[of bookingCanceled s orderId]
  unfolding canOrderBeCancelled_def cancellable_def Let_def
  by (simp add: activeBookingConfirmations_iff activeShipments_iff linkedBookingRequests_def)

text \<open>
  Claim C4, amended. \<^verbatim>\<open>canOrderBeCancelled\<close> returns true if and only if every linked
  booking request is in the canceled booking status, and every linked booking
  confirmation and every link to a linked shipment, for records touched after creation,
  carries the corresponding canceled status: a touched record without a status counts
  as active. An order with a booking request in a non-canceled status is never
  cancellable, and an order whose only linked record is a booking confirmation never
  touched after creation is cancellable.
\<close>

theorem canOrderBeCancelled_iff:
  assumes "lookupByValue env ''BookingStatus,Canceled'' = Some bookingCanceled"
      and "lookupByValue env ''ShipmentStatus,Canceled'' = Some shipmentCanceled"
  shows "canOrderBeCancelled env s orderId
           = Inr (cancellable s orderId bookingCanceled shipmentCanceled)
     \<and> ((\<exists>br \<in> set (linkedBookingRequests s orderId). bookingStatusId br \<noteq> Some bookingCanceled)
          \<longrightarrow> canOrderBeCancelled env s orderId = Inr False)
     \<and> (linkedBookingRequests s orderId = [] \<and> touchedConfirmations s orderId = []
          \<and> touchedShipmentStatuses s orderId = []
          \<longrightarrow> canOrderBeCancelled env s orderId = Inr True)"
  unfolding canOrderBeCancelled_eq[OF assms]
  by (auto simp: cancellable_def list_all_iff)

lemma ex_lookup: "lookupByValue exampleEnv ''BookingStatus,Canceled'' = Some 7"
  "lookupByValue exampleEnv ''ShipmentStatus,Canceled'' = Some 8"
  by (simp_all add: exampleEnv_def)

theorem canOrderBeCancelled_iff_witness:
  "lookupByValue exampleEnv ''BookingStatus,Canceled'' = Some 7
   \<and> lookupByValue exampleEnv ''ShipmentStatus,Canceled'' = Some 8
   \<and> (\<exists>br \<in> set (linkedBookingRequests activeRequestStore 1). bookingStatusId br \<noteq> Some 7)
   \<and> canOrderBeCancelled exampleEnv activeRequestStore 1 = Inr False
   \<and> linkedBookingRequests untouchedConfirmationStore 1 = []
   \<and> touchedConfirmations untouchedConfirmationStore 1 = []
   \<and> touchedShipmentStatuses untouchedConfirmationStore 1 = []
   \<and> bookingConfirmations untouchedConfirmationStore \<noteq> []
   \<and> canOrderBeCancelled exampleEnv untouchedConfirmationStore 1 = Inr True"
proof -
  have a: "\<exists>br \<in> set (linkedBookingRequests activeRequestStore 1). bookingStatusId br \<noteq> Some 7"
    by (simp add: linkedBookingRequests_def activeRequestStore_def exampleStore_def loadMany_def)
  have b: "linkedBookingRequests untouchedConfirmationStore 1 = []
           \<and> touchedConfirmations untouchedConfirmationStore 1 = []
           \<and> touchedShipmentStatuses untouchedConfirmationStore 1 = []"
    by (simp add: linkedBookingRequests_def touchedConfirmations_def touchedShipmentStatuses_def
          untouchedConfirmationStore_def exampleStore_def loadMany_def)
  have c: "bookingConfirmations untouchedConfirmationStore \<noteq> []"
    by (simp add: untouchedConfirmationStore_def)
  from a b c ex_lookup
    canOrderBeCancelled_iff[OF ex_lookup, of activeRequestStore 1]
    canOrderBeCancelled_iff[OF ex_lookup, of untouchedConfirmationStore 1]
  show ?thesis by blast
qed

text \<open>
  The claim as stated lets a touched confirmation without a status pass; the code
  vetoes the cancellation there.
\<close>

theorem cancellation_no_status_counterexample:
  "cancellableAsSpecified touchedNoStatusStore 1 7 8
   \<and> canOrderBeCancelled exampleEnv touchedNoStatusStore 1 = Inr False"
  by (simp add: cancellableAsSpecified_def canOrderBeCancelled_def linkedBookingRequests_def
        touchedConfirmations_def touchedShipmentStatuses_def linksTo_def
        activeBookingConfirmations_def activeShipments_def sqlNotEqual_def loadMany_def
        touchedNoStatusStore_def exampleStore_def exampleEnv_def exampleLink_def)


subsection \<open>The change-control state machine\<close>

lemma updateOrder_eq [simp]:
  "updateOrder orderId orgId u extra s = (r, s') \<longleftrightarrow>
     r = Inr () \<and>
     s' = s\<lparr>db := (updateRow orderId (applyUpdate u) (db s))
                    \<lparr>extraDataRows := extraDataRows (db s)
                       @ map (\<lambda>x. (orderId, x)) (case extra of None \<Rightarrow> [] | Some xs \<Rightarrow> xs)\<rparr>,
             events := events s @ [UpdateOrder orderId orgId u extra]\<rparr>"
  by (auto simp: updateOrder_def bnd_def modifyDb_def emit_def updateRow_def)

lemma destructure_Inr [simp]:
  "destructure x s = (Inr li, s') \<longleftrightarrow> x = Val li \<and> s' = s"
  by (auto simp: destructure_def split: js.splits)

lemma destructure_Inl [simp]:
  "destructure x s = (Inl e, s') \<longleftrightarrow>
     (\<forall>li. x \<noteq> Val li) \<and> e = TypeError ''addLineItems'' \<and> s' = s"
  by (auto simp: destructure_def split: js.splits)

lemma insertChangeRequest_Inr:
  "insertChangeRequest env row s = (Inr i, s') \<longleftrightarrow>
     \<not> rejects env OrderChangeRequestTable \<and> i = nextOid s \<and>
     s' = s\<lparr>db := (db s)\<lparr>orderChangeRequests :=
                      orderChangeRequests (db s) @ [row\<lparr>changeRequest_id := nextOid s\<rparr>]\<rparr>,
             nextOid := Suc (nextOid s)\<rparr>"
  by (auto simp: insertChangeRequest_def)

lemma insertChangeRequest_Inl:
  "insertChangeRequest env row s = (Inl e, s') \<longleftrightarrow>
     rejects env OrderChangeRequestTable
     \<and> e = ForbiddenError ''Failed to create order change request'' \<and> s' = s"
  by (auto simp: insertChangeRequest_def)

lemma insertUnchecked_Inr:
  "insertUnchecked env table f s = (Inr x, s') \<longleftrightarrow>
     \<not> rejects env table \<and> s' = s\<lparr>db := f (db s)\<rparr>"
  by (auto simp: insertUnchecked_def)

lemma insertUnchecked_Inl:
  "insertUnchecked env table f s = (Inl e, s') \<longleftrightarrow>
     rejects env table \<and> e = DbError ''insert'' \<and> s' = s"
  by (auto simp: insertUnchecked_def)

lemma applyUpdate_notReady [simp]:
  "applyUpdate \<lparr>set_orderStatusId = None, set_isReadyForBooking = Some False, set_columns = []\<rparr> row
     = row\<lparr>isReadyForBooking := False\<rparr>"
  by (simp add: applyUpdate_def spread_def)

lemma invokeChangeControl_Inr:
  assumes "invokeChangeControl env order u orgId lineItems shipping orderChangeRequestNote extra s
             = (Inr x, s')"
  shows "\<exists>li author. lineItems = Val li \<and> u = Some author
           \<and> \<not> rejects env OrderChangeRequestTable
           \<and> \<not> rejects env OrderChangeReviewTable
           \<and> \<not> rejects env OrderChangeRequestLineItemTable
           \<and> s' = afterChangeControl env order author orgId li shipping orderChangeRequestNote extra s"
proof (cases u)
  case None
  with assms show ?thesis
    unfolding invokeChangeControl_def Let_def
    by (simp add: bnd_Inr)
next
  case (Some author)
  with assms show ?thesis
    unfolding invokeChangeControl_def Let_def
    by (simp add: bnd_Inr insertChangeRequest_Inr insertUnchecked_Inr)
       (auto simp: afterChangeControl_def newChangeRequest_def notReadyUpdate_def
          participantsOf_def updateRow_def Let_def)
qed
lemma invokeChangeControl_Inl:
  assumes "invokeChangeControl env order u orgId lineItems shipping orderChangeRequestNote extra s
             = (Inl e, s')"
  shows "(orderChangeRequests (db s') = orderChangeRequests (db s) \<and> nextOid s' = nextOid s)
       \<or> (\<exists>li author. lineItems = Val li \<and> u = Some author
            \<and> orderChangeRequests (db s') = orderChangeRequests (db s)
                 @ [newChangeRequest env order author li shipping orderChangeRequestNote s]
            \<and> nextOid s' = Suc (nextOid s))"
proof (cases u)
  case None
  with assms show ?thesis
    unfolding invokeChangeControl_def Let_def
    by (auto simp: bnd_Inl updateRow_def)
next
  case (Some author)
  with assms show ?thesis
    unfolding invokeChangeControl_def Let_def
    by (simp add: bnd_Inl bnd_Inr insertChangeRequest_Inr insertChangeRequest_Inl
          insertUnchecked_Inr insertUnchecked_Inl)
       (auto simp: newChangeRequest_def updateRow_def Let_def)
qed

lemma invokeChangeControl_requests:
  assumes "invokeChangeControl env order u orgId lineItems shipping orderChangeRequestNote extra s
             = (r, s')"
  shows "(orderChangeRequests (db s') = orderChangeRequests (db s) \<and> nextOid s' = nextOid s
           \<and> (\<forall>x. r \<noteq> Inr x))
       \<or> (\<exists>li author. lineItems = Val li \<and> u = Some author
            \<and> orderChangeRequests (db s') = orderChangeRequests (db s)
                 @ [newChangeRequest env order author li shipping orderChangeRequestNote s]
            \<and> nextOid s' = Suc (nextOid s))"
proof (cases r)
  case (Inl e)
  with assms invokeChangeControl_Inl[of env order u orgId lineItems shipping
      orderChangeRequestNote extra s e s']
  show ?thesis by auto
next
  case (Inr x)
  with assms invokeChangeControl_Inr[of env order u orgId lineItems shipping
      orderChangeRequestNote extra s x s']
  show ?thesis by (auto simp: afterChangeControl_def)
qed

lemma fold_latest:
  "fold (\<lambda>x best. if changeRequest_id best < changeRequest_id x then x else best) rs r
       \<in> set (r # rs)
   \<and> (\<forall>x \<in> set (r # rs). changeRequest_id x \<le> changeRequest_id
         (fold (\<lambda>x best. if changeRequest_id best < changeRequest_id x then x else best) rs r))"
proof (induction rs arbitrary: r)
  case Nil
  show ?case by simp
next
  case (Cons a rs)
  show ?case
    using Cons.IH[of "if changeRequest_id r < changeRequest_id a then a else r"]
    by (auto split: if_splits)
qed

lemma lastChangeRequest_None:
  "lastChangeRequest rows orderId = None \<longleftrightarrow> filter (\<lambda>r. cr_orderId r = orderId) rows = []"
  by (simp add: lastChangeRequest_def split: list.splits)

lemma lastChangeRequest_Some:
  assumes "lastChangeRequest rows orderId = Some m"
  shows "m \<in> set rows \<and> cr_orderId m = orderId
         \<and> (\<forall>x \<in> set rows. cr_orderId x = orderId \<longrightarrow> changeRequest_id x \<le> changeRequest_id m)"
proof -
  obtain r rs where f: "filter (\<lambda>r. cr_orderId r = orderId) rows = r # rs"
    and m: "m = fold (\<lambda>x best. if changeRequest_id best < changeRequest_id x then x else best) rs r"
    using assms by (auto simp: lastChangeRequest_def split: list.splits)
  have "m \<in> set (r # rs)" and le: "\<forall>x \<in> set (r # rs). changeRequest_id x \<le> changeRequest_id m"
    using fold_latest[of rs r] m by auto
  moreover have "set (r # rs) = {x \<in> set rows. cr_orderId x = orderId}"
    using f by (metis set_filter)
  ultimately show ?thesis by auto
qed

lemma same_key_same_row:
  assumes "distinct (map changeRequest_id rows)" "x \<in> set rows" "y \<in> set rows"
    "changeRequest_id x = changeRequest_id y"
  shows "x = y"
  using assms by (induction rows) (auto simp: image_iff)

lemma latest_has_max_number:
  assumes inv: "changeRequestsOrdered s"
      and last: "lastChangeRequest (orderChangeRequests (db s)) orderId = Some m"
  shows "numbersOf s orderId \<noteq> []
         \<and> Max (set (numbersOf s orderId)) = changeRequestNumber m"
proof -
  let ?rows = "orderChangeRequests (db s)"
  from lastChangeRequest_Some[OF last]
  have m: "m \<in> set ?rows" "cr_orderId m = orderId"
    and top: "\<forall>x \<in> set ?rows. cr_orderId x = orderId \<longrightarrow> changeRequest_id x \<le> changeRequest_id m"
    by auto
  have mem: "changeRequestNumber m \<in> set (numbersOf s orderId)"
    using m by (auto simp: numbersOf_def)
  have le: "\<And>n. n \<in> set (numbersOf s orderId) \<Longrightarrow> n \<le> changeRequestNumber m"
  proof -
    fix n assume "n \<in> set (numbersOf s orderId)"
    then obtain x where x: "x \<in> set ?rows" "cr_orderId x = orderId" "n = changeRequestNumber x"
      by (auto simp: numbersOf_def)
    show "n \<le> changeRequestNumber m"
    proof (cases "changeRequest_id x = changeRequest_id m")
      case True
      then have "x = m"
        using same_key_same_row[of ?rows x m] inv x(1) m(1)
        by (simp add: changeRequestsOrdered_def)
      then show ?thesis using x(3) by simp
    next
      case False
      then have "changeRequest_id x < changeRequest_id m" using top x(1,2) by fastforce
      then have "changeRequestNumber x < changeRequestNumber m"
        using inv x(1,2) m by (auto simp: changeRequestsOrdered_def list_all_iff)
      then show ?thesis using x(3) by simp
    qed
  qed
  have "Max (set (numbersOf s orderId)) = changeRequestNumber m"
    by (rule Max_eqI) (use mem le in auto)
  with mem show ?thesis by auto
qed

lemma newChangeRequest_number:
  assumes inv: "changeRequestsOrdered s"
  shows "changeRequestNumber (newChangeRequest env order author li shipping n s)
           = (if numbersOf s (order_id order) = [] then 1
              else Max (set (numbersOf s (order_id order))) + 1)
         \<and> (\<forall>k \<in> set (numbersOf s (order_id order)).
               k < changeRequestNumber (newChangeRequest env order author li shipping n s))"
proof (cases "lastChangeRequest (orderChangeRequests (db s)) (order_id order)")
  case None
  then have "numbersOf s (order_id order) = []"
    by (simp add: lastChangeRequest_None numbersOf_def)
  with None show ?thesis by (simp add: newChangeRequest_def)
next
  case (Some m)
  from latest_has_max_number[OF inv Some]
  have ne: "numbersOf s (order_id order) \<noteq> []"
    and mx: "Max (set (numbersOf s (order_id order))) = changeRequestNumber m" by auto
  have "\<forall>k \<in> set (numbersOf s (order_id order)). k \<le> changeRequestNumber m"
    using mx by (metis List.finite_set Max_ge)
  with Some ne mx show ?thesis by (auto simp: newChangeRequest_def)
qed

lemma ordered_after_insert:
  assumes inv: "changeRequestsOrdered s"
      and rows: "orderChangeRequests (db s') = orderChangeRequests (db s)
                   @ [newChangeRequest env order author li shipping n s]"
      and nxt: "nextOid s' = Suc (nextOid s)"
  shows "changeRequestsOrdered s'"
proof -
  let ?new = "newChangeRequest env order author li shipping n s"
  have id: "changeRequest_id ?new = nextOid s" "cr_orderId ?new = order_id order"
    by (simp_all add: newChangeRequest_def Let_def)
  have below: "\<forall>r \<in> set (orderChangeRequests (db s)). changeRequest_id r < nextOid s"
    using inv by (simp add: changeRequestsOrdered_def list_all_iff)
  have num: "\<forall>r \<in> set (orderChangeRequests (db s)). cr_orderId r = order_id order
               \<longrightarrow> changeRequestNumber r < changeRequestNumber ?new"
    using newChangeRequest_number[OF inv, of env order author li shipping n]
    by (auto simp: numbersOf_def)
  show ?thesis
    using inv below num id
    unfolding changeRequestsOrdered_def rows nxt list_all_iff
    by (auto simp: less_Suc_eq)
qed

lemma changeRequestsOrdered_cong:
  "orderChangeRequests (db s') = orderChangeRequests (db s) \<Longrightarrow> nextOid s \<le> nextOid s'
     \<Longrightarrow> changeRequestsOrdered s \<Longrightarrow> changeRequestsOrdered s'"
  unfolding changeRequestsOrdered_def list_all_iff by fastforce

text \<open>
  Claim C3. In a store whose change requests were numbered by \<^verbatim>\<open>invokeChangeControl\<close>,
  a call leaves the table so again; when it inserts a change request (it does whenever
  it returns), the request belongs to the order and its number is 1 if the order had
  none, and the greatest number among the order's requests plus 1 otherwise; the number
  is not one the order already has.
\<close>

theorem change_request_numbering:
  assumes "changeRequestsOrdered s"
      and "invokeChangeControl env order u orgId lineItems shipping orderChangeRequestNote extra s
             = (r, s')"
  shows "changeRequestsOrdered s'
       \<and> (\<forall>x. r = Inr x \<longrightarrow> orderChangeRequests (db s') \<noteq> orderChangeRequests (db s))
       \<and> (orderChangeRequests (db s') = orderChangeRequests (db s)
          \<or> (\<exists>row. orderChangeRequests (db s') = orderChangeRequests (db s) @ [row]
                \<and> cr_orderId row = order_id order
                \<and> changeRequestNumber row
                     = (if numbersOf s (order_id order) = [] then 1
                        else Max (set (numbersOf s (order_id order))) + 1)
                \<and> changeRequestNumber row \<notin> set (numbersOf s (order_id order))))"
proof -
  from invokeChangeControl_requests[OF assms(2)]
  consider (same) "orderChangeRequests (db s') = orderChangeRequests (db s)"
      "nextOid s' = nextOid s" "\<forall>x. r \<noteq> Inr x"
    | (added) li author where
      "orderChangeRequests (db s') = orderChangeRequests (db s)
         @ [newChangeRequest env order author li shipping orderChangeRequestNote s]"
      "nextOid s' = Suc (nextOid s)"
    by blast
  then show ?thesis
  proof cases
    case same
    then show ?thesis
      using changeRequestsOrdered_cong[OF same(1) _ assms(1)] by simp
  next
    case added
    let ?new = "newChangeRequest env order author li shipping orderChangeRequestNote s"
    have o: "changeRequestsOrdered s'" using ordered_after_insert[OF assms(1) added] .
    have n: "changeRequestNumber ?new
           = (if numbersOf s (order_id order) = [] then 1
              else Max (set (numbersOf s (order_id order))) + 1)"
      and fresh: "changeRequestNumber ?new \<notin> set (numbersOf s (order_id order))"
      using newChangeRequest_number[OF assms(1), of env order author li shipping
          orderChangeRequestNote] by auto
    have c: "cr_orderId ?new = order_id order" by (simp add: newChangeRequest_def Let_def)
    show ?thesis using o n fresh c added(1) by auto
  qed
qed
lemma invokeChangeControl_succeeds:
  assumes "\<not> rejects env OrderChangeRequestTable" "\<not> rejects env OrderChangeReviewTable"
    "\<not> rejects env OrderChangeRequestLineItemTable"
  shows "invokeChangeControl env order (Some author) orgId (Val li) shipping n extra s
           = (Inr (), afterChangeControl env order author orgId li shipping n extra s)"
  using assms
  unfolding invokeChangeControl_def Let_def
  by (simp add: bnd_def updateOrder_def modifyDb_def emit_def destructure_def ret_def
        readStore_def insertChangeRequest_def insertUnchecked_def afterChangeControl_def
        newChangeRequest_def notReadyUpdate_def participantsOf_def updateRow_def Let_def)

lemma example_no_rejects:
  "\<not> rejects exampleEnv OrderChangeRequestTable" "\<not> rejects exampleEnv OrderChangeReviewTable"
  "\<not> rejects exampleEnv OrderChangeRequestLineItemTable"
  by (simp_all add: exampleEnv_def)

theorem change_request_numbering_witness:
  "changeRequestsOrdered exampleStore
   \<and> invokeChangeControl exampleEnv exampleOrder (Some exampleAuthor) 10 (Val noLineItems)
        [(''destinationId'', JKey 41)] None None exampleStore = (Inr (), firstRequestStore)
   \<and> invokeChangeControl exampleEnv exampleOrder (Some exampleAuthor) 10 (Val noLineItems)
        [(''destinationId'', JKey 42)] None None firstRequestStore = (Inr (), secondRequestStore)
   \<and> changeRequestsOrdered secondRequestStore
   \<and> map changeRequestNumber (orderChangeRequests (db secondRequestStore)) = [1, 2]"
proof -
  have inv0: "changeRequestsOrdered exampleStore"
    by (simp add: changeRequestsOrdered_def exampleStore_def exampleTables_def)
  have run1: "invokeChangeControl exampleEnv exampleOrder (Some exampleAuthor) 10 (Val noLineItems)
        [(''destinationId'', JKey 41)] None None exampleStore = (Inr (), firstRequestStore)"
    unfolding firstRequestStore_def by (rule invokeChangeControl_succeeds[OF example_no_rejects])
  have run2: "invokeChangeControl exampleEnv exampleOrder (Some exampleAuthor) 10 (Val noLineItems)
        [(''destinationId'', JKey 42)] None None firstRequestStore = (Inr (), secondRequestStore)"
    unfolding secondRequestStore_def by (rule invokeChangeControl_succeeds[OF example_no_rejects])
  have inv1: "changeRequestsOrdered firstRequestStore"
    using change_request_numbering[OF inv0 run1] by simp
  have inv2: "changeRequestsOrdered secondRequestStore"
    using change_request_numbering[OF inv1 run2] by simp
  have nums: "map changeRequestNumber (orderChangeRequests (db secondRequestStore)) = [1, 2]"
    by (simp add: secondRequestStore_def firstRequestStore_def afterChangeControl_def
          newChangeRequest_def lastChangeRequest_def exampleStore_def exampleTables_def
          exampleOrder_def Let_def)
  from inv0 run1 run2 inv2 nums show ?thesis by simp
qed

text \<open>
  Claim C5. When \<^verbatim>\<open>invokeChangeControl\<close> returns, it has inserted one change request
  and, for it, one review row per participant of the order whose
  \<^verbatim>\<open>approvalIsRequired\<close> flag is true, in order: the row of the request's author has the
  Approved status and a review date, every other row the Proposed status and no date.
\<close>

theorem reviews_seeded:
  assumes "invokeChangeControl env order u orgId lineItems shipping orderChangeRequestNote extra s
             = (Inr x, s')"
  shows "\<exists>author request rows. u = Some author
     \<and> orderChangeRequests (db s') = orderChangeRequests (db s) @ [request]
     \<and> cr_entityId request = user_id author
     \<and> orderChangeReviews (db s') = orderChangeReviews (db s) @ rows
     \<and> list_all2 (\<lambda>p row. orderChangeRequestId row = changeRequest_id request
                     \<and> review_entityId row = userId p
                     \<and> (if userId p = user_id author
                        then review_changeStatusId row = getChangeStatusId env ''Approved''
                             \<and> reviewDate row \<noteq> None
                        else review_changeStatusId row = getChangeStatusId env ''Proposed''
                             \<and> reviewDate row = None))
          (filter approvalIsRequired (participantsOf s (order_id order))) rows"
proof -
  from invokeChangeControl_Inr[OF assms] obtain li author where
    u: "u = Some author" and
    s': "s' = afterChangeControl env order author orgId li shipping orderChangeRequestNote extra s"
    by blast
  let ?request = "newChangeRequest env order author li shipping orderChangeRequestNote s"
  let ?approvers = "filter approvalIsRequired (participantsOf s (order_id order))"
  let ?rows = "map (reviewRow env (nextOid s) (user_id author)) ?approvers"
  have 1: "orderChangeRequests (db s') = orderChangeRequests (db s) @ [?request]"
    and 2: "orderChangeReviews (db s') = orderChangeReviews (db s) @ ?rows"
    by (simp_all add: s' afterChangeControl_def)
  have 3: "cr_entityId ?request = user_id author" "changeRequest_id ?request = nextOid s"
    by (simp_all add: newChangeRequest_def Let_def)
  have 4: "list_all2 (\<lambda>p row. orderChangeRequestId row = changeRequest_id ?request
                     \<and> review_entityId row = userId p
                     \<and> (if userId p = user_id author
                        then review_changeStatusId row = getChangeStatusId env ''Approved''
                             \<and> reviewDate row \<noteq> None
                        else review_changeStatusId row = getChangeStatusId env ''Proposed''
                             \<and> reviewDate row = None)) ?approvers ?rows"
    by (simp add: list_all2_map2 list_all2_same reviewRow_def 3)
  from u 1 2 3(1) 4 show ?thesis by blast
qed

theorem reviews_seeded_witness:
  "invokeChangeControl exampleEnv exampleOrder (Some exampleAuthor) 10 (Val noLineItems)
        [(''destinationId'', JKey 41)] None None exampleStore = (Inr (), firstRequestStore)
   \<and> map userId (filter approvalIsRequired (participantsOf exampleStore 1)) = [1, 2]
   \<and> orderChangeReviews (db firstRequestStore)
       = [\<lparr>orderChangeRequestId = 100, review_entityId = 1, reviewDate = Some 1000,
           review_changeStatusId = 2\<rparr>,
          \<lparr>orderChangeRequestId = 100, review_entityId = 2, reviewDate = None,
           review_changeStatusId = 1\<rparr>]"
proof -
  have run1: "invokeChangeControl exampleEnv exampleOrder (Some exampleAuthor) 10 (Val noLineItems)
        [(''destinationId'', JKey 41)] None None exampleStore = (Inr (), firstRequestStore)"
    unfolding firstRequestStore_def by (rule invokeChangeControl_succeeds[OF example_no_rejects])
  have ap: "map userId (filter approvalIsRequired (participantsOf exampleStore 1)) = [1, 2]"
    by (simp add: participantsOf_def exampleStore_def exampleTables_def exampleParticipants_def)
  have rows: "orderChangeReviews (db firstRequestStore)
       = [\<lparr>orderChangeRequestId = 100, review_entityId = 1, reviewDate = Some 1000,
           review_changeStatusId = 2\<rparr>,
          \<lparr>orderChangeRequestId = 100, review_entityId = 2, reviewDate = None,
           review_changeStatusId = 1\<rparr>]"
    by (simp add: firstRequestStore_def afterChangeControl_def participantsOf_def reviewRow_def
          exampleStore_def exampleTables_def exampleParticipants_def exampleOrder_def
          exampleAuthor_def exampleEnv_def)
  from reviews_seeded[OF run1] run1 ap rows show ?thesis by simp
qed

subsection \<open>Replacing the participants of an order\<close>

lemma bnd_readStore [simp]: "bnd (readStore f) k s = k (f s) s"
  by (simp add: bnd_def readStore_def)

lemma bnd_emit [simp]: "bnd (emit e) k s = k () (s\<lparr>events := events s @ [e]\<rparr>)"
  by (simp add: bnd_def emit_def)

lemma bnd_modifyDb [simp]: "bnd (modifyDb f) k s = k () (s\<lparr>db := f (db s)\<rparr>)"
  by (simp add: bnd_def modifyDb_def)

lemma bnd_start [simp]:
  "bnd queryRunnerStartTransaction k s =
     k (length (runners s))
       (s\<lparr>runners := runners s @
             [\<lparr>isTransactionActive = True, isReleased = False, snapshot = db s\<rparr>]\<rparr>)"
  by (simp add: bnd_def queryRunnerStartTransaction_def)

lemma bnd_commit [simp]:
  "bnd (commitTransaction qr) k s =
     k () (s\<lparr>runners := (runners s)[qr := (runners s ! qr)\<lparr>isTransactionActive := False\<rparr>]\<rparr>)"
  by (simp add: bnd_def commitTransaction_def)

lemma bnd_release [simp]:
  "bnd (release qr) k s =
     k () (s\<lparr>runners := (runners s)[qr := (runners s ! qr)\<lparr>isReleased := True\<rparr>]\<rparr>)"
  by (simp add: bnd_def release_def)

lemma bnd_rollback [simp]:
  "bnd (rollbackTransaction qr) k s =
     k () (s\<lparr>db := snapshot (runners s ! qr),
             runners := (runners s)[qr := (runners s ! qr)\<lparr>isTransactionActive := False\<rparr>]\<rparr>)"
  by (simp add: bnd_def rollbackTransaction_def)

lemma bnd_deleteParticipants [simp]:
  "bnd (deleteParticipants orderId) k s =
     k () (s\<lparr>db := (db s)\<lparr>orderParticipants :=
                    filter (\<lambda>p. participantOrderId p \<noteq> orderId) (orderParticipants (db s))\<rparr>\<rparr>)"
  by (simp add: deleteParticipants_def)

lemma insertParticipants_Inl:
  "insertParticipants env failure orderId ps s = (Inl e, s') \<longleftrightarrow>
     (rejects env OrderParticipantTable \<or> ps = []) \<and> e = failure \<and> s' = s"
  by (auto simp: insertParticipants_def Let_def)

lemma insertParticipants_Inr:
  "insertParticipants env failure orderId ps s = (Inr ids, s') \<longleftrightarrow>
     \<not> rejects env OrderParticipantTable \<and> ps \<noteq> []
     \<and> ids = [nextOid s ..< nextOid s + length ps]
     \<and> s' = s\<lparr>db := (db s)\<lparr>orderParticipants := orderParticipants (db s)
                  @ map (\<lambda>(p, i). \<lparr> userId = userId p,
                                      approvalIsRequired = approvalIsRequired p,
                                      participantOid = i,
                                      participantOrderId = orderId \<rparr>)
                      (zip ps [nextOid s ..< nextOid s + length ps])\<rparr>,
               nextOid := nextOid s + length ps\<rparr>"
  by (auto simp: insertParticipants_def Let_def)

lemma guardParticipants_store:
  "guardParticipants cur ps u s = (r, s') \<Longrightarrow>
     s' = s \<and> r \<noteq> Inl (ApolloError ''Failed to create participants'')"
  by (auto simp: guardParticipants_def split: option.splits if_splits)

text \<open>The part of \<^verbatim>\<open>editOrderParticipants\<close> after the guard (lines 63-97).\<close>

lemma replace_outcome:
  assumes "bnd (deleteParticipants orderId) (\<lambda>_.
     if length participants < 1
     then bnd (emit (EditPOMessageThread orderId)) (\<lambda>_. ret [])
     else
     bnd queryRunnerStartTransaction (\<lambda>qr.
     bnd (insertParticipants env (ApolloError ''Failed to create participants'') orderId
            participants) (\<lambda>participantIds.
     bnd (commitTransaction qr) (\<lambda>_.
     bnd (release qr) (\<lambda>_.
     bnd (emit (EditPOMessageThread orderId)) (\<lambda>_.
     readStore (\<lambda>s. filter (\<lambda>p. participantOid p \<in> set participantIds)
                       (orderParticipants (db s))))))))) s = (r, s')"
  shows "(participants = [] \<and> r = Inr []
           \<and> s' = s\<lparr>db := (db s)\<lparr>orderParticipants :=
                      filter (\<lambda>p. participantOrderId p \<noteq> orderId) (orderParticipants (db s))\<rparr>,
                    events := events s @ [EditPOMessageThread orderId]\<rparr>)
       \<or> (participants \<noteq> [] \<and> r = Inl (ApolloError ''Failed to create participants'')
           \<and> rejects env OrderParticipantTable
           \<and> s' = s\<lparr>db := (db s)\<lparr>orderParticipants :=
                      filter (\<lambda>p. participantOrderId p \<noteq> orderId) (orderParticipants (db s))\<rparr>,
                    runners := runners s @
                      [\<lparr>isTransactionActive = True, isReleased = False,
                        snapshot = (db s)\<lparr>orderParticipants :=
                          filter (\<lambda>p. participantOrderId p \<noteq> orderId)
                            (orderParticipants (db s))\<rparr>\<rparr>]\<rparr>)
       \<or> (participants \<noteq> [] \<and> \<not> rejects env OrderParticipantTable \<and> (\<exists>rows. r = Inr rows)
           \<and> s' = s\<lparr>db := (db s)\<lparr>orderParticipants :=
                      filter (\<lambda>p. participantOrderId p \<noteq> orderId) (orderParticipants (db s))
                      @ map (\<lambda>(p, i). \<lparr> userId = userId p,
                                      approvalIsRequired = approvalIsRequired p,
                                      participantOid = i,
                                      participantOrderId = orderId \<rparr>)
                          (zip participants [nextOid s ..< nextOid s + length participants])\<rparr>,
                    runners := runners s @
                      [\<lparr>isTransactionActive = False, isReleased = True,
                        snapshot = (db s)\<lparr>orderParticipants :=
                          filter (\<lambda>p. participantOrderId p \<noteq> orderId)
                            (orderParticipants (db s))\<rparr>\<rparr>],
                    nextOid := nextOid s + length participants,
                    events := events s @ [EditPOMessageThread orderId]\<rparr>)"
proof (cases "participants = []")
  case True
  with assms show ?thesis by auto
next
  case False
  show ?thesis
  proof (cases r)
    case (Inl e)
    with assms False show ?thesis
      by (auto simp: bnd_Inl insertParticipants_Inl insertParticipants_Inr)
  next
    case (Inr rows)
    with assms False show ?thesis
      by (auto simp: bnd_Inr insertParticipants_Inr)
  qed
qed
lemma editOrderParticipants_outcome:
  assumes "editOrderParticipants env orderId participants s = (r, s')"
  shows "(s' = s \<and> (\<exists>e. r = Inl e \<and> e \<noteq> ApolloError ''Failed to create participants''))
       \<or> (participants = [] \<and> r = Inr []
           \<and> s' = s\<lparr>db := (db s)\<lparr>orderParticipants :=
                      filter (\<lambda>p. participantOrderId p \<noteq> orderId) (orderParticipants (db s))\<rparr>,
                    events := events s @ [EditPOMessageThread orderId]\<rparr>)
       \<or> (participants \<noteq> [] \<and> r = Inl (ApolloError ''Failed to create participants'')
           \<and> rejects env OrderParticipantTable
           \<and> s' = s\<lparr>db := (db s)\<lparr>orderParticipants :=
                      filter (\<lambda>p. participantOrderId p \<noteq> orderId) (orderParticipants (db s))\<rparr>,
                    runners := runners s @
                      [\<lparr>isTransactionActive = True, isReleased = False,
                        snapshot = (db s)\<lparr>orderParticipants :=
                          filter (\<lambda>p. participantOrderId p \<noteq> orderId)
                            (orderParticipants (db s))\<rparr>\<rparr>]\<rparr>)
       \<or> (participants \<noteq> [] \<and> \<not> rejects env OrderParticipantTable \<and> (\<exists>rows. r = Inr rows)
           \<and> s' = s\<lparr>db := (db s)\<lparr>orderParticipants :=
                      filter (\<lambda>p. participantOrderId p \<noteq> orderId) (orderParticipants (db s))
                      @ map (\<lambda>(p, i). \<lparr> userId = userId p,
                                      approvalIsRequired = approvalIsRequired p,
                                      participantOid = i,
                                      participantOrderId = orderId \<rparr>)
                          (zip participants [nextOid s ..< nextOid s + length participants])\<rparr>,
                    runners := runners s @
                      [\<lparr>isTransactionActive = False, isReleased = True,
                        snapshot = (db s)\<lparr>orderParticipants :=
                          filter (\<lambda>p. participantOrderId p \<noteq> orderId)
                            (orderParticipants (db s))\<rparr>\<rparr>],
                    nextOid := nextOid s + length participants,
                    events := events s @ [EditPOMessageThread orderId]\<rparr>)"
proof -
  let ?tail = "bnd (deleteParticipants orderId) (\<lambda>_.
     if length participants < 1
     then bnd (emit (EditPOMessageThread orderId)) (\<lambda>_. ret [])
     else
     bnd queryRunnerStartTransaction (\<lambda>qr.
     bnd (insertParticipants env (ApolloError ''Failed to create participants'') orderId
            participants) (\<lambda>participantIds.
     bnd (commitTransaction qr) (\<lambda>_.
     bnd (release qr) (\<lambda>_.
     bnd (emit (EditPOMessageThread orderId)) (\<lambda>_.
     readStore (\<lambda>s. filter (\<lambda>p. participantOid p \<in> set participantIds)
                       (orderParticipants (db s)))))))))"
  let ?guard = "if \<not> isAdminOrStaff env \<and> \<not> isIntegration env
          then guardParticipants (participantsOf s orderId) participants
                 (findUser env (ctx_userId env))
          else ret True"
  let ?check = "forEach participants (\<lambda>p.
            if \<not> isUserInAssociatedCompany env (findOrder s orderId) (findUser env (userId p))
               \<and> \<not> isIntegration env
            then throw (ForbiddenError ''Unauthorized participant'') else ret ())"
  have unfolded: "editOrderParticipants env orderId participants s =
      (if \<not> isUserInAssociatedCompany env (findOrder s orderId)
                    (findUser env (ctx_userId env)) \<and> \<not> isIntegration env
       then throw (ForbiddenError ''Unauthorized participant user'')
       else bnd ?check (\<lambda>_. bnd (readStore (\<lambda>s. participantsOf s orderId))
          (\<lambda>currentParticipants.
         bnd (if \<not> isAdminOrStaff env \<and> \<not> isIntegration env
              then guardParticipants currentParticipants participants
                     (findUser env (ctx_userId env))
              else ret True) (\<lambda>allowed.
         if \<not> allowed then throw (ApolloError ''Unauthorized change controller modification'')
         else ?tail)))) s"
    by (simp only: editOrderParticipants_def Let_def bnd_readStore)
  have "s' = s \<and> (\<exists>e. r = Inl e \<and> e \<noteq> ApolloError ''Failed to create participants'')
        \<or> ?tail s = (r, s')"
  proof (cases "\<not> isUserInAssociatedCompany env (findOrder s orderId)
                    (findUser env (ctx_userId env)) \<and> \<not> isIntegration env")
    case True
    with assms show ?thesis
      unfolding unfolded by (simp only: if_True throw_eq) simp
  next
    case False
    with assms have run: "bnd ?check (\<lambda>_. bnd (readStore (\<lambda>s. participantsOf s orderId))
          (\<lambda>currentParticipants.
         bnd (if \<not> isAdminOrStaff env \<and> \<not> isIntegration env
              then guardParticipants currentParticipants participants
                     (findUser env (ctx_userId env))
              else ret True) (\<lambda>allowed.
         if \<not> allowed then throw (ApolloError ''Unauthorized change controller modification'')
         else ?tail))) s = (r, s')"
      unfolding unfolded by (simp only: if_False)
    from run show ?thesis
    proof (cases rule: bnd_cases)
      case (fail e)
      then show ?thesis
        using forEach_check_store[OF fail(1)] forEach_check_error[OF fail(1)] by simp
    next
      case (ok x s1)
      have s1: "s1 = s" using forEach_check_store[OF ok(1)] .
      from ok(2) have "bnd ?guard (\<lambda>allowed.
         if \<not> allowed then throw (ApolloError ''Unauthorized change controller modification'')
         else ?tail) s = (r, s')"
        unfolding s1 by (simp only: bnd_readStore)
      then show ?thesis
      proof (cases rule: bnd_cases)
        case (fail e)
        then have "s' = s \<and> r \<noteq> Inl (ApolloError ''Failed to create participants'')"
          by (auto dest: guardParticipants_store split: if_splits)
        with fail(2) show ?thesis by simp
      next
        case (ok allowed s2)
        then have s2: "s2 = s"
          by (auto dest: guardParticipants_store split: if_splits)
        show ?thesis
        proof (cases allowed)
          case True
          with ok(2) show ?thesis unfolding s2 by (simp only: not_True_eq_False if_False) simp
        next
          case False
          with ok(2) show ?thesis unfolding s2 by (simp only: not_False_eq_True if_True throw_eq) simp
        qed
      qed
    qed
  qed
  then show ?thesis
    using replace_outcome[of orderId participants env s r s'] by blast
qed

text \<open>
  Claim C10. Every query runner that \<^verbatim>\<open>editOrderParticipants\<close> opens starts from tables
  in which the order has no participant left: the delete comes before the transaction.
  When the insert fails, the call ends with the order's participants gone (those of
  other orders are as before); with an empty proposed list it returns the empty list
  and the order has no participant.
\<close>

theorem participant_replacement_not_atomic:
  assumes "editOrderParticipants env orderId participants s = (r, s')"
  shows "(\<forall>i. length (runners s) \<le> i \<and> i < length (runners s') \<longrightarrow>
            participantsOf (s'\<lparr>db := snapshot (runners s' ! i)\<rparr>) orderId = [])
     \<and> (r = Inl (ApolloError ''Failed to create participants'') \<longrightarrow>
          participants \<noteq> [] \<and> participantsOf s' orderId = []
          \<and> filter (\<lambda>p. participantOrderId p \<noteq> orderId) (orderParticipants (db s'))
              = filter (\<lambda>p. participantOrderId p \<noteq> orderId) (orderParticipants (db s)))
     \<and> (participants = [] \<and> (\<exists>rows. r = Inr rows) \<longrightarrow>
          r = Inr [] \<and> participantsOf s' orderId = [])"
proof -
  have nth_new: "\<And>i xs x. length xs \<le> i \<Longrightarrow> i < length (xs @ [x]) \<Longrightarrow> (xs @ [x]) ! i = x"
    by (simp add: nth_append less_Suc_eq_le)
  from editOrderParticipants_outcome[OF assms]
  consider (guard) "s' = s" "\<exists>e. r = Inl e \<and> e \<noteq> ApolloError ''Failed to create participants''"
    | (empty) "participants = []" "r = Inr []"
        "s' = s\<lparr>db := (db s)\<lparr>orderParticipants :=
                      filter (\<lambda>p. participantOrderId p \<noteq> orderId) (orderParticipants (db s))\<rparr>,
                    events := events s @ [EditPOMessageThread orderId]\<rparr>"
    | (failed) "participants \<noteq> []" "r = Inl (ApolloError ''Failed to create participants'')"
        "s' = s\<lparr>db := (db s)\<lparr>orderParticipants :=
                      filter (\<lambda>p. participantOrderId p \<noteq> orderId) (orderParticipants (db s))\<rparr>,
                    runners := runners s @
                      [\<lparr>isTransactionActive = True, isReleased = False,
                        snapshot = (db s)\<lparr>orderParticipants :=
                          filter (\<lambda>p. participantOrderId p \<noteq> orderId)
                            (orderParticipants (db s))\<rparr>\<rparr>]\<rparr>"
    | (inserted) "participants \<noteq> []" "\<exists>rows. r = Inr rows"
        "s' = s\<lparr>db := (db s)\<lparr>orderParticipants :=
                      filter (\<lambda>p. participantOrderId p \<noteq> orderId) (orderParticipants (db s))
                      @ map (\<lambda>(p, i). \<lparr> userId = userId p,
                                      approvalIsRequired = approvalIsRequired p,
                                      participantOid = i,
                                      participantOrderId = orderId \<rparr>)
                          (zip participants [nextOid s ..< nextOid s + length participants])\<rparr>,
                    runners := runners s @
                      [\<lparr>isTransactionActive = False, isReleased = True,
                        snapshot = (db s)\<lparr>orderParticipants :=
                          filter (\<lambda>p. participantOrderId p \<noteq> orderId)
                            (orderParticipants (db s))\<rparr>\<rparr>],
                    nextOid := nextOid s + length participants,
                    events := events s @ [EditPOMessageThread orderId]\<rparr>"
    by blast
  then show ?thesis
  proof cases
    case guard
    then show ?thesis by auto
  next
    case empty
    then show ?thesis by (auto simp: participantsOf_def)
  next
    case failed
    then show ?thesis by (auto simp: participantsOf_def nth_new filter_empty_conv)
  next
    case inserted
    then show ?thesis by (auto simp: participantsOf_def nth_new filter_empty_conv)
  qed
qed

lemmas exec = bnd_def ret_def throw_def catch_def whenM_def emit_def modifyDb_def readStore_def
  queryRunnerStartTransaction_def commitTransaction_def rollbackTransaction_def release_def
  loadOrder_def findOrder_def updateOrder_def updateRow_def applyUpdate_def resetOrder_def
  deleteParticipants_def insertParticipants_def participantsOf_def destructure_def
  insertChangeRequest_def insertUnchecked_def

lemma example_failed_insert:
  "fst (editOrderParticipants rejectingEnv 1 [\<lparr>userId = 3, approvalIsRequired = False\<rparr>]
          exampleStore) = Inl (ApolloError ''Failed to create participants'')"
  by (simp add: editOrderParticipants_def rejectingEnv_def exampleEnv_def exec)

theorem participant_replacement_not_atomic_witness:
  "fst (editOrderParticipants rejectingEnv 1 [\<lparr>userId = 3, approvalIsRequired = False\<rparr>]
          exampleStore) = Inl (ApolloError ''Failed to create participants'')
   \<and> length (participantsOf exampleStore 1) = 3
   \<and> participantsOf
        (snd (editOrderParticipants rejectingEnv 1 [\<lparr>userId = 3, approvalIsRequired = False\<rparr>]
                exampleStore)) 1 = []
   \<and> fst (editOrderParticipants rejectingEnv 1 [] exampleStore) = Inr []
   \<and> participantsOf (snd (editOrderParticipants rejectingEnv 1 [] exampleStore)) 1 = []"
proof -
  have before: "length (participantsOf exampleStore 1) = 3"
    by (simp add: participantsOf_def exampleStore_def exampleTables_def exampleParticipants_def)
  have emptyRun: "\<exists>rows. fst (editOrderParticipants rejectingEnv 1 [] exampleStore) = Inr rows"
    by (simp add: editOrderParticipants_def rejectingEnv_def exampleEnv_def exec)
  from participant_replacement_not_atomic[OF surjective_pairing[of
           "editOrderParticipants rejectingEnv 1 [\<lparr>userId = 3, approvalIsRequired = False\<rparr>]
              exampleStore"]]
       participant_replacement_not_atomic[OF surjective_pairing[of
           "editOrderParticipants rejectingEnv 1 [] exampleStore"]]
       example_failed_insert before emptyRun
  show ?thesis by blast
qed

text \<open>
  The claim as stated allows every required approver to change the own flag. The guard
  counts rows: user 1, the only required approver of order 1, may store a list that
  names user 1 twice, and is then refused when changing only the own flag, or nothing
  at all.
\<close>

theorem duplicate_approver_rows_counterexample:
  "\<not> isAdminOrStaff exampleEnv \<and> \<not> isIntegration exampleEnv
   \<and> isAllowedToEditParticipants (participantsOf soleApproverStore 1) duplicatePicks 1
   \<and> fst (editOrderParticipants exampleEnv 1 duplicatePicks soleApproverStore)
       = Inr duplicateRows
   \<and> participantsOf (snd (editOrderParticipants exampleEnv 1 duplicatePicks soleApproverStore)) 1
       = duplicateRows
   \<and> map approvalIsRequired duplicateRows = [True, True]
   \<and> map userId (setOwnFlag 1 False duplicateRows) = map userId duplicateRows
   \<and> map approvalIsRequired (setOwnFlag 1 False duplicateRows) = [False, False]
   \<and> \<not> isAllowedToEditParticipants duplicateRows (setOwnFlag 1 False duplicateRows) 1
   \<and> \<not> isAllowedToEditParticipants duplicateRows duplicateRows 1"
  by (simp add: editOrderParticipants_def guardParticipants_def isAllowedToEditParticipants_def
        setOwnFlag_def duplicatePicks_def duplicateRows_def soleApproverStore_def
        exec exampleEnv_def exampleStore_def exampleTables_def exampleOrder_def
        exampleUser_def Let_def)

subsection \<open>Frames of the router's steps\<close>

lemma keepsI: "(\<And>s r s'. m s = (r, s') \<Longrightarrow> g s' = g s) \<Longrightarrow> keeps g m"
  by (simp add: keeps_def)

lemma keepsD: "keeps g m \<Longrightarrow> m s = (r, s') \<Longrightarrow> g s' = g s"
  by (simp add: keeps_def)

lemma keeps_ret [simp]: "keeps g (ret x)"
  by (simp add: keeps_def)

lemma keeps_throw [simp]: "keeps g (throw e)"
  by (simp add: keeps_def)

lemma keeps_readStore [simp]: "keeps g (readStore f)"
  by (simp add: keeps_def)

lemma keeps_bnd: "keeps g m \<Longrightarrow> (\<And>x. keeps g (f x)) \<Longrightarrow> keeps g (bnd m f)"
  unfolding keeps_def by (metis bnd_cases)

lemma keeps_if: "keeps g a \<Longrightarrow> keeps g b \<Longrightarrow> keeps g (if c then a else b)"
  by simp

lemma keeps_whenM: "keeps g m \<Longrightarrow> keeps g (whenM c m)"
  by (simp add: whenM_def)

lemma keeps_forEach: "(\<And>x. keeps g (f x)) \<Longrightarrow> keeps g (forEach xs f)"
  by (induction xs) (auto intro: keeps_bnd)

lemma keeps_case_option:
  "keeps g a \<Longrightarrow> (\<And>x. keeps g (f x)) \<Longrightarrow> keeps g (case v of None \<Rightarrow> a | Some x \<Rightarrow> f x)"
  by (cases v) auto

lemma keeps_case_js:
  "keeps g a \<Longrightarrow> keeps g b \<Longrightarrow> (\<And>x. keeps g (f x))
     \<Longrightarrow> keeps g (case v of Absent \<Rightarrow> a | Null \<Rightarrow> b | Val x \<Rightarrow> f x)"
  by (cases v) auto

lemma keeps_case_prod:
  "(\<And>x y. keeps g (f x y)) \<Longrightarrow> keeps g (case v of (x, y) \<Rightarrow> f x y)"
  by (cases v) auto

lemma keeps_case_sum:
  "(\<And>x. keeps g (f x)) \<Longrightarrow> (\<And>y. keeps g (h y))
     \<Longrightarrow> keeps g (case v of Inl x \<Rightarrow> f x | Inr y \<Rightarrow> h y)"
  by (cases v) auto

lemma keeps_emit: "(\<And>s es. g (s\<lparr>events := es\<rparr>) = g s) \<Longrightarrow> keeps g (emit e)"
  by (simp add: keeps_def)

lemma keeps_modifyDb: "(\<And>s. g (s\<lparr>db := f (db s)\<rparr>) = g s) \<Longrightarrow> keeps g (modifyDb f)"
  by (simp add: keeps_def)

lemmas keeps_rules = keeps_bnd keeps_if keeps_whenM keeps_forEach keeps_case_option
  keeps_case_js keeps_case_prod keeps_case_sum

text \<open>Actions that leave the store as it is.\<close>

lemma keeps_loadOrder [simp]: "keeps g (loadOrder orderId)"
  by (auto simp: keeps_def loadOrder_def split: option.splits)

lemma keeps_destructure [simp]: "keeps g (destructure x)"
  by (auto simp: keeps_def destructure_def split: js.splits)

lemma keeps_checkLineItems [simp]: "keeps g (checkLineItems orderId lineItems)"
  unfolding checkLineItems_def
  by (intro keeps_bnd keeps_destructure keeps_if keeps_throw)
     (auto split: js.splits prod.splits)

lemma keeps_checkFieldsEditable [simp]: "keeps g (checkFieldsEditable env uid orgId buyerOrgId ks)"
  unfolding checkFieldsEditable_def Let_def
  by (auto split: option.splits prod.splits)

lemma keeps_parsePreferences [simp]: "keeps g (parsePreferences buyer)"
  unfolding parsePreferences_def by (auto split: option.splits js.splits)

lemma keeps_editOrderAuthorize [simp]: "keeps g (editOrderAuthorize env input)"
  unfolding editOrderAuthorize_def Let_def
  by (intro keeps_rules keeps_loadOrder keeps_parsePreferences keeps_throw keeps_readStore
        keeps_ret)

lemma keeps_orgIdOf [simp]: "keeps g (orgIdOf u)"
  unfolding orgIdOf_def by (auto split: option.splits)

lemma keeps_handleErrors [simp]: "keeps g (handleErrors responses)"
  unfolding handleErrors_def handleResponse_def
  by (intro keeps_forEach) (auto split: response.splits sum.splits)

text \<open>Actions that leave what change control writes.\<close>

lemma controlled_events [simp]: "controlled (s\<lparr>events := es\<rparr>) = controlled s"
  by (simp add: controlled_def)

lemma keeps_controlled_updateOrder [simp]: "keeps controlled (updateOrder orderId orgId u extra)"
  unfolding updateOrder_def
  by (intro keeps_bnd keeps_modifyDb keeps_emit) (simp_all add: controlled_def updateRow_def)

lemma keeps_controlled_resetOrder [simp]: "keeps controlled (resetOrder order)"
  unfolding resetOrder_def
  by (intro keeps_bnd keeps_modifyDb keeps_emit) (simp_all add: controlled_def updateRow_def)

lemma checkReady_eq [simp]:
  "checkReadyForBookingResolver env orderId s = (r, s') \<longleftrightarrow>
     r = Inr () \<and> s' = recompute env orderId s"
  by (auto simp: checkReadyForBookingResolver_def recompute_def Let_def split: option.splits)

lemma controlled_recompute [simp]: "controlled (recompute env orderId s) = controlled s"
  by (simp add: recompute_def controlled_def updateRow_def Let_def split: option.splits)

lemma keeps_controlled_checkReady [simp]:
  "keeps controlled (checkReadyForBookingResolver env orderId)"
  by (simp add: keeps_def)

lemma keeps_controlled_emit [simp]: "keeps controlled (emit e)"
  by (intro keeps_emit) simp

lemma keeps_controlled_runLineItemCalls [simp]: "keeps controlled (runLineItemCalls env calls)"
proof (induction calls)
  case Nil
  show ?case by simp
next
  case (Cons c cs)
  have "keeps controlled (\<lambda>s. case lineItemUtility env c (orderLineItems (db s)) of
                 (items, response) \<Rightarrow> (Inr response, s\<lparr>db := (db s)\<lparr>orderLineItems := items\<rparr>\<rparr>))"
    by (auto simp: keeps_def controlled_def split: prod.splits)
  with Cons show ?case by (auto intro!: keeps_bnd)
qed

lemma keeps_controlled_updateLineItems [simp]:
  "keeps controlled (updateLineItems env order u lineItems)"
  unfolding updateLineItems_def
  by (intro keeps_rules keeps_destructure keeps_orgIdOf keeps_ret
        keeps_controlled_runLineItemCalls keeps_handleErrors)

lemma keeps_controlled_completeMilestone [simp]:
  "keeps controlled (completeNamedMilestone env name order)"
  unfolding completeNamedMilestone_def by (auto split: option.splits)

lemma keeps_controlled_editOrderStatus [simp]:
  "keeps controlled (editOrderStatus env orgId orderId newStatusId)"
proof -
  have c: "keeps controlled (\<lambda>s. case canOrderBeCancelled env s orderId of
                       Inl e \<Rightarrow> (Inl e, s)
                     | Inr availableToCancel \<Rightarrow>
                         if \<not> availableToCancel
                         then (Inl (ForbiddenError
                            ''Cannot cancel a Purchase Order that has a booked request, booked confirmation or shipment.''), s)
                         else (Inr (), s))"
    by (auto simp: keeps_def split: sum.splits if_splits)
  show ?thesis
    unfolding editOrderStatus_def Let_def
    by (intro keeps_rules keeps_loadOrder c keeps_ret keeps_throw keeps_readStore
          keeps_controlled_resetOrder keeps_controlled_completeMilestone
          keeps_controlled_updateOrder)
qed

lemma keeps_controlled_editOrderPrepare [simp]:
  "keeps controlled (editOrderPrepare env input order shipping)"
  unfolding editOrderPrepare_def
  by (intro keeps_rules keeps_checkFieldsEditable keeps_checkLineItems keeps_ret
        keeps_controlled_editOrderStatus)

subsection \<open>The order mutation router\<close>

lemma handleUnknownLocation_nonIntegration:
  "\<not> isIntegration env \<Longrightarrow>
     handleUnknownLocation env order buyerPreferences loc shipping = ret shipping"
  by (simp add: handleUnknownLocation_def)

lemma editOrder_nonIntegration:
  assumes "\<not> isIntegration env"
  shows "editOrder env input =
     bnd (editOrderAuthorize env input) (\<lambda>(order, buyerPreferences, u).
       bnd (editOrderPrepare env input order (shippingOrDefault (in_shippingInformation input)))
         (editOrderRoute env input (shippingOrDefault (in_shippingInformation input)) u))"
  using assms unfolding editOrder_def
  by (simp add: handleUnknownLocation_nonIntegration)

lemma editOrder_reaches_route:
  assumes "\<not> isIntegration env"
      and "editOrderAuthorize env input s = (Inr (order0, buyerPreferences, u), s0)"
      and "editOrderPrepare env input order0 (shippingOrDefault (in_shippingInformation input)) s0
             = (Inr prepared, s1)"
  shows "editOrder env input s
           = editOrderRoute env input (shippingOrDefault (in_shippingInformation input)) u
               prepared s1"
  using assms(2,3) unfolding editOrder_nonIntegration[OF assms(1)]
  by (simp add: bnd_def)

lemma keeps_controlled_housekeeping [simp]:
  "keeps controlled (editOrderHousekeeping env input shipping order)"
  unfolding editOrderHousekeeping_def
  by (intro keeps_rules keeps_loadOrder keeps_controlled_checkReady keeps_controlled_emit
        keeps_ret)

text \<open>Path A.\<close>

lemma fork_direct:
  assumes "\<not> hasChangeControl env poPrefs order (ship_fields shipping)
               (lineItemsOrDefault (in_lineItems input))"
  shows "keeps controlled (editOrderFork env input shipping u poPrefs order)"
  using assms unfolding editOrderFork_def Let_def
  by (simp only: if_True not_False_eq_True)
     (intro keeps_rules keeps_controlled_updateOrder keeps_loadOrder
        keeps_controlled_updateLineItems)

lemma route_direct:
  assumes "\<not> hasChangeControl env poPrefs order (ship_fields shipping)
               (lineItemsOrDefault (in_lineItems input))"
      and "editOrderRoute env input shipping u (poPrefs, order) s = (r, s')"
  shows "controlled s' = controlled s"
proof -
  have "keeps controlled (editOrderRoute env input shipping u (poPrefs, order))"
    unfolding editOrderRoute_def prod.case
    by (intro keeps_bnd fork_direct[OF assms(1)] keeps_controlled_housekeeping)
  then show ?thesis using assms(2) by (rule keepsD)
qed

text \<open>Paths B and C: what follows \<^verbatim>\<open>invokeChangeControl\<close> keeps what it wrote.\<close>

lemma fork_change_control:
  assumes "hasChangeControl env poPrefs order (ship_fields shipping)
               (lineItemsOrDefault (in_lineItems input))"
  shows "editOrderFork env input shipping u poPrefs order =
     bnd (invokeChangeControl env order u (ctx_orgId env)
            (lineItemsOrDefault (in_lineItems input)) (ship_fields shipping)
            (in_orderChangeRequestNote input) (ship_extraData shipping)) (\<lambda>_.
       whenM (shippingNoChangeCtl poPrefs (ship_fields shipping) \<noteq> [])
         (updateOrder (in_orderId input) (ctx_orgId env)
            (uncontrolledUpdate input poPrefs shipping) (ship_extraData shipping)))"
  using assms unfolding editOrderFork_def Let_def
  by (simp add: hasOnlyChangeControl_def uncontrolledUpdate_def)

lemma route_change_control:
  assumes "hasChangeControl env poPrefs order (ship_fields shipping)
               (lineItemsOrDefault (in_lineItems input))"
      and "editOrderRoute env input shipping u (poPrefs, order) s = (r, s')"
  shows "\<exists>r1 s1. invokeChangeControl env order u (ctx_orgId env)
                     (lineItemsOrDefault (in_lineItems input)) (ship_fields shipping)
                     (in_orderChangeRequestNote input) (ship_extraData shipping) s = (r1, s1)
           \<and> controlled s' = controlled s1
           \<and> ((\<exists>x. r = Inr x) \<longrightarrow> (\<exists>y. r1 = Inr y))"
proof -
  let ?icc = "invokeChangeControl env order u (ctx_orgId env)
                     (lineItemsOrDefault (in_lineItems input)) (ship_fields shipping)
                     (in_orderChangeRequestNote input) (ship_extraData shipping)"
  from assms(2) have run: "bnd (editOrderFork env input shipping u poPrefs order)
       (\<lambda>_. editOrderHousekeeping env input shipping order) s = (r, s')"
    by (simp add: editOrderRoute_def)
  have upd: "keeps controlled (whenM (shippingNoChangeCtl poPrefs (ship_fields shipping) \<noteq> [])
         (updateOrder (in_orderId input) (ctx_orgId env)
            (uncontrolledUpdate input poPrefs shipping) (ship_extraData shipping)))"
    by (intro keeps_whenM keeps_controlled_updateOrder)
  from run show ?thesis
  proof (cases rule: bnd_cases)
    case (fail e)
    from fail(1)[unfolded fork_change_control[OF assms(1)]] show ?thesis
    proof (cases rule: bnd_cases)
      case (fail e')
      with \<open>r = Inl e\<close> show ?thesis by auto
    next
      case (ok x s1)
      with keepsD[OF upd ok(2)] \<open>r = Inl e\<close> show ?thesis by auto
    qed
  next
    case (ok x s2)
    have h: "controlled s' = controlled s2"
      using keepsD[OF keeps_controlled_housekeeping ok(2)] .
    from ok(1)[unfolded fork_change_control[OF assms(1)]] show ?thesis
    proof (cases rule: bnd_cases)
      case (fail e')
      then show ?thesis by simp
    next
      case (ok y s1)
      with keepsD[OF upd ok(2)] h show ?thesis by auto
    qed
  qed
qed

lemmas exampleDefs = exampleEnv_def exampleStore_def exampleTables_def exampleOrder_def
  exampleParticipants_def exampleUser_def exampleAuthor_def examplePreferences_def

lemma updateOrder_run:
  "updateOrder orderId orgId u extra s = (Inr (), directUpdate orderId orgId u extra s)"
  by (simp add: directUpdate_def)

lemma bnd_updateOrder [simp]:
  "bnd (updateOrder orderId orgId u extra) k s = k () (directUpdate orderId orgId u extra s)"
  by (simp add: bnd_def updateOrder_run)

lemma bnd_checkReady [simp]:
  "bnd (checkReadyForBookingResolver env orderId) k s = k () (recompute env orderId s)"
  by (simp add: bnd_def split: prod.splits sum.splits)

lemma loadOrder_Inr [simp]:
  "loadOrder orderId s = (Inr order, s') \<longleftrightarrow> findOrder s orderId = Some order \<and> s' = s"
  by (auto simp: loadOrder_def split: option.splits)

lemma loadOrder_Inl [simp]:
  "loadOrder orderId s = (Inl e, s') \<longleftrightarrow>
     findOrder s orderId = None \<and> e = TypeError ''order'' \<and> s' = s"
  by (auto simp: loadOrder_def split: option.splits)

lemma bnd_loadOrder:
  "bnd (loadOrder orderId) k s =
     (case findOrder s orderId of
        None \<Rightarrow> (Inl (TypeError ''order''), s)
      | Some order \<Rightarrow> k order s)"
  by (simp add: bnd_def loadOrder_def split: option.splits)

lemma housekeeping_eq:
  "editOrderHousekeeping env input shipping order s = (r, s') \<longleftrightarrow>
     (case findOrder (recompute env (order_id order) s) (in_orderId input) of
        None \<Rightarrow> r = Inl (TypeError ''order'') \<and> s' = recompute env (order_id order) s
      | Some updatedOrder \<Rightarrow>
          r = Inr updatedOrder
          \<and> s' = (if participantUpdated input shipping
                   then (recompute env (order_id order) s)
                          \<lparr>events := events (recompute env (order_id order) s)
                                       @ [EditPOMessageThread (in_orderId input)]\<rparr>
                   else recompute env (order_id order) s))"
  unfolding editOrderHousekeeping_def participantUpdated_def
  by (auto simp: bnd_loadOrder whenM_def split: option.splits)



lemma hasChangeControl_conditions:
  "hasChangeControl env poPrefs order
       (ship_fields (shippingOrDefault (in_shippingInformation input)))
       (lineItemsOrDefault (in_lineItems input))
     = changeControlConditions env input poPrefs order"
proof -
  have a: "\<And>xs. (shippingInfoChangeReq poPrefs xs \<noteq> [])
            = list_ex (\<lambda>(skey, v). skey \<notin> set (excludedFromChangeCtl poPrefs)) xs"
    by (auto simp: shippingInfoChangeReq_def filter_empty_conv list_ex_iff)
  have b: "(\<not> isEmptyJs (lineItemsOrDefault (in_lineItems input)))
            = (case in_lineItems input of
                 Val li \<Rightarrow> present (addLineItems li) \<or> present (editLineItems li)
                           \<or> present (removeLineItems li) \<or> present (replaceLineItems li)
               | _ \<Rightarrow> False)"
    by (auto simp: isEmptyJs_def lineItemsOrDefault_def isEmptyLineItems_def noLineItems_def
          present_def split: js.splits)
  show ?thesis
    unfolding hasChangeControl_def changeControlConditions_def a b by simp
qed

lemma prepare_preferences:
  assumes "editOrderPrepare env input order0 shipping s0 = (Inr (poPrefs, order), s1)"
  shows "poPrefs = (case getPreferences env (in_userId input) (ctx_orgId env) (buyerId order0) of
                      None \<Rightarrow> None | Some preferences \<Rightarrow> purchaseOrder preferences)"
  using assms unfolding editOrderPrepare_def checkFieldsEditable_def Let_def
  by (auto simp: bnd_Inr split: option.splits prod.splits)

text \<open>Reading the order after the steps of the router.\<close>

lemma find_map_update:
  assumes "\<And>row. order_id (f row) = order_id row"
  shows "find (\<lambda>row. order_id row = k) (map (\<lambda>row. if order_id row = k then f row else row) xs)
           = map_option f (find (\<lambda>row. order_id row = k) xs)"
  by (induction xs) (auto simp: assms)

lemma findOrder_updateRow:
  assumes "\<And>row. order_id (f row) = order_id row"
  shows "findOrder (s\<lparr>db := updateRow k f (db s)\<rparr>) k = map_option f (findOrder s k)"
  by (simp add: findOrder_def updateRow_def find_map_update[OF assms])

lemma findOrder_recompute:
  "findOrder (recompute env k s) k
     = map_option (\<lambda>row. row\<lparr>isReadyForBooking :=
                        (readyForBooking env row
                           (filter (\<lambda>l. lineItem_orderId l = k) (orderLineItems (db s)))
                         \<and> \<not> underChangeControl env s k)\<rparr>)
         (findOrder s k)"
proof (cases "findOrder s k")
  case None
  then show ?thesis by (simp add: recompute_def)
next
  case (Some row)
  show ?thesis
  proof (cases "(readyForBooking env row
                  (filter (\<lambda>l. lineItem_orderId l = k) (orderLineItems (db s)))
                 \<and> \<not> underChangeControl env s k)
                = isReadyForBooking row")
    case True
    with Some show ?thesis by (simp add: recompute_def Let_def)
  next
    case False
    with Some show ?thesis
      by (simp add: recompute_def Let_def findOrder_updateRow)
  qed
qed


lemma findOrder_directUpdate:
  "findOrder (directUpdate k orgId u extra s) k = map_option (applyUpdate u) (findOrder s k)"
proof -
  have "\<And>row. order_id (applyUpdate u row) = order_id row" by (simp add: applyUpdate_def)
  then show ?thesis
    by (simp add: findOrder_def directUpdate_def updateRow_def find_map_update)
qed


lemma recompute_frame:
  "orderChangeRequests (db (recompute env k s)) = orderChangeRequests (db s)"
  "orderChangeRequestLineItems (db (recompute env k s)) = orderChangeRequestLineItems (db s)"
  "orderLineItems (db (recompute env k s)) = orderLineItems (db s)"
  "events (recompute env k s) = events s"
  by (simp_all add: recompute_def updateRow_def Let_def split: option.splits)

lemma recompute_orders:
  "map (\<lambda>row. row\<lparr>isReadyForBooking := False\<rparr>) (orders (db (recompute env k s)))
     = map (\<lambda>row. row\<lparr>isReadyForBooking := False\<rparr>) (orders (db s))"
  by (simp add: recompute_def updateRow_def Let_def split: option.splits)

text \<open>Path A: the direct update and the line-item calls.\<close>

lemma runLineItemCalls_run:
  "\<exists>responses. runLineItemCalls env calls s
      = (Inr responses,
         s\<lparr>db := (db s)\<lparr>orderLineItems := lineItemsAfter env calls (orderLineItems (db s))\<rparr>\<rparr>)"
proof (induction calls arbitrary: s)
  case Nil
  show ?case by (simp add: lineItemsAfter_def ret_def)
next
  case (Cons c cs)
  obtain items response where c: "lineItemUtility env c (orderLineItems (db s)) = (items, response)"
    by (rule prod.exhaust)
  from Cons[of "s\<lparr>db := (db s)\<lparr>orderLineItems := items\<rparr>\<rparr>"] obtain responses where
    "runLineItemCalls env cs (s\<lparr>db := (db s)\<lparr>orderLineItems := items\<rparr>\<rparr>)
       = (Inr responses,
          s\<lparr>db := (db s)\<lparr>orderLineItems := lineItemsAfter env cs items\<rparr>\<rparr>)"
    by auto
  then show ?case
    by (simp add: bnd_def c ret_def lineItemsAfter_def)
qed

lemma handleErrors_store: "handleErrors responses s = (r, s') \<Longrightarrow> s' = s"
  using keepsD[OF keeps_handleErrors, of responses s r s' "\<lambda>s. s"] by simp

lemma queries_run:
  assumes "bnd (runLineItemCalls env calls) handleErrors s = (Inr x, s')"
  shows "s' = s\<lparr>db := (db s)\<lparr>orderLineItems :=
                   lineItemsAfter env calls (orderLineItems (db s))\<rparr>\<rparr>"
proof -
  from runLineItemCalls_run[of env calls s] obtain responses where
    run: "runLineItemCalls env calls s
      = (Inr responses,
         s\<lparr>db := (db s)\<lparr>orderLineItems := lineItemsAfter env calls (orderLineItems (db s))\<rparr>\<rparr>)"
    by blast
  from assms have "handleErrors responses
         (s\<lparr>db := (db s)\<lparr>orderLineItems := lineItemsAfter env calls (orderLineItems (db s))\<rparr>\<rparr>)
       = (Inr x, s')"
    by (simp add: bnd_def run)
  then show ?thesis by (rule handleErrors_store)
qed

lemma updateLineItems_Inr:
  assumes "updateLineItems env order u lineItems s = (Inr x, s')"
  shows "\<exists>li. lineItems = Val li
           \<and> s' = s\<lparr>db := (db s)\<lparr>orderLineItems :=
                      lineItemsAfter env (lineItemQueries order (actingOrg u) li)
                        (orderLineItems (db s))\<rparr>\<rparr>"
proof -
  from assms obtain li queries s1 where li: "lineItems = Val li"
    and q: "(case replaceLineItems li of
            Val items \<Rightarrow>
              bnd (orgIdOf u) (\<lambda>org.
                ret [ReplaceLineItemsInOrder items (order_id order) (supplierId order) org])
          | _ \<Rightarrow>
              bnd (case addLineItems li of
                     Val items \<Rightarrow>
                       bnd (orgIdOf u) (\<lambda>org.
                         ret [AddLineItemsToOrder items (order_id order) (supplierId order) org])
                   | _ \<Rightarrow> ret []) (\<lambda>adds.
              bnd (case editLineItems li of
                     Val items \<Rightarrow>
                       bnd (orgIdOf u) (\<lambda>org.
                         ret [EditLineItemsInOrder items (order_id order) org])
                   | _ \<Rightarrow> ret []) (\<lambda>edits.
              ret (adds @ edits @
                   (case removeLineItems li of
                      Val ids \<Rightarrow> [RemoveLineItemsFromOrder ids (order_id order)]
                    | _ \<Rightarrow> []))))) s = (Inr queries, s1)"
    and run: "bnd (runLineItemCalls env queries) handleErrors s1 = (Inr x, s')"
    unfolding updateLineItems_def by (auto simp: bnd_Inr)
  from q have "s1 = s \<and> queries = lineItemQueries order (actingOrg u) li"
    by (cases u)
       (auto simp: lineItemQueries_def actingOrg_def orgIdOf_def bnd_Inr split: js.splits)
  with queries_run[OF run] li show ?thesis by simp
qed

lemma keeps_events_runLineItemCalls: "keeps events (runLineItemCalls env calls)"
proof (rule keepsI)
  fix s r s'
  assume run: "runLineItemCalls env calls s = (r, s')"
  from runLineItemCalls_run[of env calls s] run show "events s' = events s" by auto
qed

lemma keeps_events_updateLineItems: "keeps events (updateLineItems env order u lineItems)"
  unfolding updateLineItems_def
  by (intro keeps_rules keeps_destructure keeps_orgIdOf keeps_ret
        keeps_events_runLineItemCalls keeps_handleErrors)

lemma fork_direct_eq:
  assumes "\<not> hasChangeControl env poPrefs order (ship_fields shipping)
               (lineItemsOrDefault (in_lineItems input))"
  shows "editOrderFork env input shipping u poPrefs order =
     bnd (updateOrder (in_orderId input) (ctx_orgId env) (directFields input shipping)
            (ship_extraData shipping)) (\<lambda>_.
     bnd (loadOrder (in_orderId input)) (\<lambda>order2.
     updateLineItems env order2 u (lineItemsOrDefault (in_lineItems input))))"
  using assms unfolding editOrderFork_def Let_def directFields_def by simp

lemma fork_direct_events:
  assumes "\<not> hasChangeControl env poPrefs order (ship_fields shipping)
               (lineItemsOrDefault (in_lineItems input))"
      and "editOrderFork env input shipping u poPrefs order s = (r, s2)"
  shows "events s2 = events s @ [UpdateOrder (in_orderId input) (ctx_orgId env)
                                   (directFields input shipping) (ship_extraData shipping)]"
proof -
  let ?s1 = "directUpdate (in_orderId input) (ctx_orgId env) (directFields input shipping)
               (ship_extraData shipping) s"
  have "keeps events (bnd (loadOrder (in_orderId input)) (\<lambda>order2.
     updateLineItems env order2 u (lineItemsOrDefault (in_lineItems input))))"
    by (intro keeps_bnd keeps_loadOrder keeps_events_updateLineItems)
  moreover from assms(2) have "bnd (loadOrder (in_orderId input)) (\<lambda>order2.
     updateLineItems env order2 u (lineItemsOrDefault (in_lineItems input))) ?s1 = (r, s2)"
    unfolding fork_direct_eq[OF assms(1)] by simp
  ultimately have "events s2 = events ?s1" by (rule keepsD)
  then show ?thesis by (simp add: directUpdate_def)
qed

lemma fork_direct_run:
  assumes "\<not> hasChangeControl env poPrefs order (ship_fields shipping)
               (lineItemsOrDefault (in_lineItems input))"
      and "editOrderFork env input shipping u poPrefs order s = (Inr x, s2)"
  shows "\<exists>li order2. lineItemsOrDefault (in_lineItems input) = Val li
           \<and> findOrder (directUpdate (in_orderId input) (ctx_orgId env)
                          (directFields input shipping) (ship_extraData shipping) s)
                (in_orderId input) = Some order2
           \<and> s2 = (directUpdate (in_orderId input) (ctx_orgId env)
                     (directFields input shipping) (ship_extraData shipping) s)
                  \<lparr>db := (db (directUpdate (in_orderId input) (ctx_orgId env)
                                 (directFields input shipping) (ship_extraData shipping) s))
                     \<lparr>orderLineItems :=
                        lineItemsAfter env (lineItemQueries order2 (actingOrg u) li)
                          (orderLineItems (db s))\<rparr>\<rparr>"
proof -
  let ?s1 = "directUpdate (in_orderId input) (ctx_orgId env) (directFields input shipping)
               (ship_extraData shipping) s"
  from assms(2) have "bnd (loadOrder (in_orderId input)) (\<lambda>order2.
     updateLineItems env order2 u (lineItemsOrDefault (in_lineItems input))) ?s1 = (Inr x, s2)"
    unfolding fork_direct_eq[OF assms(1)] by simp
  then obtain order2 where o2: "findOrder ?s1 (in_orderId input) = Some order2"
    and upd: "updateLineItems env order2 u (lineItemsOrDefault (in_lineItems input)) ?s1
                = (Inr x, s2)"
    by (auto simp: bnd_Inr)
  have items: "orderLineItems (db ?s1) = orderLineItems (db s)"
    by (simp add: directUpdate_def updateRow_def)
  from updateLineItems_Inr[OF upd] o2 items show ?thesis by auto
qed

lemma fork_direct_returns:
  assumes "\<not> hasChangeControl env poPrefs order (ship_fields shipping)
               (lineItemsOrDefault (in_lineItems input))"
      and "lineItemsOrDefault (in_lineItems input) = Val li"
      and "\<not> truthyJs (replaceLineItems li)" "\<not> truthyJs (addLineItems li)"
          "\<not> truthyJs (editLineItems li)" "\<not> truthyJs (removeLineItems li)"
      and "findOrder s (in_orderId input) = Some row"
  shows "editOrderFork env input shipping u poPrefs order s
           = (Inr (), directUpdate (in_orderId input) (ctx_orgId env)
                        (directFields input shipping) (ship_extraData shipping) s)"
proof -
  have "updateLineItems env order2 u (Val li) t = (Inr (), t)" for order2 t
    using assms(3-6) unfolding updateLineItems_def handleErrors_def
    by (auto simp: truthyJs_def destructure_def ret_def bnd_def split: js.splits)
  with assms(7) show ?thesis
    unfolding fork_direct_eq[OF assms(1)] assms(2)
    by (simp add: bnd_loadOrder findOrder_directUpdate)
qed

lemma route_direct_events:
  assumes "\<not> hasChangeControl env poPrefs order (ship_fields shipping)
               (lineItemsOrDefault (in_lineItems input))"
      and "editOrderRoute env input shipping u (poPrefs, order) s = (r, s')"
  shows "\<exists>rest. events s' = events s @ UpdateOrder (in_orderId input) (ctx_orgId env)
                                         (directFields input shipping) (ship_extraData shipping)
                                       # rest"
proof -
  from assms(2) have "bnd (editOrderFork env input shipping u poPrefs order)
       (\<lambda>_. editOrderHousekeeping env input shipping order) s = (r, s')"
    by (simp add: editOrderRoute_def)
  then show ?thesis
  proof (cases rule: bnd_cases)
    case (fail e)
    from fork_direct_events[OF assms(1) fail(1)] show ?thesis by simp
  next
    case (ok x s2)
    from ok(2)[unfolded housekeeping_eq]
    have "events s' = events s2 \<or> events s' = events s2 @ [EditPOMessageThread (in_orderId input)]"
      by (auto simp: recompute_frame split: option.splits if_splits)
    with fork_direct_events[OF assms(1) ok(1)] show ?thesis by auto
  qed
qed

lemma route_direct_run:
  assumes "\<not> hasChangeControl env poPrefs order (ship_fields shipping)
               (lineItemsOrDefault (in_lineItems input))"
      and "editOrderRoute env input shipping u (poPrefs, order) s = (Inr updated, s')"
  shows "findOrder s' (in_orderId input) = Some updated
       \<and> map (\<lambda>row. row\<lparr>isReadyForBooking := False\<rparr>) (orders (db s'))
           = map (\<lambda>row. (if order_id row = in_orderId input
                          then applyUpdate (directFields input shipping) row
                          else row)\<lparr>isReadyForBooking := False\<rparr>)
               (orders (db s))
       \<and> (\<exists>li order2. lineItemsOrDefault (in_lineItems input) = Val li
             \<and> findOrder (directUpdate (in_orderId input) (ctx_orgId env)
                            (directFields input shipping) (ship_extraData shipping) s)
                  (in_orderId input) = Some order2
             \<and> orderLineItems (db s')
                 = lineItemsAfter env (lineItemQueries order2 (actingOrg u) li)
                     (orderLineItems (db s)))"
proof -
  from assms(2) obtain x s2 where
    fork: "editOrderFork env input shipping u poPrefs order s = (Inr x, s2)"
    and house: "editOrderHousekeeping env input shipping order s2 = (Inr updated, s')"
    by (auto simp: editOrderRoute_def bnd_Inr)
  let ?s1 = "directUpdate (in_orderId input) (ctx_orgId env) (directFields input shipping)
               (ship_extraData shipping) s"
  from fork_direct_run[OF assms(1) fork] obtain li order2 where
    li: "lineItemsOrDefault (in_lineItems input) = Val li"
    and o2: "findOrder ?s1 (in_orderId input) = Some order2"
    and s2: "s2 = ?s1\<lparr>db := (db ?s1)\<lparr>orderLineItems :=
                        lineItemsAfter env (lineItemQueries order2 (actingOrg u) li)
                          (orderLineItems (db s))\<rparr>\<rparr>"
    by blast
  from house[unfolded housekeeping_eq] have
    found: "findOrder (recompute env (order_id order) s2) (in_orderId input) = Some updated"
    and s': "s' = recompute env (order_id order) s2
             \<or> s' = (recompute env (order_id order) s2)
                      \<lparr>events := events (recompute env (order_id order) s2)
                                   @ [EditPOMessageThread (in_orderId input)]\<rparr>"
    by (auto split: option.splits if_splits)
  from s' found have a: "findOrder s' (in_orderId input) = Some updated"
    by (auto simp: findOrder_def)
  from s' have b: "orders (db s') = orders (db (recompute env (order_id order) s2))"
    and c: "orderLineItems (db s') = orderLineItems (db s2)"
    by (auto simp: recompute_frame)
  have d: "map (\<lambda>row. row\<lparr>isReadyForBooking := False\<rparr>) (orders (db s'))
           = map (\<lambda>row. row\<lparr>isReadyForBooking := False\<rparr>) (orders (db s2))"
    unfolding b by (rule recompute_orders)
  have e: "orders (db s2) = map (\<lambda>row. if order_id row = in_orderId input
                          then applyUpdate (directFields input shipping) row
                          else row) (orders (db s))"
    unfolding s2 by (simp add: directUpdate_def updateRow_def)
  have f: "orderLineItems (db s2)
             = lineItemsAfter env (lineItemQueries order2 (actingOrg u) li)
                 (orderLineItems (db s))"
    unfolding s2 by simp
  from a d e c f li o2 show ?thesis by (auto simp: o_def)
qed

lemma route_direct_returns:
  assumes "\<not> hasChangeControl env poPrefs order (ship_fields shipping)
               (lineItemsOrDefault (in_lineItems input))"
      and "noLineItemLists (lineItemsOrDefault (in_lineItems input))"
      and "findOrder s (in_orderId input) = Some row"
      and "editOrderRoute env input shipping u (poPrefs, order) s = (r, s')"
  shows "\<exists>updated. r = Inr updated"
proof -
  from assms(2) obtain li where li: "lineItemsOrDefault (in_lineItems input) = Val li"
    and none: "\<not> truthyJs (replaceLineItems li)" "\<not> truthyJs (addLineItems li)"
          "\<not> truthyJs (editLineItems li)" "\<not> truthyJs (removeLineItems li)"
    by (auto simp: noLineItemLists_def split: js.splits)
  let ?s1 = "directUpdate (in_orderId input) (ctx_orgId env) (directFields input shipping)
               (ship_extraData shipping) s"
  note fork = fork_direct_returns[OF assms(1) li none assms(3)]
  have "findOrder (recompute env (order_id order) ?s1) (in_orderId input) \<noteq> None"
  proof (cases "order_id order = in_orderId input")
    case True
    then show ?thesis
      by (simp add: findOrder_recompute findOrder_directUpdate assms(3))
  next
    case False
    have "map order_id (orders (db (recompute env (order_id order) ?s1)))
            = map order_id (orders (db ?s1))"
      by (simp add: recompute_def updateRow_def Let_def o_def split: option.splits)
    moreover have "findOrder t k = None \<longleftrightarrow> k \<notin> set (map order_id (orders (db t)))" for t k
      by (auto simp: findOrder_def find_None_iff)
    ultimately show ?thesis
      by (metis findOrder_directUpdate assms(3) option.distinct(1) option.map_disc_iff)
  qed
  then obtain updated where
    "findOrder (recompute env (order_id order) ?s1) (in_orderId input) = Some updated"
    by auto
  with assms(4) show ?thesis
    unfolding editOrderRoute_def prod.case
    by (auto simp: bnd_def fork housekeeping_eq split: prod.splits sum.splits)
qed

lemma editOrderStatus_loaded:
  "editOrderStatus env orgId orderId st s = (Inr order, s') \<Longrightarrow> findOrder s' orderId = Some order"
  unfolding editOrderStatus_def Let_def
  by (auto simp: bnd_Inr)

lemma prepare_order:
  assumes "editOrderAuthorize env input s = (Inr (order0, buyerPreferences, u), s0)"
      and "editOrderPrepare env input order0 shipping s0 = (Inr (poPrefs, order), s1)"
  shows "findOrder s1 (in_orderId input) = Some order"
proof -
  from keepsD[OF keeps_editOrderAuthorize assms(1), of "\<lambda>s. s"] have same: "s0 = s" by simp
  from assms(1) have "findOrder s (in_orderId input) = Some order0"
    unfolding editOrderAuthorize_def Let_def
    by (auto simp: bnd_Inr case_prod_beta split: if_splits)
  with same have s0: "findOrder s0 (in_orderId input) = Some order0" by simp
  from assms(2) obtain p sa where
    a: "checkFieldsEditable env (in_userId input) (ctx_orgId env) (buyerId order0)
            (editFieldKeys input shipping) s0 = (Inr p, sa)"
    and rest: "bnd (checkLineItems (in_orderId input) (lineItemsOrDefault (in_lineItems input)))
       (\<lambda>_. bnd (case in_orderStatusId input of
            Some newStatusId \<Rightarrow>
              if newStatusId \<noteq> orderStatusId order0
              then editOrderStatus env (ctx_orgId env) (in_orderId input) newStatusId
              else ret order0
          | None \<Rightarrow> ret order0) (\<lambda>order1. ret (p, order1))) sa = (Inr (poPrefs, order), s1)"
    unfolding editOrderPrepare_def by (auto simp: bnd_Inr)
  from keepsD[OF keeps_checkFieldsEditable a, of "\<lambda>s. s"] have sa: "sa = s0" by simp
  from rest obtain y sb where
    b: "checkLineItems (in_orderId input) (lineItemsOrDefault (in_lineItems input)) sa
          = (Inr y, sb)"
    and st: "(case in_orderStatusId input of
            Some newStatusId \<Rightarrow>
              if newStatusId \<noteq> orderStatusId order0
              then editOrderStatus env (ctx_orgId env) (in_orderId input) newStatusId
              else ret order0
          | None \<Rightarrow> ret order0) sb = (Inr order, s1)"
    by (auto simp: bnd_Inr)
  from keepsD[OF keeps_checkLineItems b, of "\<lambda>s. s"] have sb: "sb = sa" by simp
  from st s0 show ?thesis
    unfolding sb sa
    by (auto split: option.splits if_splits dest: editOrderStatus_loaded)
qed

text \<open>
  Claim C1. For a non-integration edit that passes the authorization and preparation
  steps of \<^verbatim>\<open>editOrder\<close>, with \<open>poPrefs\<close> the purchase-order preferences and \<open>order\<close> the
  order as it stands after the status sub-operation: a returning call has appended a
  change request if and only if the preferences enable change control, the order's
  status is Received or Accepted, and the payload holds a shipping field outside the
  exclusion list or a line-item instruction. When the conditions fail, and so whenever
  the status is neither Received nor Accepted, the call takes Path A: whatever the
  outcome, no change request is created and \<^verbatim>\<open>updateOrder\<close> has been called with the rest
  of the input and all the shipping fields; a returning call returns the stored order,
  has written those fields to the order's row and to no other, and has left the line
  items that the line-item calls of the payload produce; and the call returns when the
  payload has no line-item list.
\<close>

theorem editOrder_change_control_iff:
  assumes "\<not> isIntegration env"
      and "editOrderAuthorize env input s = (Inr (order0, buyerPreferences, u), s0)"
      and "editOrderPrepare env input order0 (shippingOrDefault (in_shippingInformation input)) s0
             = (Inr (poPrefs, order), s1)"
      and "editOrder env input s = (r, s')"
  shows "poPrefs = (case getPreferences env (in_userId input) (ctx_orgId env) (buyerId order0) of
                      None \<Rightarrow> None | Some preferences \<Rightarrow> purchaseOrder preferences)
       \<and> ((\<exists>updated. r = Inr updated) \<longrightarrow>
            (\<exists>row. orderChangeRequests (db s') = orderChangeRequests (db s) @ [row])
              = changeControlConditions env input poPrefs order)
       \<and> (\<not> changeControlConditions env input poPrefs order \<longrightarrow>
            orderChangeRequests (db s') = orderChangeRequests (db s))
       \<and> (orderStatusId order \<noteq> getStatusId env ''Received'' ''OrderStatus''
            \<and> orderStatusId order \<noteq> getStatusId env ''Accepted'' ''OrderStatus'' \<longrightarrow>
            orderChangeRequests (db s') = orderChangeRequests (db s))
       \<and> (\<not> changeControlConditions env input poPrefs order \<longrightarrow>
            (\<exists>rest. events s'
               = events s1
                 @ UpdateOrder (in_orderId input) (ctx_orgId env)
                     (directFields input (shippingOrDefault (in_shippingInformation input)))
                     (ship_extraData (shippingOrDefault (in_shippingInformation input)))
                   # rest)
          \<and> (\<forall>updated. r = Inr updated \<longrightarrow>
                findOrder s' (in_orderId input) = Some updated
              \<and> map (\<lambda>row. row\<lparr>isReadyForBooking := False\<rparr>) (orders (db s'))
                  = map (\<lambda>row. (if order_id row = in_orderId input
                                 then applyUpdate
                                        (directFields input
                                           (shippingOrDefault (in_shippingInformation input)))
                                        row
                                 else row)\<lparr>isReadyForBooking := False\<rparr>)
                      (orders (db s1))
              \<and> (\<exists>li order2. lineItemsOrDefault (in_lineItems input) = Val li
                    \<and> findOrder
                         (directUpdate (in_orderId input) (ctx_orgId env)
                            (directFields input (shippingOrDefault (in_shippingInformation input)))
                            (ship_extraData (shippingOrDefault (in_shippingInformation input)))
                            s1)
                         (in_orderId input) = Some order2
                    \<and> orderLineItems (db s')
                        = lineItemsAfter env (lineItemQueries order2 (actingOrg u) li)
                            (orderLineItems (db s1))))
          \<and> (noLineItemLists (lineItemsOrDefault (in_lineItems input))
                \<longrightarrow> (\<exists>updated. r = Inr updated)))"
proof -
  let ?shipping = "shippingOrDefault (in_shippingInformation input)"
  let ?cond = "changeControlConditions env input poPrefs order"
  have s0: "controlled s0 = controlled s"
    using keepsD[OF keeps_editOrderAuthorize assms(2)] .
  have s1: "controlled s1 = controlled s0"
    using keepsD[OF keeps_controlled_editOrderPrepare assms(3)] .
  have before: "orderChangeRequests (db s1) = orderChangeRequests (db s)"
    using s0 s1 by (simp add: controlled_def)
  have route: "editOrderRoute env input ?shipping u (poPrefs, order) s1 = (r, s')"
    using editOrder_reaches_route[OF assms(1,2,3)] assms(4) by simp
  have stored: "findOrder s1 (in_orderId input) = Some order"
    using prepare_order[OF assms(2,3)] .
  have direct: "\<not> ?cond \<Longrightarrow> orderChangeRequests (db s') = orderChangeRequests (db s)"
  proof -
    assume "\<not> ?cond"
    then have "\<not> hasChangeControl env poPrefs order (ship_fields ?shipping)
                   (lineItemsOrDefault (in_lineItems input))"
      by (simp add: hasChangeControl_conditions)
    from route_direct[OF this route] before show ?thesis by (simp add: controlled_def)
  qed
  have proposed: "?cond \<Longrightarrow> \<exists>updated. r = Inr updated
      \<Longrightarrow> \<exists>row. orderChangeRequests (db s') = orderChangeRequests (db s) @ [row]"
  proof -
    assume "?cond" and ok: "\<exists>updated. r = Inr updated"
    then have "hasChangeControl env poPrefs order (ship_fields ?shipping)
                   (lineItemsOrDefault (in_lineItems input))"
      by (simp add: hasChangeControl_conditions)
    from route_change_control[OF this route] ok obtain y s2 where
      icc: "invokeChangeControl env order u (ctx_orgId env)
              (lineItemsOrDefault (in_lineItems input)) (ship_fields ?shipping)
              (in_orderChangeRequestNote input) (ship_extraData ?shipping) s1 = (Inr y, s2)"
      and c: "controlled s' = controlled s2"
      by blast
    from invokeChangeControl_requests[OF icc] obtain row where
      "orderChangeRequests (db s2) = orderChangeRequests (db s1) @ [row]" by auto
    with c before show ?thesis by (auto simp: controlled_def)
  qed
  have none: "\<not> ?cond \<Longrightarrow>
      \<not> (\<exists>row. orderChangeRequests (db s') = orderChangeRequests (db s) @ [row])"
    using direct by auto
  have status: "orderStatusId order \<noteq> getStatusId env ''Received'' ''OrderStatus''
            \<and> orderStatusId order \<noteq> getStatusId env ''Accepted'' ''OrderStatus'' \<Longrightarrow> \<not> ?cond"
    by (simp add: changeControlConditions_def)
  have pathA: "(\<exists>rest. events s'
               = events s1
                 @ UpdateOrder (in_orderId input) (ctx_orgId env) (directFields input ?shipping)
                     (ship_extraData ?shipping) # rest)
          \<and> (\<forall>updated. r = Inr updated \<longrightarrow>
                findOrder s' (in_orderId input) = Some updated
              \<and> map (\<lambda>row. row\<lparr>isReadyForBooking := False\<rparr>) (orders (db s'))
                  = map (\<lambda>row. (if order_id row = in_orderId input
                                 then applyUpdate (directFields input ?shipping) row
                                 else row)\<lparr>isReadyForBooking := False\<rparr>)
                      (orders (db s1))
              \<and> (\<exists>li order2. lineItemsOrDefault (in_lineItems input) = Val li
                    \<and> findOrder
                         (directUpdate (in_orderId input) (ctx_orgId env)
                            (directFields input ?shipping) (ship_extraData ?shipping) s1)
                         (in_orderId input) = Some order2
                    \<and> orderLineItems (db s')
                        = lineItemsAfter env (lineItemQueries order2 (actingOrg u) li)
                            (orderLineItems (db s1))))
          \<and> (noLineItemLists (lineItemsOrDefault (in_lineItems input))
                \<longrightarrow> (\<exists>updated. r = Inr updated))"
    if "\<not> ?cond"
  proof -
    from that have no: "\<not> hasChangeControl env poPrefs order (ship_fields ?shipping)
                   (lineItemsOrDefault (in_lineItems input))"
      by (simp add: hasChangeControl_conditions)
    note a = route_direct_events[OF no route]
    have b: "findOrder s' (in_orderId input) = Some updated
              \<and> map (\<lambda>row. row\<lparr>isReadyForBooking := False\<rparr>) (orders (db s'))
                  = map (\<lambda>row. (if order_id row = in_orderId input
                                 then applyUpdate (directFields input ?shipping) row
                                 else row)\<lparr>isReadyForBooking := False\<rparr>)
                      (orders (db s1))
              \<and> (\<exists>li order2. lineItemsOrDefault (in_lineItems input) = Val li
                    \<and> findOrder
                         (directUpdate (in_orderId input) (ctx_orgId env)
                            (directFields input ?shipping) (ship_extraData ?shipping) s1)
                         (in_orderId input) = Some order2
                    \<and> orderLineItems (db s')
                        = lineItemsAfter env (lineItemQueries order2 (actingOrg u) li)
                            (orderLineItems (db s1)))"
      if "r = Inr updated" for updated
      using route_direct_run[OF no route[unfolded that]] .
    have c: "\<exists>updated. r = Inr updated"
      if "noLineItemLists (lineItemsOrDefault (in_lineItems input))"
      using route_direct_returns[OF no that stored route] .
    from a b c show ?thesis by blast
  qed
  from none direct proposed status prepare_preferences[OF assms(3)] pathA
  show ?thesis by blast
qed

lemma route_submission_succeeds:
  assumes "hasChangeControl env poPrefs order (ship_fields shipping)
               (lineItemsOrDefault (in_lineItems input))"
      and "lineItemsOrDefault (in_lineItems input) = Val li"
      and "\<not> rejects env OrderChangeRequestTable" "\<not> rejects env OrderChangeReviewTable"
          "\<not> rejects env OrderChangeRequestLineItemTable"
      and "findOrder (recompute env (order_id order)
                          (submitted env input shipping author poPrefs order li s))
                (in_orderId input) = Some updated"
  shows "editOrderRoute env input shipping (Some author) (poPrefs, order) s
           = (Inr updated, afterSubmission env input shipping author poPrefs order li s)"
proof -
  have fork: "editOrderFork env input shipping (Some author) poPrefs order s
                = (Inr (), submitted env input shipping author poPrefs order li s)"
    unfolding fork_change_control[OF assms(1)] assms(2)
    by (simp add: bnd_def invokeChangeControl_succeeds[OF assms(3,4,5)] whenM_def
          submitted_def updateOrder_run Let_def ret_def)
  have house: "editOrderHousekeeping env input shipping order
                 (submitted env input shipping author poPrefs order li s)
                = (Inr updated, afterSubmission env input shipping author poPrefs order li s)"
    unfolding housekeeping_eq using assms(6) by (simp add: afterSubmission_def Let_def)
  show ?thesis
    unfolding editOrderRoute_def prod.case by (simp add: bnd_def fork house)
qed

lemma example_nonIntegration: "\<not> isIntegration exampleEnv"
  by (simp add: exampleEnv_def)

lemma example_authorize:
  "editOrderAuthorize exampleEnv destinationEdit exampleStore
     = (Inr (exampleOrder, None, Some exampleAuthor), exampleStore)"
  by (simp add: editOrderAuthorize_def parsePreferences_def destinationEdit_def exec exampleDefs)

lemma example_prepare:
  "editOrderPrepare exampleEnv destinationEdit exampleOrder
       (shippingOrDefault (in_shippingInformation destinationEdit)) exampleStore
     = (Inr (purchaseOrder examplePreferences, exampleOrder), exampleStore)"
  by (simp add: editOrderPrepare_def checkFieldsEditable_def checkLineItems_def
        editFieldKeys_def lineItemsOrDefault_def noLineItems_def truthyJs_def
        shippingOrDefault_def isEmptyValue_def
        destinationEdit_def exec exampleDefs)

lemma example_conditions:
  "changeControlConditions exampleEnv destinationEdit (purchaseOrder examplePreferences)
     exampleOrder"
  by (simp add: changeControlConditions_def excludedFromChangeCtl_def shippingOrDefault_def
        destinationEdit_def exampleDefs)

lemma example_lineItems: "lineItemsOrDefault (in_lineItems destinationEdit) = Val noLineItems"
  by (simp add: lineItemsOrDefault_def destinationEdit_def)

lemma example_updated:
  "findOrder (recompute exampleEnv (order_id exampleOrder)
       (submitted exampleEnv destinationEdit
          (shippingOrDefault (in_shippingInformation destinationEdit)) exampleAuthor
          (purchaseOrder examplePreferences) exampleOrder noLineItems exampleStore))
     (in_orderId destinationEdit) = Some (exampleOrder\<lparr>isReadyForBooking := False\<rparr>)"
  by (simp add: recompute_def submitted_def afterChangeControl_def findOrder_def
        shippingNoChangeCtl_def excludedFromChangeCtl_def shippingOrDefault_def updateRow_def
        underChangeControl_def newChangeRequest_def destinationEdit_def exampleDefs Let_def)

lemma example_run:
  "editOrder exampleEnv destinationEdit exampleStore
     = (Inr (exampleOrder\<lparr>isReadyForBooking := False\<rparr>),
        afterSubmission exampleEnv destinationEdit
          (shippingOrDefault (in_shippingInformation destinationEdit)) exampleAuthor
          (purchaseOrder examplePreferences) exampleOrder noLineItems exampleStore)"
  unfolding editOrder_reaches_route[OF example_nonIntegration example_authorize example_prepare]
  by (rule route_submission_succeeds[OF
        example_conditions[folded hasChangeControl_conditions] example_lineItems
        example_no_rejects example_updated])

lemma issued_authorize:
  "editOrderAuthorize exampleEnv destinationEdit issuedStore
     = (Inr (exampleOrder\<lparr>orderStatusId := 5\<rparr>, None, Some exampleAuthor), issuedStore)"
  by (simp add: editOrderAuthorize_def parsePreferences_def destinationEdit_def issuedStore_def
        exec exampleDefs)

lemma issued_prepare:
  "editOrderPrepare exampleEnv destinationEdit (exampleOrder\<lparr>orderStatusId := 5\<rparr>)
       (shippingOrDefault (in_shippingInformation destinationEdit)) issuedStore
     = (Inr (purchaseOrder examplePreferences, exampleOrder\<lparr>orderStatusId := 5\<rparr>), issuedStore)"
  by (simp add: editOrderPrepare_def checkFieldsEditable_def checkLineItems_def
        editFieldKeys_def lineItemsOrDefault_def noLineItems_def truthyJs_def
        shippingOrDefault_def isEmptyValue_def issuedStore_def
        destinationEdit_def exec exampleDefs)

lemma issued_conditions:
  "\<not> changeControlConditions exampleEnv destinationEdit (purchaseOrder examplePreferences)
       (exampleOrder\<lparr>orderStatusId := 5\<rparr>)"
  by (simp add: changeControlConditions_def exampleEnv_def exampleOrder_def)

lemma issued_no_lists: "noLineItemLists (lineItemsOrDefault (in_lineItems destinationEdit))"
  by (simp add: noLineItemLists_def lineItemsOrDefault_def destinationEdit_def noLineItems_def
        truthyJs_def)

theorem editOrder_change_control_iff_witness:
  "\<not> isIntegration exampleEnv
   \<and> editOrderAuthorize exampleEnv destinationEdit exampleStore
       = (Inr (exampleOrder, None, Some exampleAuthor), exampleStore)
   \<and> editOrderPrepare exampleEnv destinationEdit exampleOrder
       (shippingOrDefault (in_shippingInformation destinationEdit)) exampleStore
       = (Inr (purchaseOrder examplePreferences, exampleOrder), exampleStore)
   \<and> changeControlConditions exampleEnv destinationEdit (purchaseOrder examplePreferences)
       exampleOrder
   \<and> (\<exists>updated. fst (editOrder exampleEnv destinationEdit exampleStore) = Inr updated)
   \<and> (\<exists>row. orderChangeRequests (db (snd (editOrder exampleEnv destinationEdit exampleStore)))
              = orderChangeRequests (db exampleStore) @ [row])
   \<and> editOrderAuthorize exampleEnv destinationEdit issuedStore
       = (Inr (exampleOrder\<lparr>orderStatusId := 5\<rparr>, None, Some exampleAuthor), issuedStore)
   \<and> editOrderPrepare exampleEnv destinationEdit (exampleOrder\<lparr>orderStatusId := 5\<rparr>)
       (shippingOrDefault (in_shippingInformation destinationEdit)) issuedStore
       = (Inr (purchaseOrder examplePreferences, exampleOrder\<lparr>orderStatusId := 5\<rparr>), issuedStore)
   \<and> orderStatusId (exampleOrder\<lparr>orderStatusId := 5\<rparr>)
        \<noteq> getStatusId exampleEnv ''Received'' ''OrderStatus''
   \<and> orderStatusId (exampleOrder\<lparr>orderStatusId := 5\<rparr>)
        \<noteq> getStatusId exampleEnv ''Accepted'' ''OrderStatus''
   \<and> orderChangeRequests (db (snd (editOrder exampleEnv destinationEdit issuedStore)))
       = orderChangeRequests (db issuedStore)
   \<and> noLineItemLists (lineItemsOrDefault (in_lineItems destinationEdit))
   \<and> (\<exists>updated. fst (editOrder exampleEnv destinationEdit issuedStore) = Inr updated)
   \<and> (\<exists>rest. events (snd (editOrder exampleEnv destinationEdit issuedStore))
         = events issuedStore
           @ UpdateOrder 1 10
               (directFields destinationEdit
                  (shippingOrDefault (in_shippingInformation destinationEdit))) None # rest)
   \<and> map columns (orders (db issuedStore)) = [[(''destinationId'', JKey 40)]]
   \<and> map columns (orders (db (snd (editOrder exampleEnv destinationEdit issuedStore))))
       = [[(''destinationId'', JKey 41)]]"
proof -
  let ?run = "editOrder exampleEnv destinationEdit issuedStore"
  let ?shipping = "shippingOrDefault (in_shippingInformation destinationEdit)"
  have ok: "\<exists>updated. fst (editOrder exampleEnv destinationEdit exampleStore) = Inr updated"
    by (simp add: example_run)
  have st: "orderStatusId (exampleOrder\<lparr>orderStatusId := 5\<rparr>)
              \<noteq> getStatusId exampleEnv ''Received'' ''OrderStatus''
            \<and> orderStatusId (exampleOrder\<lparr>orderStatusId := 5\<rparr>)
              \<noteq> getStatusId exampleEnv ''Accepted'' ''OrderStatus''"
    by (simp add: exampleEnv_def)
  note proposal = editOrder_change_control_iff[OF example_nonIntegration example_authorize
         example_prepare surjective_pairing]
  note direct = editOrder_change_control_iff[OF example_nonIntegration issued_authorize
         issued_prepare surjective_pairing]
  from direct issued_conditions issued_no_lists obtain updated where
    ret: "fst ?run = Inr updated" by blast
  from direct issued_conditions ret have
    rows: "map (\<lambda>row. row\<lparr>isReadyForBooking := False\<rparr>) (orders (db (snd ?run)))
             = map (\<lambda>row. (if order_id row = in_orderId destinationEdit
                            then applyUpdate (directFields destinationEdit ?shipping) row
                            else row)\<lparr>isReadyForBooking := False\<rparr>)
                 (orders (db issuedStore))"
    by blast
  have "map columns (orders (db (snd ?run)))
          = map columns (map (\<lambda>row. row\<lparr>isReadyForBooking := False\<rparr>) (orders (db (snd ?run))))"
    by (simp add: o_def)
  also have "\<dots> = [[(''destinationId'', JKey 41)]]"
    unfolding rows
    by (simp add: issuedStore_def directFields_def applyUpdate_def spread_def inputRest_def
          shippingOrDefault_def destinationEdit_def exampleDefs)
  finally have new: "map columns (orders (db (snd ?run))) = [[(''destinationId'', JKey 41)]]" .
  have old: "map columns (orders (db issuedStore)) = [[(''destinationId'', JKey 40)]]"
    by (simp add: issuedStore_def exampleDefs)
  have ids: "in_orderId destinationEdit = 1" "ctx_orgId exampleEnv = 10"
    "ship_extraData ?shipping = None"
    by (simp_all add: destinationEdit_def exampleEnv_def shippingOrDefault_def)
  from direct issued_conditions have
    "\<exists>rest. events (snd ?run)
         = events issuedStore
           @ UpdateOrder (in_orderId destinationEdit) (ctx_orgId exampleEnv)
               (directFields destinationEdit ?shipping) (ship_extraData ?shipping) # rest"
    by blast
  then have calls: "\<exists>rest. events (snd ?run)
         = events issuedStore
           @ UpdateOrder 1 10 (directFields destinationEdit ?shipping) None # rest"
    unfolding ids .
  from proposal direct
       example_nonIntegration example_authorize example_prepare example_conditions ok st
       issued_authorize issued_prepare issued_no_lists ret new old calls
  show ?thesis by blast
qed

subsection \<open>What the two change-control paths write\<close>














subsection \<open>Readiness after a submission\<close>




subsection \<open>Validation and the first write\<close>

lemma checkLineItems_conflict:
  assumes "lineItemsConflict li"
  shows "\<exists>e. checkLineItems orderId (Val li) s = (Inl e, s)"
  using assms
  by (auto simp: checkLineItems_def lineItemsConflict_def destructure_def throw_def
        split: js.splits)

lemma unchanged_run:
  assumes "keeps (\<lambda>s. s) m"
  obtains r where "m s = (r, s)"
  using keepsD[OF assms, of s] by (cases "m s") auto

lemma prepare_conflict:
  assumes "lineItemsOrDefault (in_lineItems input) = Val li" and "lineItemsConflict li"
  shows "\<exists>e. editOrderPrepare env input order shipping s = (Inl e, s)"
proof -
  let ?check = "checkFieldsEditable env (in_userId input) (ctx_orgId env) (buyerId order)
                  (editFieldKeys input shipping)"
  obtain r where r: "?check s = (r, s)"
    by (rule unchanged_run[OF keeps_checkFieldsEditable])
  from checkLineItems_conflict[OF assms(2)] obtain e where
    e: "checkLineItems (in_orderId input) (Val li) s = (Inl e, s)" by blast
  show ?thesis
  proof (cases r)
    case (Inl e')
    with r show ?thesis
      unfolding editOrderPrepare_def by (simp add: bnd_def)
  next
    case (Inr poPrefs)
    with r e show ?thesis
      unfolding editOrderPrepare_def assms(1)
      by (simp add: bnd_def)
  qed
qed

lemma editAndResetOrder_conflict:
  assumes "lineItemsOrDefault (in_lineItems input) = Val li" and "lineItemsConflict li"
  shows "\<exists>e. editAndResetOrder env u order shipping input orgId s = (Inl e, s)"
proof -
  from checkLineItems_conflict[OF assms(2)] obtain e where
    e: "checkLineItems (order_id order) (Val li) s = (Inl e, s)" by blast
  show ?thesis
    unfolding editAndResetOrder_def Let_def assms(1)
    by (simp add: bnd_def e)
qed

lemma handleUnknownLocation_run:
  "\<exists>shipping' s1. handleUnknownLocation env order buyerPreferences loc shipping s
                     = (Inr shipping', s1)
      \<and> db s1 = db s \<and> (\<not> isIntegration env \<longrightarrow> s1 = s)"
  by (auto simp: handleUnknownLocation_def Let_def bnd_def emit_def ret_def
        split: option.splits)

lemma editOrder_conflict:
  assumes "lineItemsOrDefault (in_lineItems input) = Val li" and "lineItemsConflict li"
  shows "\<exists>e s'. editOrder env input s = (Inl e, s') \<and> db s' = db s
                 \<and> (\<not> isIntegration env \<longrightarrow> s' = s)"
proof -
  obtain r where r: "editOrderAuthorize env input s = (r, s)"
    by (rule unchanged_run[OF keeps_editOrderAuthorize])
  show ?thesis
  proof (cases r)
    case (Inl e)
    with r have "editOrder env input s = (Inl e, s)"
      unfolding editOrder_def by (simp add: bnd_def)
    then show ?thesis by simp
  next
    case (Inr authorized)
    obtain order buyerPreferences u where a: "authorized = (order, buyerPreferences, u)"
      by (cases authorized) auto
    from handleUnknownLocation_run[of env order buyerPreferences "in_shipToLocation input"
           "shippingOrDefault (in_shippingInformation input)" s]
    obtain shipping' s1 where
      h: "handleUnknownLocation env order buyerPreferences (in_shipToLocation input)
            (shippingOrDefault (in_shippingInformation input)) s = (Inr shipping', s1)"
      and s1: "db s1 = db s" "\<not> isIntegration env \<longrightarrow> s1 = s"
      by blast
    from editAndResetOrder_conflict[OF assms] obtain e1 where
      e1: "editAndResetOrder env u order shipping' input (buyerId order) s1 = (Inl e1, s1)"
      by blast
    from prepare_conflict[OF assms] obtain e2 where
      e2: "editOrderPrepare env input order shipping' s1 = (Inl e2, s1)"
      by blast
    have "editOrder env input s
            = (if isIntegration env then (Inl e1, s1) else (Inl e2, s1))"
      unfolding editOrder_def editOrderIntegration_def
      by (simp add: bnd_def r[unfolded Inr a] h e1 e2)
    with s1 show ?thesis by auto
  qed
qed

lemma empty_participants_run:
  assumes "participantChecksPass env s orderId []"
  shows "editOrderParticipants env orderId [] s = (Inr [], withoutParticipants orderId s)"
  using assms
  by (auto simp: editOrderParticipants_def participantChecksPass_def withoutParticipants_def
        guardParticipants_def Let_def exec split: option.splits)

text \<open>
  Claim C8, amended. A line-item payload that combines a replacement with an add, edit
  or remove list, or that edits and removes the same line item, makes \<^verbatim>\<open>editOrder\<close>
  end in an error with the relational tables (orders, line items, participants) as they
  were; outside an integration call the whole store is as it was. An empty participant
  list is not turned down: when the checks of \<^verbatim>\<open>editOrderParticipants\<close> pass, the call
  deletes every participant of the order and returns the empty list.
\<close>

theorem validation_before_writes:
  "(lineItemsOrDefault (in_lineItems input) = Val li \<and> lineItemsConflict li \<longrightarrow>
      (\<exists>e. fst (editOrder env input s) = Inl e)
      \<and> db (snd (editOrder env input s)) = db s
      \<and> (\<not> isIntegration env \<longrightarrow> snd (editOrder env input s) = s))
   \<and> (participantChecksPass env s orderId [] \<longrightarrow>
      editOrderParticipants env orderId [] s = (Inr [], withoutParticipants orderId s)
      \<and> participantsOf (withoutParticipants orderId s) orderId = [])"
proof -
  have a: "(\<exists>e. fst (editOrder env input s) = Inl e)
      \<and> db (snd (editOrder env input s)) = db s
      \<and> (\<not> isIntegration env \<longrightarrow> snd (editOrder env input s) = s)"
    if "lineItemsOrDefault (in_lineItems input) = Val li" "lineItemsConflict li"
    using editOrder_conflict[OF that, of env s] by auto
  have b: "participantsOf (withoutParticipants orderId s) orderId = []"
    by (simp add: participantsOf_def withoutParticipants_def filter_empty_conv)
  from a b empty_participants_run show ?thesis by blast
qed

lemma conflicting_lineItems:
  "lineItemsOrDefault (in_lineItems conflictingEdit) = Val conflictingItems"
  by (simp add: lineItemsOrDefault_def conflictingEdit_def)

lemma conflicting_conflict: "lineItemsConflict conflictingItems"
  by (simp add: lineItemsConflict_def conflictingItems_def noLineItems_def truthyJs_def)

lemma sole_approver_passes: "participantChecksPass exampleEnv soleApproverStore 1 []"
  by (simp add: participantChecksPass_def soleApproverStore_def participantsOf_def
        isAllowedToEditParticipants_def exampleDefs)

theorem validation_before_writes_witness:
  "lineItemsOrDefault (in_lineItems conflictingEdit) = Val conflictingItems
   \<and> lineItemsConflict conflictingItems
   \<and> participantChecksPass exampleEnv soleApproverStore 1 []
   \<and> \<not> isIntegration exampleEnv
   \<and> (\<exists>e. fst (editOrder exampleEnv conflictingEdit soleApproverStore) = Inl e)
   \<and> snd (editOrder exampleEnv conflictingEdit soleApproverStore) = soleApproverStore
   \<and> editOrderParticipants exampleEnv 1 [] soleApproverStore
       = (Inr [], withoutParticipants 1 soleApproverStore)"
proof -
  from validation_before_writes[of conflictingEdit conflictingItems exampleEnv
         soleApproverStore 1]
       conflicting_lineItems conflicting_conflict sole_approver_passes example_nonIntegration
  show ?thesis by blast
qed

text \<open>
  The claim as stated has an empty participant set rejected before any write. User 1,
  the only required approver of order 1, sends the empty list: the call returns it and
  the two participants of the order are gone.
\<close>

theorem empty_participants_accepted_counterexample:
  "\<not> isAdminOrStaff exampleEnv \<and> \<not> isIntegration exampleEnv
   \<and> length (participantsOf soleApproverStore 1) = 2
   \<and> fst (editOrderParticipants exampleEnv 1 [] soleApproverStore) = Inr []
   \<and> participantsOf (snd (editOrderParticipants exampleEnv 1 [] soleApproverStore)) 1 = []"
  unfolding empty_participants_run[OF sole_approver_passes]
  by (simp add: withoutParticipants_def participantsOf_def soleApproverStore_def exampleDefs)

subsection \<open>Transactions\<close>

lemma insertParticipants_rows:
  assumes "insertParticipants env failure orderId ps s = (Inr ids, s')"
  shows "\<exists>rows. rows \<noteq> [] \<and> list_all (\<lambda>p. participantOrderId p = orderId) rows
           \<and> s' = s\<lparr>db := (db s)\<lparr>orderParticipants := orderParticipants (db s) @ rows\<rparr>,
                    nextOid := nextOid s + length rows\<rparr>"
proof -
  let ?rows = "map (\<lambda>(p, i). \<lparr> userId = userId p,
                                      approvalIsRequired = approvalIsRequired p,
                                      participantOid = i,
                                      participantOrderId = orderId \<rparr>)
                 (zip ps [nextOid s ..< nextOid s + length ps])"
  from assms have ps: "ps \<noteq> []"
    and s': "s' = s\<lparr>db := (db s)\<lparr>orderParticipants := orderParticipants (db s) @ ?rows\<rparr>,
                   nextOid := nextOid s + length ps\<rparr>"
    by (simp_all add: insertParticipants_Inr)
  have len: "length ?rows = length ps" by simp
  have nonempty: "?rows \<noteq> []" using ps by (cases ps) simp_all
  have same: "list_all (\<lambda>p. participantOrderId p = orderId) ?rows"
    by (auto simp: list_all_iff)
  have "s' = s\<lparr>db := (db s)\<lparr>orderParticipants := orderParticipants (db s) @ ?rows\<rparr>,
               nextOid := nextOid s + length ?rows\<rparr>"
    unfolding len by (rule s')
  with nonempty same show ?thesis by blast
qed

lemma insert_then_return:
  assumes "bnd (insertParticipants env failure orderId ps) (\<lambda>_. ret ()) s = (r, s')"
  shows "(\<exists>e. r = Inl e \<and> s' = s)
       \<or> (r = Inr ()
           \<and> (\<exists>rows. rows \<noteq> [] \<and> list_all (\<lambda>p. participantOrderId p = orderId) rows
                \<and> s' = s\<lparr>db := (db s)\<lparr>orderParticipants := orderParticipants (db s) @ rows\<rparr>,
                         nextOid := nextOid s + length rows\<rparr>))"
  using assms
proof (cases rule: bnd_cases)
  case (fail e)
  then show ?thesis by (simp add: insertParticipants_Inl)
next
  case (ok ids s1)
  from insertParticipants_rows[OF ok(1)] ok(2) show ?thesis by simp
qed

lemma createOrderParticipants_outcome:
  assumes "createOrderParticipants env buyerOrgId supplierOrgId others orderId s = (r, s')"
  shows "(\<exists>e. r = Inl e \<and> s' = s)
       \<or> (r = Inr ()
           \<and> (\<exists>rows. rows \<noteq> [] \<and> list_all (\<lambda>p. participantOrderId p = orderId) rows
                \<and> s' = s\<lparr>db := (db s)\<lparr>orderParticipants := orderParticipants (db s) @ rows\<rparr>,
                         nextOid := nextOid s + length rows\<rparr>))"
proof -
  obtain buyerPick participants1 where
    a: "pickDefaultApprover
          (filter (\<lambda>p. Some (rights_orgId p)
                          \<in> set (filter (\<lambda>c. c \<noteq> None)
                                   ([Some buyerOrgId, supplierOrgId] @ others)))
             (orderParticipantsRights env)) (Some buyerOrgId) = (buyerPick, participants1)"
    by (rule prod.exhaust)
  obtain supplierPick participants2 where
    b: "pickDefaultApprover participants1 supplierOrgId = (supplierPick, participants2)"
    by (rule prod.exhaust)
  have "length (remdups [buyerPick, supplierPick]) \<noteq> 0" by simp
  with assms have "bnd (insertParticipants env
                     (ApolloError ''Failed to create order participants.'') orderId
                     (map (\<lambda>p. \<lparr> userId = participantId p,
                               approvalIsRequired =
                                 (if Some (participantId p)
                                       \<in> set (remdups [buyerPick, supplierPick])
                                  then True else False) \<rparr>) participants2))
             (\<lambda>_. ret ()) s = (r, s')"
    unfolding createOrderParticipants_def Let_def a b prod.case by (simp only: if_False)
  then show ?thesis by (rule insert_then_return)
qed

lemma list_update_twice:
  "xs[i := g ((xs[i := f (xs ! i)]) ! i)] = xs[i := g (f (xs ! i))]"
  by (cases "i < length xs") (simp_all add: list_update_beyond)

lemma bnd_extraData:
  "bnd (case extra of
            Some (x # xs) \<Rightarrow>
              modifyDb (\<lambda>t. t\<lparr>extraDataRows := extraDataRows t
                                 @ map (\<lambda>d. (orderId, d)) (x # xs)\<rparr>)
          | _ \<Rightarrow> ret ()) k t
     = k () (t\<lparr>db := (db t)\<lparr>extraDataRows := extraDataRows (db t)
                 @ map (\<lambda>d. (orderId, d)) (case extra of None \<Rightarrow> [] | Some xs \<Rightarrow> xs)\<rparr>\<rparr>)"
  by (simp split: option.splits list.splits)

lemma bnd_insertOrder:
  "bnd (insertOrder env input p) k s =
     (if rejects env OrderTable then (Inl (ApolloError ''Failed to create order''), s)
      else k (nextOid s)
             (s\<lparr>db := (db s)\<lparr>orders := orders (db s) @ [newOrderRow env input p (nextOid s)]\<rparr>,
                nextOid := Suc (nextOid s)\<rparr>))"
  by (simp add: bnd_def insertOrder_def)

lemma createOrderTry_outcome:
  assumes "createOrderTry env input p qr s = (r, s')"
  shows "((\<exists>e. r = Inl e) \<and> runners s' = runners s)
       \<or> (r = Inr (nextOid s)
           \<and> runners s' = (runners s)[qr := (runners s ! qr)\<lparr>isTransactionActive := False,
                                                            isReleased := True\<rparr>]
           \<and> orders (db s') = orders (db s) @ [newOrderRow env input p (nextOid s)]
           \<and> participantsOf s' (nextOid s) \<noteq> []
           \<and> nextOid s \<in> set (milestoneRows (db s')))"
proof (cases "rejects env OrderTable")
  case True
  with assms show ?thesis
    unfolding createOrderTry_def bnd_insertOrder by auto
next
  case False
  let ?s1 = "s\<lparr>db := (db s)\<lparr>orders := orders (db s) @ [newOrderRow env input p (nextOid s)]\<rparr>,
               nextOid := Suc (nextOid s)\<rparr>"
  obtain r2 s2 where cp: "createOrderParticipants env (po_orgId p) (co_supplierId input)
            [co_consigneeId input, co_forwarderId input] (nextOid s) ?s1 = (r2, s2)"
    by (cases "createOrderParticipants env (po_orgId p) (co_supplierId input)
            [co_consigneeId input, co_forwarderId input] (nextOid s) ?s1") auto
  from createOrderParticipants_outcome[OF cp] show ?thesis
  proof
    assume "\<exists>e. r2 = Inl e \<and> s2 = ?s1"
    then obtain e where e: "r2 = Inl e" "s2 = ?s1" by blast
    have step2: "\<And>k. bnd (createOrderParticipants env (po_orgId p) (co_supplierId input)
            [co_consigneeId input, co_forwarderId input] (nextOid s)) k ?s1 = (Inl e, ?s1)"
      by (simp add: bnd_def cp e)
    from assms have "(Inl e, ?s1) = (r, s')"
      unfolding createOrderTry_def bnd_insertOrder using False by (simp only: if_False step2)
    then show ?thesis by auto
  next
    assume "r2 = Inr ()
           \<and> (\<exists>rows. rows \<noteq> [] \<and> list_all (\<lambda>p. participantOrderId p = nextOid s) rows
                \<and> s2 = ?s1\<lparr>db := (db ?s1)\<lparr>orderParticipants :=
                                   orderParticipants (db ?s1) @ rows\<rparr>,
                         nextOid := nextOid ?s1 + length rows\<rparr>)"
    then obtain rows where r2: "r2 = Inr ()" and rows: "rows \<noteq> []"
      "list_all (\<lambda>p. participantOrderId p = nextOid s) rows"
      and s2: "s2 = ?s1\<lparr>db := (db ?s1)\<lparr>orderParticipants :=
                                   orderParticipants (db ?s1) @ rows\<rparr>,
                         nextOid := nextOid ?s1 + length rows\<rparr>"
      by blast
    have nonempty: "filter (\<lambda>p. participantOrderId p = nextOid s) rows \<noteq> []"
      using rows by (cases rows) (auto simp: list_all_iff)
    have step2: "\<And>k. bnd (createOrderParticipants env (po_orgId p) (co_supplierId input)
            [co_consigneeId input, co_forwarderId input] (nextOid s)) k ?s1 = k () s2"
      by (simp add: bnd_def cp r2)
    from assms have run: "(Inr (nextOid s),
         s2\<lparr>db := (db s2)\<lparr>extraDataRows := extraDataRows (db s2)
                     @ map (\<lambda>d. (nextOid s, d))
                         (case co_extraData input of None \<Rightarrow> [] | Some xs \<Rightarrow> xs),
                   milestoneRows := milestoneRows (db s2) @ [nextOid s]\<rparr>,
            runners := (runners s2)[qr := (runners s2 ! qr)\<lparr>isTransactionActive := False,
                                                            isReleased := True\<rparr>]\<rparr>) = (r, s')"
      unfolding createOrderTry_def bnd_insertOrder using False
      by (simp only: if_False step2 bnd_extraData)
         (simp add: ret_def list_update_twice)
    have "r = Inr (nextOid s)
           \<and> runners s' = (runners s)[qr := (runners s ! qr)\<lparr>isTransactionActive := False,
                                                            isReleased := True\<rparr>]
           \<and> orders (db s') = orders (db s) @ [newOrderRow env input p (nextOid s)]
           \<and> orderParticipants (db s') = orderParticipants (db s) @ rows
           \<and> nextOid s \<in> set (milestoneRows (db s'))"
      using run[symmetric] by (simp add: s2)
    then show ?thesis by (simp add: participantsOf_def nonempty)
  qed
qed

lemma createOrderTransaction_outcome:
  assumes "createOrderTransaction env input p s = (r, s')"
  shows "\<exists>qr. runners s' = runners s @ [qr] \<and> runnerClosed qr \<and> snapshot qr = db s
           \<and> ((\<exists>e. r = Inl (CreateOrderError e)) \<and> db s' = db s
              \<or> (r = Inr (nextOid s)
                  \<and> orders (db s') = orders (db s) @ [newOrderRow env input p (nextOid s)]
                  \<and> participantsOf s' (nextOid s) \<noteq> []
                  \<and> nextOid s \<in> set (milestoneRows (db s'))))"
proof -
  let ?qr = "length (runners s)"
  let ?s0 = "s\<lparr>runners := runners s @
                 [\<lparr>isTransactionActive = True, isReleased = False, snapshot = db s\<rparr>]\<rparr>"
  obtain r1 s1 where body: "createOrderTry env input p ?qr ?s0 = (r1, s1)"
    by (rule prod.exhaust)
  from createOrderTry_outcome[OF body] show ?thesis
  proof
    assume "(\<exists>e. r1 = Inl e) \<and> runners s1 = runners ?s0"
    then obtain e where e: "r1 = Inl e" and rs: "runners s1 = runners ?s0" by blast
    from assms have "(Inl (CreateOrderError e),
         s1\<lparr>db := db s,
            runners := runners s @
              [\<lparr>isTransactionActive = False, isReleased = True, snapshot = db s\<rparr>]\<rparr>) = (r, s')"
      unfolding createOrderTransaction_def bnd_start
      by (simp add: catch_def body e rs throw_def bnd_def rollbackTransaction_def release_def)
    then show ?thesis by (auto simp: runnerClosed_def)
  next
    assume ok: "r1 = Inr (nextOid ?s0)
           \<and> runners s1 = (runners ?s0)[?qr := (runners ?s0 ! ?qr)\<lparr>isTransactionActive := False,
                                                            isReleased := True\<rparr>]
           \<and> orders (db s1) = orders (db ?s0) @ [newOrderRow env input p (nextOid ?s0)]
           \<and> participantsOf s1 (nextOid ?s0) \<noteq> []
           \<and> nextOid ?s0 \<in> set (milestoneRows (db s1))"
    from assms have "(r1, s1) = (r, s')"
      unfolding createOrderTransaction_def bnd_start
      by (simp add: catch_def body ok)
    with ok show ?thesis by (auto simp: runnerClosed_def)
  qed
qed

lemma keeps_emailOf [simp]: "keeps g (emailOf env uid)"
  unfolding emailOf_def by (auto split: option.splits)

lemma keeps_validateOneOrg:
  assumes "\<And>s es. g (s\<lparr>events := es\<rparr>) = g s"
  shows "keeps g (validateOneOrg env buyerKey newAdminUsers firstAdminUser e orderOrgs)"
  unfolding validateOneOrg_def
  by (intro keeps_rules keeps_emailOf keeps_emit keeps_throw keeps_ret assms)

lemma keeps_validateOrgs:
  assumes "\<And>s es. g (s\<lparr>events := es\<rparr>) = g s"
  shows "keeps g (validateOrgs env buyerKey newAdminUsers firstAdminUser es orderOrgs)"
proof (induction es arbitrary: orderOrgs)
  case Nil
  show ?case by simp
next
  case (Cons e es)
  show ?case
    unfolding validateOrgs.simps
    by (intro keeps_bnd keeps_validateOneOrg assms Cons)
qed

lemma keeps_validateOrderOrg:
  assumes "\<And>s es. g (s\<lparr>events := es\<rparr>) = g s"
  shows "keeps g (validateOrderOrg env input buyer)"
  unfolding validateOrderOrg_def
  by (intro keeps_bnd keeps_parsePreferences keeps_case_option keeps_throw)
     (auto split: list.splits intro: keeps_validateOrgs assms)

lemma keeps_checkFieldsCreatable [simp]: "keeps g (checkFieldsCreatable env poPrefs ks)"
  by (induction ks) (auto split: option.splits)

lemma keeps_createOrderPrepare:
  assumes "\<And>s es. g (s\<lparr>events := es\<rparr>) = g s"
  shows "keeps g (createOrderPrepare env input)"
  unfolding createOrderPrepare_def Let_def
  by (intro keeps_rules keeps_parsePreferences keeps_throw keeps_ret keeps_validateOrderOrg
        keeps_checkFieldsCreatable keeps_emit assms)

lemma created_events [simp]: "created (s\<lparr>events := es\<rparr>) = created s"
  by (simp add: created_def)

lemma keeps_created_runLineItemCalls [simp]: "keeps created (runLineItemCalls env calls)"
proof (induction calls)
  case Nil
  show ?case by simp
next
  case (Cons c cs)
  have "keeps created (\<lambda>s. case lineItemUtility env c (orderLineItems (db s)) of
                 (items, response) \<Rightarrow> (Inr response, s\<lparr>db := (db s)\<lparr>orderLineItems := items\<rparr>\<rparr>))"
    by (auto simp: keeps_def created_def split: prod.splits)
  with Cons show ?case by (auto intro!: keeps_bnd)
qed

lemma keeps_created_finish: "keeps created (createOrderFinish env input p orderId)"
  unfolding createOrderFinish_def
  by (intro keeps_rules keeps_emit keeps_created_runLineItemCalls keeps_loadOrder keeps_ret
        created_events)

lemma keeps_runners_invokeChangeControl:
  "keeps runners
     (invokeChangeControl env order u orgId lineItems shipping orderChangeRequestNote extra)"
proof -
  have a: "\<And>row. keeps runners (insertChangeRequest env row)"
    by (auto simp: keeps_def insertChangeRequest_def split: if_splits)
  have b: "\<And>table f. keeps runners (insertUnchecked env table f)"
    by (auto simp: keeps_def insertUnchecked_def modifyDb_def throw_def split: if_splits)
  have c: "\<And>k orgId u extra. keeps runners (updateOrder k orgId u extra)"
    unfolding updateOrder_def by (intro keeps_bnd keeps_modifyDb keeps_emit) simp_all
  show ?thesis
    unfolding invokeChangeControl_def Let_def
    by (intro keeps_rules a b c keeps_destructure keeps_readStore keeps_throw keeps_emit) simp
qed

lemma createOrder_outcome:
  assumes "createOrder env input s = (r, s')"
  shows "(runners s' = runners s \<and> db s' = db s \<and> (\<exists>e. r = Inl e))
       \<or> (\<exists>qr. runners s' = runners s @ [qr] \<and> runnerClosed qr \<and> snapshot qr = db s
            \<and> (db s' = db s \<and> (\<exists>e. r = Inl (CreateOrderError e))
               \<or> (\<exists>row. orders (db s') = orders (db s) @ [row]
                     \<and> participantsOf s' (order_id row) \<noteq> []
                     \<and> order_id row \<in> set (milestoneRows (db s')))))"
  using assms unfolding createOrder_def
proof (cases rule: bnd_cases)
  case (fail e)
  from keepsD[OF keeps_createOrderPrepare fail(1), of "\<lambda>s. (db s, runners s)"] fail(2)
  show ?thesis by simp
next
  case (ok p s1)
  from keepsD[OF keeps_createOrderPrepare ok(1), of "\<lambda>s. (db s, runners s)"]
  have s1: "db s1 = db s" "runners s1 = runners s" by simp_all
  from ok(2) show ?thesis
  proof (cases rule: bnd_cases)
    case (fail e)
    from createOrderTransaction_outcome[OF fail(1)] fail(2) s1 show ?thesis
      by auto
  next
    case (ok orderId s2)
    from createOrderTransaction_outcome[OF ok(1)] obtain qr where
      qr: "runners s2 = runners s1 @ [qr]" "runnerClosed qr" "snapshot qr = db s1"
      and row: "orders (db s2) = orders (db s1) @ [newOrderRow env input p (nextOid s1)]"
         "participantsOf s2 (nextOid s1) \<noteq> []" "nextOid s1 \<in> set (milestoneRows (db s2))"
      by auto
    from keepsD[OF keeps_created_finish ok(2)]
    have same: "orders (db s') = orders (db s2)" "orderParticipants (db s') = orderParticipants (db s2)"
      "milestoneRows (db s') = milestoneRows (db s2)" "runners s' = runners s2"
      by (simp_all add: created_def)
    have id: "order_id (newOrderRow env input p (nextOid s1)) = nextOid s1"
      by (simp add: newOrderRow_def)
    from qr row same s1 id show ?thesis
      by (auto simp: participantsOf_def)
  qed
qed

text \<open>
  Claim C9, amended. The transaction of \<^verbatim>\<open>createOrder\<close> (the order row with its
  participant, extra-data and milestone rows) opens one query runner; when it ends in
  an error the tables are back at the runner's snapshot, when it succeeds the rows are
  stored, and either way the runner's transaction has ended and the runner is released.
  A run of \<^verbatim>\<open>createOrder\<close> opens no runner or leaves that one closed runner.
  \<^verbatim>\<open>editOrderParticipants\<close> opens a runner for a non-empty insert, after the delete (the
  runner's snapshot is without the order's participants), and, when the call returns,
  has committed and released it: the tables hold the snapshot's participants and the
  inserted rows. \<^verbatim>\<open>invokeChangeControl\<close> opens no runner: its statements are applied
  one by one.
\<close>

theorem transaction_scopes:
  "(createOrderTransaction env input p s0 = (r0, s0') \<longrightarrow>
      (\<exists>qr. runners s0' = runners s0 @ [qr] \<and> runnerClosed qr \<and> snapshot qr = db s0
         \<and> ((\<exists>e. r0 = Inl (CreateOrderError e)) \<and> db s0' = db s0
            \<or> (r0 = Inr (nextOid s0)
                \<and> orders (db s0') = orders (db s0) @ [newOrderRow env input p (nextOid s0)]
                \<and> participantsOf s0' (nextOid s0) \<noteq> []
                \<and> nextOid s0 \<in> set (milestoneRows (db s0'))))))
   \<and> (createOrder env input s = (r, s') \<longrightarrow>
      (runners s' = runners s \<and> db s' = db s \<and> (\<exists>e. r = Inl e))
      \<or> (\<exists>qr. runners s' = runners s @ [qr] \<and> runnerClosed qr \<and> snapshot qr = db s
            \<and> (db s' = db s \<and> (\<exists>e. r = Inl (CreateOrderError e))
               \<or> (\<exists>row. orders (db s') = orders (db s) @ [row]
                     \<and> participantsOf s' (order_id row) \<noteq> []
                     \<and> order_id row \<in> set (milestoneRows (db s'))))))
   \<and> (ps \<noteq> [] \<and> editOrderParticipants env orderId ps t = (Inr rows, t') \<longrightarrow>
        (\<exists>qr. runners t' = runners t @ [qr] \<and> runnerClosed qr
           \<and> snapshot qr
               = (db t)\<lparr>orderParticipants :=
                          filter (\<lambda>p. participantOrderId p \<noteq> orderId)
                            (orderParticipants (db t))\<rparr>
           \<and> orderParticipants (db t')
               = orderParticipants (snapshot qr) @ newParticipantRows orderId ps (nextOid t)
           \<and> participantsOf t' orderId = newParticipantRows orderId ps (nextOid t)
           \<and> length (participantsOf t' orderId) = length ps))
   \<and> (invokeChangeControl env order u orgId lineItems shipping orderChangeRequestNote extra v
         = (x, v') \<longrightarrow> runners v' = runners v)"
proof -
  have own: "filter (\<lambda>p. participantOrderId p = orderId)
               (newParticipantRows orderId ps (nextOid t))
             = newParticipantRows orderId ps (nextOid t)"
    by (auto simp: newParticipantRows_def filter_id_conv)
  have len: "length (newParticipantRows orderId ps (nextOid t)) = length ps"
    by (simp add: newParticipantRows_def)
  have b: "\<exists>qr. runners t' = runners t @ [qr] \<and> runnerClosed qr
           \<and> snapshot qr
               = (db t)\<lparr>orderParticipants :=
                          filter (\<lambda>p. participantOrderId p \<noteq> orderId)
                            (orderParticipants (db t))\<rparr>
           \<and> orderParticipants (db t')
               = orderParticipants (snapshot qr) @ newParticipantRows orderId ps (nextOid t)
           \<and> participantsOf t' orderId = newParticipantRows orderId ps (nextOid t)
           \<and> length (participantsOf t' orderId) = length ps"
    if "ps \<noteq> []" "editOrderParticipants env orderId ps t = (Inr rows, t')"
    using editOrderParticipants_outcome[OF that(2)] that(1)
    by (auto simp: runnerClosed_def participantsOf_def own len
          newParticipantRows_def[symmetric])
  have c: "runners v' = runners v"
    if "invokeChangeControl env order u orgId lineItems shipping orderChangeRequestNote extra v
         = (x, v')"
    using keepsD[OF keeps_runners_invokeChangeControl that] .
  from createOrderTransaction_outcome[of env input p s0 r0 s0']
       createOrder_outcome[of env input s r s'] b c
  show ?thesis by blast
qed

text \<open>The examples: an order created, and one turned down by the participant table.\<close>

lemma example_created:
  "\<exists>row. fst (createOrder exampleEnv exampleCreate exampleStore) = Inr row"
  by (simp add: createOrder_def createOrderPrepare_def createOrderTransaction_def
        createOrderTry_def createOrderFinish_def createOrderParticipants_def
        pickDefaultApprover_def insertOrder_def parsePreferences_def createFieldKeys_def
        firstTruthy_def hasDestination_def newOrderRow_def exampleCreate_def truthy_def
        exec exampleDefs Let_def)

lemma example_prepared:
  "createOrderPrepare exampleEnv exampleCreate exampleStore = (Inr examplePrepared, exampleStore)"
  by (simp add: createOrderPrepare_def parsePreferences_def createFieldKeys_def
        firstTruthy_def hasDestination_def exampleCreate_def examplePrepared_def
        exec exampleDefs Let_def)

lemma example_create_rejected:
  "fst (createOrderTransaction rejectingEnv exampleCreate examplePrepared exampleStore)
     = Inl (CreateOrderError (ApolloError ''Failed to create order participants.''))"
  by (simp add: createOrderTransaction_def createOrderTry_def createOrderParticipants_def
        pickDefaultApprover_def insertOrder_def newOrderRow_def exampleCreate_def
        examplePrepared_def rejectingEnv_def exec exampleDefs Let_def)

lemma example_replaced:
  "\<exists>rows. fst (editOrderParticipants exampleEnv 1 unchangedPicks exampleStore) = Inr rows"
  by (simp add: editOrderParticipants_def guardParticipants_def isAllowedToEditParticipants_def
        unchangedPicks_def exec exampleDefs Let_def)

theorem transaction_scopes_witness:
  "(\<exists>row. fst (createOrder exampleEnv exampleCreate exampleStore) = Inr row)
   \<and> (\<exists>qr. runners (snd (createOrder exampleEnv exampleCreate exampleStore))
             = runners exampleStore @ [qr]
           \<and> runnerClosed qr \<and> snapshot qr = db exampleStore)
   \<and> (\<exists>row. orders (db (snd (createOrder exampleEnv exampleCreate exampleStore)))
              = orders (db exampleStore) @ [row])
   \<and> createOrderPrepare exampleEnv exampleCreate exampleStore
       = (Inr examplePrepared, exampleStore)
   \<and> fst (createOrderTransaction rejectingEnv exampleCreate examplePrepared exampleStore)
       = Inl (CreateOrderError (ApolloError ''Failed to create order participants.''))
   \<and> (\<exists>qr. runners (snd (createOrderTransaction rejectingEnv exampleCreate examplePrepared
                             exampleStore))
             = runners exampleStore @ [qr]
           \<and> runnerClosed qr \<and> snapshot qr = db exampleStore)
   \<and> db (snd (createOrderTransaction rejectingEnv exampleCreate examplePrepared exampleStore))
       = db exampleStore
   \<and> unchangedPicks \<noteq> []
   \<and> (\<exists>rows. fst (editOrderParticipants exampleEnv 1 unchangedPicks exampleStore) = Inr rows)
   \<and> (\<exists>qr. runners (snd (editOrderParticipants exampleEnv 1 unchangedPicks exampleStore))
             = runners exampleStore @ [qr] \<and> runnerClosed qr)
   \<and> participantsOf (snd (editOrderParticipants exampleEnv 1 unchangedPicks exampleStore)) 1
       = newParticipantRows 1 unchangedPicks (nextOid exampleStore)
   \<and> runners (snd (invokeChangeControl exampleEnv exampleOrder (Some exampleAuthor) 10
                      (Val noLineItems) [(''destinationId'', JKey 41)] None None exampleStore))
       = runners exampleStore"
proof -
  let ?ok = "createOrder exampleEnv exampleCreate exampleStore"
  let ?bad = "createOrderTransaction rejectingEnv exampleCreate examplePrepared exampleStore"
  let ?rep = "editOrderParticipants exampleEnv 1 unchangedPicks exampleStore"
  let ?icc = "invokeChangeControl exampleEnv exampleOrder (Some exampleAuthor) 10
                (Val noLineItems) [(''destinationId'', JKey 41)] None None exampleStore"
  have picks: "unchangedPicks \<noteq> []" by (simp add: unchangedPicks_def)
  from example_replaced obtain rows where rows: "fst ?rep = Inr rows" by blast
  then have rep: "?rep = (Inr rows, snd ?rep)" by (metis surjective_pairing)
  from example_created obtain row where row: "fst ?ok = Inr row" by blast
  have okrun: "?ok = (Inr row, snd ?ok)" using row by (metis surjective_pairing)
  have badrun: "?bad = (Inl (CreateOrderError
                               (ApolloError ''Failed to create order participants.'')),
                        snd ?bad)"
    using example_create_rejected by (metis surjective_pairing)
  have a1: "(\<exists>qr. runners (snd ?ok) = runners exampleStore @ [qr]
           \<and> runnerClosed qr \<and> snapshot qr = db exampleStore)
          \<and> (\<exists>row. orders (db (snd ?ok)) = orders (db exampleStore) @ [row])"
    using transaction_scopes[THEN conjunct2, THEN conjunct1, THEN mp, OF okrun] by auto
  have a2: "(\<exists>qr. runners (snd ?bad) = runners exampleStore @ [qr]
           \<and> runnerClosed qr \<and> snapshot qr = db exampleStore)
          \<and> db (snd ?bad) = db exampleStore"
    using transaction_scopes[THEN conjunct1, THEN mp, OF badrun] by auto
  have a3: "(\<exists>qr. runners (snd ?rep) = runners exampleStore @ [qr] \<and> runnerClosed qr)
          \<and> participantsOf (snd ?rep) 1
              = newParticipantRows 1 unchangedPicks (nextOid exampleStore)"
    using transaction_scopes[THEN conjunct2, THEN conjunct2, THEN conjunct1, THEN mp,
            OF conjI[OF picks rep]] by blast
  have a4: "runners (snd ?icc) = runners exampleStore"
    using transaction_scopes[THEN conjunct2, THEN conjunct2, THEN conjunct2, THEN mp,
            OF surjective_pairing[of ?icc]] .
  from a1 a2 a3 a4 picks example_created example_prepared example_create_rejected
       example_replaced
  show ?thesis by blast
qed

text \<open>
  The claim as stated has the change request, its reviews and its line-item deltas in
  one transaction that is rolled back on error. When the database turns down the insert
  of the reviews, the call ends in an error, the change request stays stored, and no
  runner was opened.
\<close>

theorem change_request_without_transaction_counterexample:
  "fst (invokeChangeControl reviewRejectingEnv exampleOrder (Some exampleAuthor) 10
          (Val noLineItems) [(''destinationId'', JKey 41)] None None exampleStore)
     = Inl (DbError ''insert'')
   \<and> orderChangeRequests (db exampleStore) = []
   \<and> length (orderChangeRequests (db (snd
         (invokeChangeControl reviewRejectingEnv exampleOrder (Some exampleAuthor) 10
            (Val noLineItems) [(''destinationId'', JKey 41)] None None exampleStore)))) = 1
   \<and> runners (snd
         (invokeChangeControl reviewRejectingEnv exampleOrder (Some exampleAuthor) 10
            (Val noLineItems) [(''destinationId'', JKey 41)] None None exampleStore)) = []"
  by (simp add: invokeChangeControl_def reviewRejectingEnv_def lastChangeRequest_def
        exec exampleDefs Let_def)

end
